(* ===== verification/Prelude.thy ===== *)
theory Prelude
  imports Main "HOL-Library.Word" "HOL-Library.AList" "HOL-Library.Multiset"
begin

text \<open>
  Shared vocabulary of the development: the machine integers of the Go code, the conversions
  between them, decimal formatting, Go maps as association lists with distinct keys, and the
  generic facts on lists and rows that the component theories use.
\<close>

section \<open>Machine integers\<close>

text \<open>
  The services run on 64-bit platforms, so Go's \<open>int\<close> is a 64-bit two's complement word.
  \<open>int32\<close> and \<open>uint32\<close> are 32-bit words; whether a word is read as signed or
  unsigned is decided by the operation (\<open>sint\<close> against \<open>uint\<close>).
\<close>

type_synonym goint = "64 word"
type_synonym int32 = "32 word"
type_synonym uint32 = "32 word"

text \<open>Go's numeric conversions: truncation to the low 32 bits and sign extension.\<close>

definition int32_of_int :: "goint \<Rightarrow> int32" where
  "int32_of_int i = ucast i"

definition int_of_int32 :: "int32 \<Rightarrow> goint" where
  "int_of_int32 i = scast i"

definition uint32_of_int :: "goint \<Rightarrow> uint32" where
  "uint32_of_int i = ucast i"

text \<open>The value range of an \<open>int32\<close>, which is also that of an SQL \<open>INTEGER\<close>.\<close>

definition int4_range :: "int \<Rightarrow> bool" where
  "int4_range i \<longleftrightarrow> - 2147483648 \<le> i \<and> i \<le> 2147483647"


lemma sint_int32_of_int: "sint (int32_of_int i) = signed_take_bit 31 (sint i)"
  unfolding int32_of_int_def
  by (transfer; simp add: signed_take_bit_take_bit min_def)

lemma sint_int_of_int32 [simp]: "sint (int_of_int32 i) = sint i"
  unfolding int_of_int32_def by (transfer; simp add: min_def)

lemma sint_goint_inject: "sint i = sint j \<Longrightarrow> i = (j :: goint)"
  by (metis signed_word_eqI)

lemma sint_int32_in_range: "int4_range (sint i) \<Longrightarrow> sint (int32_of_int i) = sint i"
  by (simp add: sint_int32_of_int int4_range_def signed_take_bit_int_eq_self_iff)

lemma int_of_int32_of_int: "int4_range (sint i) \<Longrightarrow> int_of_int32 (int32_of_int i) = i"
  by (rule sint_goint_inject) (simp add: sint_int32_in_range)

lemma int_of_int32_inject [simp]: "int_of_int32 i = int_of_int32 j \<longleftrightarrow> i = j"
  by (metis sint_int_of_int32 signed_word_eqI)

lemma sint_int32_range: "int4_range (sint (i :: int32))"
  using sint_greater_eq [of i] sint_lt [of i] by (simp add: int4_range_def)

lemma sint_goint_of_int4: "int4_range i \<Longrightarrow> sint (word_of_int i :: goint) = i"
  by (simp add: int4_range_def sint_sbintrunc' signed_take_bit_int_eq_self_iff)

lemma uint_uint32_of_int4: "0 \<le> i \<Longrightarrow> int4_range i \<Longrightarrow> uint (word_of_int i :: uint32) = i"
  by (simp add: int4_range_def uint_word_of_int_eq take_bit_int_eq_self_iff)

section \<open>Decimal formatting\<close>

text \<open>\<open>strconv.FormatInt(i, 10)\<close> and the verb \<open>%d\<close>.\<close>

fun show_nat :: "nat \<Rightarrow> string" where
  "show_nat n =
     (if n < 10 then [char_of (48 + n)] else show_nat (n div 10) @ [char_of (48 + n mod 10)])"

declare show_nat.simps [simp del]

definition show_int :: "int \<Rightarrow> string" where
  "show_int i = (if i < 0 then ''-'' @ show_nat (nat (- i)) else show_nat (nat i))"

section \<open>strings.Split with a one-character separator\<close>

fun split_char :: "char \<Rightarrow> string \<Rightarrow> string list" where
  "split_char c [] = [[]]"
| "split_char c (x # xs) =
     (if x = c then [] # split_char c xs
      else (case split_char c xs of [] \<Rightarrow> [[x]] | p # ps \<Rightarrow> (x # p) # ps))"

lemma split_char_not_Nil [simp]: "split_char c xs \<noteq> []"
  by (cases xs) (auto split: list.splits)

lemma split_char_no_sep: "c \<notin> set xs \<Longrightarrow> split_char c xs = [xs]"
  by (induction xs) auto

lemma split_char_append:
  "c \<notin> set xs \<Longrightarrow> split_char c (xs @ c # ys) = xs # split_char c ys"
  by (induction xs) auto

lemma split_char_sep_free: "p \<in> set (split_char c xs) \<Longrightarrow> c \<notin> set p"
  by (induction xs arbitrary: p) (auto split: list.splits if_splits)

lemma split_char_Cons_decomp:
  "split_char c xs = p # q # ps \<Longrightarrow> \<exists>ys. xs = p @ c # ys \<and> split_char c ys = q # ps"
proof (induction xs arbitrary: p)
  case (Cons x xs)
  show ?case
  proof (cases "x = c")
    case True
    with Cons.prems show ?thesis by auto
  next
    case False
    with Cons.prems obtain p' where p: "p = x # p'" and "split_char c xs = p' # q # ps"
      by (auto split: list.splits)
    from Cons.IH [OF this(2)] show ?thesis using p by auto
  qed
qed simp

lemma split_char_single: "split_char c xs = [p] \<Longrightarrow> p = xs \<and> c \<notin> set xs"
proof (induction xs arbitrary: p)
  case (Cons x xs)
  then show ?case by (auto split: list.splits if_splits)
qed simp

lemma split_char_pair_iff:
  "split_char c xs = [p, q] \<longleftrightarrow> xs = p @ c # q \<and> c \<notin> set p \<and> c \<notin> set q"
proof
  assume asm: "split_char c xs = [p, q]"
  then have "c \<notin> set p" by (intro split_char_sep_free [of p c xs]) simp
  moreover obtain ys where "xs = p @ c # ys" "split_char c ys = [q]"
    using split_char_Cons_decomp [OF asm] by auto
  ultimately show "xs = p @ c # q \<and> c \<notin> set p \<and> c \<notin> set q"
    using split_char_single by auto
qed (auto simp: split_char_append split_char_no_sep)

section \<open>Go maps\<close>

text \<open>
  A Go map is an association list with distinct keys. Writing a key is \<open>AList.update\<close>;
  reading a missing key yields the zero value of the value type. Ranging over a map visits the
  entries in an order the language leaves open: code that ranges takes the order as a parameter
  \<open>rng\<close>, of which \<open>range_order\<close> says that it visits every entry exactly once.
\<close>

type_synonym ('k, 'v) gomap = "('k \<times> 'v) list"

definition gomap_get :: "'v \<Rightarrow> ('k, 'v) gomap \<Rightarrow> 'k \<Rightarrow> 'v" where
  "gomap_get zero m k = (case map_of m k of None \<Rightarrow> zero | Some v \<Rightarrow> v)"

definition range_order :: "('a list \<Rightarrow> 'a list) \<Rightarrow> bool" where
  "range_order rng \<longleftrightarrow> (\<forall>xs. mset (rng xs) = mset xs)"

lemma range_order_mset: "range_order rng \<Longrightarrow> mset (rng xs) = mset xs"
  by (simp add: range_order_def)

lemma range_order_set: "range_order rng \<Longrightarrow> set (rng xs) = set xs"
  by (metis range_order_mset set_mset_mset)

lemma range_order_id: "range_order (\<lambda>xs. xs)"
  by (simp add: range_order_def)

lemma range_order_rev: "range_order rev"
  by (simp add: range_order_def)

text \<open>Any function, made an order by falling back to the order of insertion where it is none.\<close>

definition visit_order :: "('a list \<Rightarrow> 'a list) \<Rightarrow> 'a list \<Rightarrow> 'a list" where
  "visit_order rng xs = (if mset (rng xs) = mset xs then rng xs else xs)"

lemma range_order_visit_order [simp]: "range_order (visit_order rng)"
  by (simp add: range_order_def visit_order_def)

lemma visit_order_range_order: "range_order rng \<Longrightarrow> visit_order rng = rng"
  by (simp add: range_order_def visit_order_def fun_eq_iff)

section \<open>Rows keyed by their first column\<close>

text \<open>\<open>UPDATE t SET c = f c WHERE key = k AND p c\<close> on a two-column table.\<close>

definition update_rows :: "'k \<Rightarrow> ('v \<Rightarrow> bool) \<Rightarrow> ('v \<Rightarrow> 'v) \<Rightarrow> ('k \<times> 'v) list \<Rightarrow> ('k \<times> 'v) list"
  where "update_rows k p f rows = map (\<lambda>(k', v). if k' = k \<and> p v then (k', f v) else (k', v)) rows"

definition matching_rows :: "'k \<Rightarrow> ('v \<Rightarrow> bool) \<Rightarrow> ('k \<times> 'v) list \<Rightarrow> nat" where
  "matching_rows k p rows = length (filter (\<lambda>(k', v). k' = k \<and> p v) rows)"

lemma map_fst_update_rows [simp]: "map fst (update_rows k p f rows) = map fst rows"
  by (induction rows) (auto simp: update_rows_def)

lemma map_of_update_rows:
  "map_of (update_rows k p f rows) k' =
     (case map_of rows k' of None \<Rightarrow> None | Some v \<Rightarrow> Some (if k' = k \<and> p v then f v else v))"
  by (induction rows) (auto simp: update_rows_def)

lemma update_rows_other: "map_of rows k = None \<Longrightarrow> update_rows k p f rows = rows"
  by (induction rows) (auto simp: update_rows_def split: if_splits)

lemma matching_rows_distinct:
  "distinct (map fst rows) \<Longrightarrow>
   matching_rows k p rows = (case map_of rows k of Some v \<Rightarrow> if p v then 1 else 0 | None \<Rightarrow> 0)"
proof (induction rows)
  case (Cons r rows)
  have "k \<notin> fst ` set rows \<Longrightarrow> filter (\<lambda>(k', v). k' = k \<and> p v) rows = []"
    by (auto simp: filter_empty_conv image_iff)
  with Cons show ?case
    by (cases r) (auto simp: matching_rows_def split: option.splits dest: map_of_SomeD)
qed (simp add: matching_rows_def)

lemma sum_update_rows:
  fixes f :: "int \<Rightarrow> int"
  assumes "distinct (map fst rows)" "map_of rows k = Some v" "p v"
  shows "sum_list (map snd (update_rows k p f rows)) = sum_list (map snd rows) + (f v - v)"
  using assms
proof (induction rows)
  case (Cons r rows)
  show ?case
  proof (cases "fst r = k")
    case True
    with Cons.prems(1) have "map_of rows k = None" by (auto simp: map_of_eq_None_iff)
    then have "update_rows k p f rows = rows" by (rule update_rows_other)
    with Cons.prems True show ?thesis by (cases r) (auto simp: update_rows_def)
  next
    case False
    with Cons show ?thesis by (cases r) (auto simp: update_rows_def)
  qed
qed simp

end
