(* ===== verification/Go_Errors.thy ===== *)
theory Go_Errors
  imports Prelude
begin

text \<open>
  The error values of the three services. Each service's domain package declares its error
  structs with an \<open>Error\<close> and an \<open>Is\<close> method; around them the code uses the sentinel
  errors of pgx and jwt, gRPC status errors, \<open>fmt.Errorf\<close> with \<open>%w\<close>, and whatever
  other error a library returns (\<open>OpaqueError\<close>, known by its text only).
\<close>

section \<open>Domain errors\<close>

text \<open>\<open>internal/store/domain/errors.go\<close>: one constructor per struct, its \<open>Msg\<close> as argument.\<close>

datatype store_error =
    InvalidArgumentsError string
  | InsufficientBalanceError string
  | UserNotFoundError string
  | GoodNotFoundError string
  | BalanceNotFoundError string
  | BalanceExistingError string

fun store_error_Error :: "store_error \<Rightarrow> string" where
  "store_error_Error (InvalidArgumentsError msg) = msg"
| "store_error_Error (InsufficientBalanceError msg) = msg"
| "store_error_Error (UserNotFoundError msg) = msg"
| "store_error_Error (GoodNotFoundError msg) = msg"
| "store_error_Error (BalanceNotFoundError msg) = msg"
| "store_error_Error (BalanceExistingError msg) = msg"

text \<open>The \<open>Is\<close> methods compare the dynamic type only; the message is ignored.\<close>

fun store_error_Is :: "store_error \<Rightarrow> store_error \<Rightarrow> bool" where
  "store_error_Is (InvalidArgumentsError _) (InvalidArgumentsError _) = True"
| "store_error_Is (InsufficientBalanceError _) (InsufficientBalanceError _) = True"
| "store_error_Is (UserNotFoundError _) (UserNotFoundError _) = True"
| "store_error_Is (GoodNotFoundError _) (GoodNotFoundError _) = True"
| "store_error_Is (BalanceNotFoundError _) (BalanceNotFoundError _) = True"
| "store_error_Is (BalanceExistingError _) (BalanceExistingError _) = True"
| "store_error_Is _ _ = False"

text \<open>
  \<open>internal/auth/domain/errors.go\<close>. The auth package has a \<open>UserNotFoundError\<close> of its own,
  a different Go type from the store's.
\<close>

datatype auth_error =
    CredentialsMismatchError string
  | AuthUserNotFoundError string

fun auth_error_Error :: "auth_error \<Rightarrow> string" where
  "auth_error_Error (CredentialsMismatchError msg) = msg"
| "auth_error_Error (AuthUserNotFoundError msg) = msg"

fun auth_error_Is :: "auth_error \<Rightarrow> auth_error \<Rightarrow> bool" where
  "auth_error_Is (CredentialsMismatchError _) (CredentialsMismatchError _) = True"
| "auth_error_Is (AuthUserNotFoundError _) (AuthUserNotFoundError _) = True"
| "auth_error_Is _ _ = False"

section \<open>All errors\<close>

text \<open>The gRPC status codes, with the names the \<open>codes\<close> package gives them.\<close>

datatype grpc_code =
    OK | Canceled | Unknown | InvalidArgument | DeadlineExceeded | NotFound | AlreadyExists
  | PermissionDenied | ResourceExhausted | FailedPrecondition | Aborted | OutOfRange
  | Unimplemented | Internal | Unavailable | DataLoss | Unauthenticated

fun code_name :: "grpc_code \<Rightarrow> string" where
  "code_name OK = ''OK''"
| "code_name Canceled = ''Canceled''"
| "code_name Unknown = ''Unknown''"
| "code_name InvalidArgument = ''InvalidArgument''"
| "code_name DeadlineExceeded = ''DeadlineExceeded''"
| "code_name NotFound = ''NotFound''"
| "code_name AlreadyExists = ''AlreadyExists''"
| "code_name PermissionDenied = ''PermissionDenied''"
| "code_name ResourceExhausted = ''ResourceExhausted''"
| "code_name FailedPrecondition = ''FailedPrecondition''"
| "code_name Aborted = ''Aborted''"
| "code_name OutOfRange = ''OutOfRange''"
| "code_name Unimplemented = ''Unimplemented''"
| "code_name Internal = ''Internal''"
| "code_name Unavailable = ''Unavailable''"
| "code_name DataLoss = ''DataLoss''"
| "code_name Unauthenticated = ''Unauthenticated''"

text \<open>
  \<open>WrapError s e\<close> is \<open>fmt.Errorf("s: %w", e)\<close>; \<open>StatusError c m\<close> is
  \<open>status.Error(c, m)\<close>. The other constructors are the sentinels \<open>pgx.ErrNoRows\<close>,
  \<open>pgx.ErrTxClosed\<close>, \<open>jwt.ErrTokenUnverifiable\<close> and \<open>jwt.ErrTokenInvalidClaims\<close>.
\<close>

datatype error =
    StoreError store_error
  | AuthError auth_error
  | StatusError grpc_code string
  | WrapError string error
  | ErrNoRows
  | ErrTxClosed
  | ErrTokenUnverifiable
  | ErrTokenInvalidClaims
  | OpaqueError string

fun Error :: "error \<Rightarrow> string" where
  "Error (StoreError e) = store_error_Error e"
| "Error (AuthError e) = auth_error_Error e"
| "Error (StatusError c m) = ''rpc error: code = '' @ code_name c @ '' desc = '' @ m"
| "Error (WrapError s e) = s @ '': '' @ Error e"
| "Error ErrNoRows = ''no rows in result set''"
| "Error ErrTxClosed = ''tx is closed''"
| "Error ErrTokenUnverifiable = ''token is unverifiable''"
| "Error ErrTokenInvalidClaims = ''token has invalid claims''"
| "Error (OpaqueError s) = s"

text \<open>
  \<open>errors.Is(err, target)\<close> of the standard library: walk the chain of wrapped errors and
  stop at the first one that equals the target or whose \<open>Is\<close> method accepts it. The code's
  targets are fresh pointers to domain structs (never equal to another pointer, but accepted by
  type) and sentinels.
\<close>

fun error_Is :: "error \<Rightarrow> error \<Rightarrow> bool" where
  "error_Is (StoreError e) (StoreError t) = store_error_Is e t"
| "error_Is (AuthError e) (AuthError t) = auth_error_Is e t"
| "error_Is e t = (e = t)"

fun errors_Is :: "error \<Rightarrow> error \<Rightarrow> bool" where
  "errors_Is (WrapError s e) t = (WrapError s e = t \<or> errors_Is e t)"
| "errors_Is e t = error_Is e t"

lemma store_error_Is_refl [simp]: "store_error_Is e e"
  by (cases e) auto

lemma auth_error_Is_refl [simp]: "auth_error_Is e e"
  by (cases e) auto

lemma errors_Is_wrap: "errors_Is e t \<Longrightarrow> errors_Is (WrapError s e) t"
  by simp

lemma errors_Is_wrap_store [simp]:
  "errors_Is (WrapError s e) (StoreError t) = errors_Is e (StoreError t)"
  "errors_Is (WrapError s e) (AuthError u) = errors_Is e (AuthError u)"
  "errors_Is (WrapError s e) ErrNoRows = errors_Is e ErrNoRows"
  "errors_Is (WrapError s e) ErrTxClosed = errors_Is e ErrTxClosed"
  by simp_all

text \<open>
  The kinds of domain error are disjoint: an error chain satisfies \<open>errors.Is\<close> for at most
  one of the store's error types, so the order of the cases in a status switch is irrelevant.
\<close>

lemma errors_Is_store_unique:
  "errors_Is e (StoreError s) \<Longrightarrow> errors_Is e (StoreError t) \<Longrightarrow> store_error_Is s t"
proof (induction e)
  case (StoreError x)
  then show ?case by (cases x; cases s; cases t) auto
qed auto

end
