(* ===== verification/Go_Context.thy ===== *)
theory Go_Context
  imports Go_Errors
begin

text \<open>
  The request context that every call carries (\<open>context.Context\<close> with the gRPC metadata of
  the call in it) and the logger interface.
\<close>

section \<open>Context\<close>

text \<open>
  A context key is either a string or the struct \<open>contextKey\<close> of the store's gRPC package
  (\<open>internal/store/grpc/context.go\<close>); Go compares keys with their dynamic type, so a struct
  key never collides with a string key. A value has type \<open>any\<close>.
\<close>

datatype ctx_key = StringKey string | ContextKey string

datatype ctx_value = AnyInt goint | AnyString string

text \<open>
  \<open>time_limit\<close> is what \<open>context.WithTimeout\<close> leaves to the call, in milliseconds;
  \<open>cancelled\<close> is whether the context is done. The metadata lists map a key to its values.
\<close>

record go_context =
  ctx_values :: "(ctx_key \<times> ctx_value) list"
  incoming_md :: "(string \<times> string list) list option"
  outgoing_md :: "(string \<times> string list) list"
  time_limit :: "nat option"
  cancelled :: bool

definition background :: go_context where
  "background = \<lparr>ctx_values = [], incoming_md = None, outgoing_md = [], time_limit = None,
     cancelled = False\<rparr>"

definition WithValue :: "go_context \<Rightarrow> ctx_key \<Rightarrow> ctx_value \<Rightarrow> go_context" where
  "WithValue ctx k v = ctx\<lparr>ctx_values := (k, v) # ctx_values ctx\<rparr>"

definition Value :: "go_context \<Rightarrow> ctx_key \<Rightarrow> ctx_value option" where
  "Value ctx k = map_of (ctx_values ctx) k"

definition WithTimeout :: "go_context \<Rightarrow> nat \<Rightarrow> go_context" where
  "WithTimeout ctx limit =
     ctx\<lparr>time_limit := Some (case time_limit ctx of None \<Rightarrow> limit | Some t \<Rightarrow> min t limit)\<rparr>"

text \<open>The checked type assertions \<open>v.(int)\<close> and \<open>v.(string)\<close> on a context value.\<close>

fun as_int :: "ctx_value option \<Rightarrow> goint option" where
  "as_int (Some (AnyInt i)) = Some i"
| "as_int _ = None"

fun as_string :: "ctx_value option \<Rightarrow> string option" where
  "as_string (Some (AnyString s)) = Some s"
| "as_string _ = None"

text \<open>
  \<open>metadata.FromIncomingContext\<close>, \<open>md.Get\<close> and \<open>metadata.AppendToOutgoingContext\<close>. Keys in
  this program are written in lower case, as the metadata package stores them.
\<close>

definition FromIncomingContext :: "go_context \<Rightarrow> (string \<times> string list) list option" where
  "FromIncomingContext ctx = incoming_md ctx"

definition md_Get :: "(string \<times> string list) list \<Rightarrow> string \<Rightarrow> string list" where
  "md_Get md k = gomap_get [] md k"

definition AppendToOutgoingContext :: "go_context \<Rightarrow> string \<Rightarrow> string \<Rightarrow> go_context" where
  "AppendToOutgoingContext ctx k v =
     ctx\<lparr>outgoing_md := AList.update k (gomap_get [] (outgoing_md ctx) k @ [v]) (outgoing_md ctx)\<rparr>"

lemma Value_WithValue [simp]:
  "Value (WithValue ctx k v) k' = (if k' = k then Some v else Value ctx k')"
  by (simp add: Value_def WithValue_def)

lemma Value_WithTimeout [simp]: "Value (WithTimeout ctx n) k = Value ctx k"
  by (simp add: Value_def WithTimeout_def)

lemma WithTimeout_bound: "\<exists>t. time_limit (WithTimeout ctx n) = Some t \<and> t \<le> n"
  by (auto simp: WithTimeout_def split: option.splits)

lemma incoming_WithTimeout [simp]: "incoming_md (WithTimeout ctx n) = incoming_md ctx"
  by (simp add: WithTimeout_def)

lemma outgoing_WithTimeout [simp]: "outgoing_md (WithTimeout ctx n) = outgoing_md ctx"
  by (simp add: WithTimeout_def)

section \<open>Logger\<close>

text \<open>
  The interface of \<open>internal/pkg/logging\<close>: a message and a list of key/value pairs. Writing a
  log line is an effect on the world, of which the code sees nothing.
\<close>

record 'w Logger =
  log_Info :: "string \<Rightarrow> (string \<times> string) list \<Rightarrow> 'w \<Rightarrow> 'w"
  log_Warn :: "string \<Rightarrow> (string \<times> string) list \<Rightarrow> 'w \<Rightarrow> 'w"
  log_Error :: "string \<Rightarrow> (string \<times> string) list \<Rightarrow> 'w \<Rightarrow> 'w"

text \<open>\<open>logging.NopLogger\<close> discards everything.\<close>

definition NopLogger :: "'w Logger" where
  "NopLogger = \<lparr>log_Info = (\<lambda>_ _ w. w), log_Warn = (\<lambda>_ _ w. w), log_Error = (\<lambda>_ _ w. w)\<rparr>"

end
