(* ===== verification/Database.thy ===== *)
theory Database
  imports Go_Context
begin

text \<open>
  \<open>internal/pkg/database\<close>: the interfaces through which the repositories reach PostgreSQL
  (\<open>Querier\<close>, \<open>Executor\<close>, \<open>QueryExecuter\<close>, \<open>TxBeginner\<close>), the transaction manager
  built on them, and the connection URL. The driver (pgx) is not part of the repository: it
  enters as records of functions on a world \<open>'w\<close>. The locale \<open>tx_provider\<close> states what the
  transaction manager relies on, the locale \<open>tx_manager\<close> what it promises to its callers.
\<close>

section \<open>Statements, arguments and rows\<close>

text \<open>
  The arguments a statement is given (\<open>args ...any\<close>) have one of four Go types in this
  program. The statement itself has the type \<open>'q\<close>: each service has its own statements.
\<close>

datatype arg = AInt goint | AUint32 uint32 | AString string | AInts "goint list"

text \<open>A returned column is known by what scanning it into a Go variable gives.\<close>

record cell =
  scan_int :: "error + goint"
  scan_uint32 :: "error + uint32"
  scan_string :: "error + string"

text \<open>
  \<open>pgx.Row\<close> is a row or a deferred error, reported by \<open>Scan\<close>. \<open>pgx.Rows\<close> is the
  list of rows that \<open>Next\<close> will deliver and what \<open>Err\<close> returns once \<open>Next\<close> has
  returned false.
\<close>

type_synonym row = "error + cell list"

record rows =
  rows_data :: "cell list list"
  rows_Err :: "error option"

definition scan_count_error :: error where
  "scan_count_error = OpaqueError ''number of field descriptions must equal number of destinations''"

fun Scan1 :: "(cell \<Rightarrow> error + 'a) \<Rightarrow> row \<Rightarrow> error + 'a" where
  "Scan1 f (Inl err) = Inl err"
| "Scan1 f (Inr [c]) = f c"
| "Scan1 f (Inr _) = Inl scan_count_error"

fun Scan2 :: "(cell \<Rightarrow> error + 'a) \<Rightarrow> (cell \<Rightarrow> error + 'b) \<Rightarrow> row \<Rightarrow> error + 'a \<times> 'b" where
  "Scan2 f g (Inl err) = Inl err"
| "Scan2 f g (Inr [c, d]) =
     (case f c of Inl err \<Rightarrow> Inl err
      | Inr x \<Rightarrow> (case g d of Inl err \<Rightarrow> Inl err | Inr y \<Rightarrow> Inr (x, y)))"
| "Scan2 f g (Inr _) = Inl scan_count_error"

fun Scan3 :: "(cell \<Rightarrow> error + 'a) \<Rightarrow> (cell \<Rightarrow> error + 'b) \<Rightarrow> (cell \<Rightarrow> error + 'c) \<Rightarrow> row \<Rightarrow>
    error + 'a \<times> 'b \<times> 'c" where
  "Scan3 f g h (Inl err) = Inl err"
| "Scan3 f g h (Inr [c, d, e]) =
     (case f c of Inl err \<Rightarrow> Inl err
      | Inr x \<Rightarrow> (case g d of Inl err \<Rightarrow> Inl err
      | Inr y \<Rightarrow> (case h e of Inl err \<Rightarrow> Inl err | Inr z \<Rightarrow> Inr (x, y, z))))"
| "Scan3 f g h (Inr _) = Inl scan_count_error"

section \<open>Interfaces\<close>

text \<open>
  \<open>RowsClose\<close> is what closing the rows of a \<open>Query\<close> does to the connection that produced them.
  pgx closes rows when \<open>Next\<close> finds no more of them, when \<open>Scan\<close> fails, and on \<open>Close\<close>; only
  the first of these has an effect, so the code's models call it once, where that happens.
\<close>

record ('q, 'w) Querier =
  QueryRow :: "go_context \<Rightarrow> 'q \<Rightarrow> arg list \<Rightarrow> 'w \<Rightarrow> row \<times> 'w"
  Query :: "go_context \<Rightarrow> 'q \<Rightarrow> arg list \<Rightarrow> 'w \<Rightarrow> (error + rows) \<times> 'w"
  RowsClose :: "rows \<Rightarrow> 'w \<Rightarrow> 'w"

text \<open>\<open>Exec\<close> returns the number of affected rows (\<open>CommandTag.RowsAffected\<close>).\<close>

record ('q, 'w) QueryExecuter = "('q, 'w) Querier" +
  Exec :: "go_context \<Rightarrow> 'q \<Rightarrow> arg list \<Rightarrow> 'w \<Rightarrow> (error + nat) \<times> 'w"

record ('q, 'w) Tx = "('q, 'w) QueryExecuter" +
  Commit :: "go_context \<Rightarrow> 'w \<Rightarrow> error option \<times> 'w"
  Rollback :: "go_context \<Rightarrow> 'w \<Rightarrow> error option \<times> 'w"

datatype iso_level = ReadUncommitted | ReadCommitted | RepeatableRead | Serializable

record TxOptions =
  IsoLevel :: iso_level

record ('q, 'w) TxBeginner =
  BeginTx :: "go_context \<Rightarrow> TxOptions \<Rightarrow> 'w \<Rightarrow> (error + ('q, 'w) Tx) \<times> 'w"

text \<open>A transaction used where the code wants a \<open>QueryExecuter\<close>.\<close>

definition tx_executer :: "('q, 'w) Tx \<Rightarrow> ('q, 'w) QueryExecuter" where
  "tx_executer tx = \<lparr>QueryRow = QueryRow tx, Query = Query tx, RowsClose = RowsClose tx, Exec = Exec tx\<rparr>"

lemma tx_executer_simps [simp]:
  "QueryRow (tx_executer tx) = QueryRow tx"
  "Query (tx_executer tx) = Query tx"
  "RowsClose (tx_executer tx) = RowsClose tx"
  "Exec (tx_executer tx) = Exec tx"
  by (simp_all add: tx_executer_def)

section \<open>Transaction manager\<close>

type_synonym ('q, 'w) TxFunc =
  "go_context \<Rightarrow> ('q, 'w) QueryExecuter \<Rightarrow> 'w \<Rightarrow> error option \<times> 'w"

record ('q, 'w) TxManager =
  WithinTransaction :: "go_context \<Rightarrow> ('q, 'w) TxFunc \<Rightarrow> 'w \<Rightarrow> error option \<times> 'w"

record ('q, 'w) DelegateTxManager =
  tm_txBeginner :: "('q, 'w) TxBeginner"
  tm_logger :: "'w Logger"

definition NewDelegateTxManager ::
  "('q, 'w) TxBeginner \<Rightarrow> 'w Logger \<Rightarrow> ('q, 'w) DelegateTxManager" where
  "NewDelegateTxManager txBeginner logger = \<lparr>tm_txBeginner = txBeginner, tm_logger = logger\<rparr>"

text \<open>The deferred call of \<open>WithinTransaction\<close>: roll back, log any error but \<open>ErrTxClosed\<close>.\<close>

definition deferred_rollback ::
  "'w Logger \<Rightarrow> ('q, 'w) Tx \<Rightarrow> go_context \<Rightarrow> 'w \<Rightarrow> 'w" where
  "deferred_rollback logger tx ctx w =
     (case Rollback tx ctx w of
        (None, w) \<Rightarrow> w
      | (Some rollErr, w) \<Rightarrow>
          if \<not> errors_Is rollErr ErrTxClosed
          then log_Error logger ''failed to rollback transaction'' [(''error'', Error rollErr)] w
          else w)"

definition DelegateTxManager_WithinTransaction ::
  "('q, 'w) DelegateTxManager \<Rightarrow> go_context \<Rightarrow> ('q, 'w) TxFunc \<Rightarrow> 'w \<Rightarrow> error option \<times> 'w" where
  "DelegateTxManager_WithinTransaction tm ctx txFn w =
     (case BeginTx (tm_txBeginner tm) ctx \<lparr>IsoLevel = ReadCommitted\<rparr> w of
        (Inl err, w) \<Rightarrow> (Some (WrapError ''failed to begin transaction'' err), w)
      | (Inr tx, w) \<Rightarrow>
          (case txFn ctx (tx_executer tx) w of
             (Some err, w) \<Rightarrow>
               (Some (WrapError ''failed to execute logic within transaction'' err),
                deferred_rollback (tm_logger tm) tx ctx w)
           | (None, w) \<Rightarrow>
               (case Commit tx ctx w of
                  (Some err, w) \<Rightarrow>
                    (Some (WrapError ''failed to commit transaction'' err),
                     deferred_rollback (tm_logger tm) tx ctx w)
                | (None, w) \<Rightarrow> (None, deferred_rollback (tm_logger tm) tx ctx w))))"

definition DelegateTxManager_TxManager ::
  "('q, 'w) DelegateTxManager \<Rightarrow> ('q, 'w) TxManager" where
  "DelegateTxManager_TxManager tm =
     \<lparr>WithinTransaction = DelegateTxManager_WithinTransaction tm\<rparr>"

text \<open>The four ways through \<open>WithinTransaction\<close>.\<close>

lemma WithinTransaction_cases [consumes 1, case_names begin_failed logic_failed commit_failed committed]:
  assumes "DelegateTxManager_WithinTransaction (NewDelegateTxManager b l) ctx txFn w = (r, w')"
  obtains e w1 where
      "BeginTx b ctx \<lparr>IsoLevel = ReadCommitted\<rparr> w = (Inl e, w1)"
      "r = Some (WrapError ''failed to begin transaction'' e)" "w' = w1"
    | tx w1 e w2 where
      "BeginTx b ctx \<lparr>IsoLevel = ReadCommitted\<rparr> w = (Inr tx, w1)"
      "txFn ctx (tx_executer tx) w1 = (Some e, w2)"
      "r = Some (WrapError ''failed to execute logic within transaction'' e)"
      "w' = deferred_rollback l tx ctx w2"
    | tx w1 w2 e w3 where
      "BeginTx b ctx \<lparr>IsoLevel = ReadCommitted\<rparr> w = (Inr tx, w1)"
      "txFn ctx (tx_executer tx) w1 = (None, w2)" "Commit tx ctx w2 = (Some e, w3)"
      "r = Some (WrapError ''failed to commit transaction'' e)"
      "w' = deferred_rollback l tx ctx w3"
    | tx w1 w2 w3 where
      "BeginTx b ctx \<lparr>IsoLevel = ReadCommitted\<rparr> w = (Inr tx, w1)"
      "txFn ctx (tx_executer tx) w1 = (None, w2)" "Commit tx ctx w2 = (None, w3)"
      "r = None" "w' = deferred_rollback l tx ctx w3"
  using assms
  by (simp add: DelegateTxManager_WithinTransaction_def NewDelegateTxManager_def
      split: prod.splits sum.splits option.splits)

lemma DelegateTxManager_WithinTransaction_eq [simp]:
  "WithinTransaction (DelegateTxManager_TxManager tm) = DelegateTxManager_WithinTransaction tm"
  by (simp add: DelegateTxManager_TxManager_def)

section \<open>Contracts\<close>

text \<open>
  What a storage shows of its world: \<open>durable\<close> is the committed state, \<open>view\<close> the state the
  open transaction works on.
\<close>

locale storage =
  fixes durable :: "'w \<Rightarrow> 'd"
    and view :: "'w \<Rightarrow> 'd"
    and tx_executor :: "('q, 'w) QueryExecuter \<Rightarrow> bool"

text \<open>
  The promise of \<open>WithinTransaction\<close>. Provided the function handed to it touches the
  database through its executor only (\<open>confined\<close>), the committed state changes in one step or
  not at all; success means that the function ran to its end on a view that started as the
  committed state; and an error tells which of the three phases failed. A failed commit is the
  one case in which the change may be durable although an error is reported.
\<close>

definition confined ::
  "('w \<Rightarrow> 'd) \<Rightarrow> (('q, 'w) QueryExecuter \<Rightarrow> bool) \<Rightarrow> (('q, 'w) QueryExecuter \<Rightarrow> 'w \<Rightarrow> 'r \<times> 'w) \<Rightarrow> bool"
  where
  "confined durable tx_executor f \<longleftrightarrow>
     (\<forall>ex w. tx_executor ex \<longrightarrow> durable (snd (f ex w)) = durable w)"

lemma confinedI:
  "(\<And>ex w. tx_executor ex \<Longrightarrow> durable (snd (f ex w)) = durable w) \<Longrightarrow> confined durable tx_executor f"
  by (simp add: confined_def)

lemma confinedD:
  "confined durable tx_executor f \<Longrightarrow> tx_executor ex \<Longrightarrow> f ex w = (r, w') \<Longrightarrow> durable w' = durable w"
  by (metis confined_def snd_conv)

locale tx_manager = storage durable view tx_executor
  for durable :: "'w \<Rightarrow> 'd"
    and view :: "'w \<Rightarrow> 'd"
    and tx_executor :: "('q, 'w) QueryExecuter \<Rightarrow> bool" +
  fixes txm :: "('q, 'w) TxManager"
  assumes tx_committed:
    "confined durable tx_executor (txFn ctx) \<Longrightarrow> WithinTransaction txm ctx txFn w = (None, w') \<Longrightarrow>
     \<exists>ex w1 w2. tx_executor ex \<and> durable w1 = durable w \<and> view w1 = durable w \<and>
       txFn ctx ex w1 = (None, w2) \<and> durable w' = view w2"
    and tx_failed:
    "confined durable tx_executor (txFn ctx) \<Longrightarrow> WithinTransaction txm ctx txFn w = (Some err, w') \<Longrightarrow>
     (\<exists>e. err = WrapError ''failed to begin transaction'' e) \<and> durable w' = durable w \<or>
     (\<exists>e ex w1 w2. err = WrapError ''failed to execute logic within transaction'' e \<and>
        tx_executor ex \<and> durable w1 = durable w \<and> view w1 = durable w \<and>
        txFn ctx ex w1 = (Some e, w2)) \<and> durable w' = durable w \<or>
     (\<exists>e ex w1 w2. err = WrapError ''failed to commit transaction'' e \<and>
        tx_executor ex \<and> durable w1 = durable w \<and> view w1 = durable w \<and>
        txFn ctx ex w1 = (None, w2) \<and> (durable w' = durable w \<or> durable w' = view w2))"

text \<open>What the transaction manager itself relies on: a beginner of transactions and a logger.\<close>

locale tx_provider =
  fixes durable :: "'w \<Rightarrow> 'd"
    and view :: "'w \<Rightarrow> 'd"
    and live :: "('q, 'w) Tx \<Rightarrow> bool"
    and beginner :: "('q, 'w) TxBeginner"
    and logger :: "'w Logger"
  assumes begin_ok:
    "BeginTx beginner ctx opts w = (Inr tx, w') \<Longrightarrow>
       live tx \<and> durable w' = durable w \<and> view w' = durable w"
    and begin_err: "BeginTx beginner ctx opts w = (Inl err, w') \<Longrightarrow> durable w' = durable w"
    and commit_ok: "live tx \<Longrightarrow> Commit tx ctx w = (None, w') \<Longrightarrow> durable w' = view w"
    and commit_err:
    "live tx \<Longrightarrow> Commit tx ctx w = (Some err, w') \<Longrightarrow> durable w' = durable w \<or> durable w' = view w"
    and rollback_durable: "live tx \<Longrightarrow> Rollback tx ctx w = (r, w') \<Longrightarrow> durable w' = durable w"
    and log_durable: "durable (log_Error logger msg args w) = durable w"
begin

definition provided_executor :: "('q, 'w) QueryExecuter \<Rightarrow> bool" where
  "provided_executor ex \<longleftrightarrow> (\<exists>tx. live tx \<and> ex = tx_executer tx)"

lemma provided_executorI: "live tx \<Longrightarrow> provided_executor (tx_executer tx)"
  by (auto simp: provided_executor_def)

lemma deferred_rollback_durable:
  "live tx \<Longrightarrow> durable (deferred_rollback logger tx ctx w) = durable w"
  by (auto simp: deferred_rollback_def log_durable dest: rollback_durable
      split: prod.splits option.splits)

abbreviation within ::
  "go_context \<Rightarrow> ('q, 'w) TxFunc \<Rightarrow> 'w \<Rightarrow> error option \<times> 'w" where
  "within \<equiv> DelegateTxManager_WithinTransaction (NewDelegateTxManager beginner logger)"

lemma within_committed:
  assumes "within ctx txFn w = (None, w')"
  shows "\<exists>ex w1 w2. provided_executor ex \<and> durable w1 = durable w \<and> view w1 = durable w \<and>
    txFn ctx ex w1 = (None, w2) \<and> durable w' = view w2"
  using assms
proof (cases rule: WithinTransaction_cases)
  case (committed tx w1 w2 w3)
  with begin_ok [OF committed(1)] show ?thesis
    by (metis provided_executorI deferred_rollback_durable commit_ok)
qed simp_all

lemma within_failed:
  assumes c: "confined durable provided_executor (txFn ctx)"
    and r: "within ctx txFn w = (Some err, w')"
  shows
    "(\<exists>e. err = WrapError ''failed to begin transaction'' e) \<and> durable w' = durable w \<or>
     (\<exists>e ex w1 w2. err = WrapError ''failed to execute logic within transaction'' e \<and>
        provided_executor ex \<and> durable w1 = durable w \<and> view w1 = durable w \<and>
        txFn ctx ex w1 = (Some e, w2)) \<and> durable w' = durable w \<or>
     (\<exists>e ex w1 w2. err = WrapError ''failed to commit transaction'' e \<and>
        provided_executor ex \<and> durable w1 = durable w \<and> view w1 = durable w \<and>
        txFn ctx ex w1 = (None, w2) \<and> (durable w' = durable w \<or> durable w' = view w2))"
  using r
proof (cases rule: WithinTransaction_cases)
  case (begin_failed e w1)
  then show ?thesis by (auto dest: begin_err)
next
  case (logic_failed tx w1 e w2)
  note tx = begin_ok [OF logic_failed(1)]
  have "durable w' = durable w"
    using tx logic_failed confinedD [OF c provided_executorI logic_failed(2)]
    by (simp add: deferred_rollback_durable)
  moreover have "err = WrapError ''failed to execute logic within transaction'' e"
    using logic_failed by simp
  ultimately show ?thesis using tx logic_failed(2) provided_executorI [of tx] by blast
next
  case (commit_failed tx w1 w2 e w3)
  note tx = begin_ok [OF commit_failed(1)]
  have "durable w2 = durable w"
    using tx confinedD [OF c provided_executorI commit_failed(2)] by simp
  then have "durable w' = durable w \<or> durable w' = view w2"
    using tx commit_failed commit_err [OF _ commit_failed(3)]
    by (simp add: deferred_rollback_durable)
  moreover have "err = WrapError ''failed to commit transaction'' e"
    using commit_failed by simp
  ultimately show ?thesis using tx commit_failed(2) provided_executorI [of tx] by blast
qed simp

end

sublocale tx_provider \<subseteq> txm: tx_manager durable view provided_executor
    "DelegateTxManager_TxManager (NewDelegateTxManager beginner logger)"
  by unfold_locales
    (unfold DelegateTxManager_WithinTransaction_eq, erule within_committed, erule (1) within_failed)

section \<open>Connection URL\<close>

record PostgresSettings =
  ps_User :: string
  ps_Password :: string
  ps_Host :: string
  ps_Port :: string
  ps_DBName :: string
  ps_SSLEnabled :: bool

definition GetURL :: "PostgresSettings \<Rightarrow> string" where
  "GetURL p =
     (let result = ''postgres://'' @ ps_User p @ '':'' @ ps_Password p @ ''@'' @ ps_Host p @ '':'' @
        ps_Port p @ ''/'' @ ps_DBName p
      in if \<not> ps_SSLEnabled p then result @ ''?sslmode=disable'' else result)"

end
