(* ===== verification/Pg_Driver.thy ===== *)
theory Pg_Driver
  imports Database
begin

text \<open>
  The database connection the contracts of \<open>Database\<close> are interpreted on: a connection pool and
  its transactions over a committed state, parametric in the statements of a service and in
  what they do (\<open>'q sql\<close>). Any call can go wrong: the schedule \<open>faults\<close> says what happens to
  the coming calls. A call can fail before it has an effect (\<open>Lost\<close>), its effect can take
  place while the answer is lost (\<open>Late\<close>), and a result can break off after some rows
  (\<open>Cut\<close>). An empty schedule is a healthy connection. Theorems about arbitrary schedules are
  theorems about arbitrary network and server failures.
\<close>

section \<open>Worlds\<close>

datatype outcome = Done | Lost string | Late string | Cut nat string

datatype 'd tx_state = TxClosed | TxOpen 'd | TxFailed

datatype log_level = LevelInfo | LevelWarn | LevelError

record 'd pg =
  durable :: 'd
  tx_state :: "'d tx_state"
  faults :: "outcome list"
  logs :: "(log_level \<times> string \<times> (string \<times> string) list) list"

text \<open>What the open transaction sees.\<close>

definition view :: "('d, 'z) pg_scheme \<Rightarrow> 'd" where
  "view w = (case tx_state w of TxOpen d \<Rightarrow> d | _ \<Rightarrow> durable w)"

definition calm :: "('d, 'z) pg_scheme \<Rightarrow> bool" where
  "calm w \<longleftrightarrow> faults w = []"

definition in_tx :: "('d, 'z) pg_scheme \<Rightarrow> bool" where
  "in_tx w \<longleftrightarrow> tx_state w = TxOpen (view w)"

definition next_outcome :: "('d, 'z) pg_scheme \<Rightarrow> outcome \<times> ('d, 'z) pg_scheme" where
  "next_outcome w = (case faults w of [] \<Rightarrow> (Done, w) | x # xs \<Rightarrow> (x, w\<lparr>faults := xs\<rparr>))"

definition write_log ::
  "log_level \<Rightarrow> string \<Rightarrow> (string \<times> string) list \<Rightarrow> ('d, 'z) pg_scheme \<Rightarrow> ('d, 'z) pg_scheme" where
  "write_log lvl msg args w = w\<lparr>logs := logs w @ [(lvl, msg, args)]\<rparr>"

definition StdoutLogger :: "('d, 'z) pg_scheme Logger" where
  "StdoutLogger = \<lparr>log_Info = write_log LevelInfo, log_Warn = write_log LevelWarn,
     log_Error = write_log LevelError\<rparr>"

section \<open>Statements\<close>

text \<open>
  \<open>run_exec\<close> gives the number of affected rows and the new state, \<open>run_query\<close> the rows and the
  new state (an \<open>INSERT ... RETURNING\<close> changes it); both can be refused by a constraint.
\<close>

record ('q, 'd) sql =
  run_exec :: "'q \<Rightarrow> arg list \<Rightarrow> 'd \<Rightarrow> error + nat \<times> 'd"
  run_query :: "'q \<Rightarrow> arg list \<Rightarrow> 'd \<Rightarrow> error + cell list list \<times> 'd"

definition context_canceled :: error where
  "context_canceled = OpaqueError ''context canceled''"

definition first_row :: "cell list list \<Rightarrow> row" where
  "first_row rs = (case rs of [] \<Rightarrow> Inl ErrNoRows | r # _ \<Rightarrow> Inr r)"

section \<open>The pool: each statement is its own transaction\<close>

definition pool_Exec ::
  "('q, 'd) sql \<Rightarrow> go_context \<Rightarrow> 'q \<Rightarrow> arg list \<Rightarrow> ('d, 'z) pg_scheme \<Rightarrow>
   (error + nat) \<times> ('d, 'z) pg_scheme" where
  "pool_Exec S ctx q args w =
     (if cancelled ctx then (Inl context_canceled, w)
      else (case next_outcome w of
        (Done, w) \<Rightarrow>
          (case run_exec S q args (durable w) of
             Inl e \<Rightarrow> (Inl e, w) | Inr (n, d) \<Rightarrow> (Inr n, w\<lparr>durable := d\<rparr>))
      | (Lost e, w) \<Rightarrow> (Inl (OpaqueError e), w)
      | (Late e, w) \<Rightarrow>
          (case run_exec S q args (durable w) of
             Inl _ \<Rightarrow> (Inl (OpaqueError e), w) | Inr (n, d) \<Rightarrow> (Inl (OpaqueError e), w\<lparr>durable := d\<rparr>))
      | (Cut _ e, w) \<Rightarrow> (Inl (OpaqueError e), w)))"

definition pool_QueryRow ::
  "('q, 'd) sql \<Rightarrow> go_context \<Rightarrow> 'q \<Rightarrow> arg list \<Rightarrow> ('d, 'z) pg_scheme \<Rightarrow>
   row \<times> ('d, 'z) pg_scheme" where
  "pool_QueryRow S ctx q args w =
     (if cancelled ctx then (Inl context_canceled, w)
      else (case next_outcome w of
        (Done, w) \<Rightarrow>
          (case run_query S q args (durable w) of
             Inl e \<Rightarrow> (Inl e, w) | Inr (rs, d) \<Rightarrow> (first_row rs, w\<lparr>durable := d\<rparr>))
      | (Lost e, w) \<Rightarrow> (Inl (OpaqueError e), w)
      | (Late e, w) \<Rightarrow>
          (case run_query S q args (durable w) of
             Inl _ \<Rightarrow> (Inl (OpaqueError e), w) | Inr (_, d) \<Rightarrow> (Inl (OpaqueError e), w\<lparr>durable := d\<rparr>))
      | (Cut _ e, w) \<Rightarrow> (Inl (OpaqueError e), w)))"

definition pool_Query ::
  "('q, 'd) sql \<Rightarrow> go_context \<Rightarrow> 'q \<Rightarrow> arg list \<Rightarrow> ('d, 'z) pg_scheme \<Rightarrow>
   (error + rows) \<times> ('d, 'z) pg_scheme" where
  "pool_Query S ctx q args w =
     (if cancelled ctx then (Inl context_canceled, w)
      else (case next_outcome w of
        (Done, w) \<Rightarrow>
          (case run_query S q args (durable w) of
             Inl e \<Rightarrow> (Inl e, w)
           | Inr (rs, d) \<Rightarrow> (Inr \<lparr>rows_data = rs, rows_Err = None\<rparr>, w\<lparr>durable := d\<rparr>))
      | (Lost e, w) \<Rightarrow> (Inl (OpaqueError e), w)
      | (Late e, w) \<Rightarrow>
          (case run_query S q args (durable w) of
             Inl _ \<Rightarrow> (Inl (OpaqueError e), w) | Inr (_, d) \<Rightarrow> (Inl (OpaqueError e), w\<lparr>durable := d\<rparr>))
      | (Cut n e, w) \<Rightarrow>
          (case run_query S q args (durable w) of
             Inl e' \<Rightarrow> (Inl e', w)
           | Inr (rs, d) \<Rightarrow>
               (Inr \<lparr>rows_data = take n rs, rows_Err = Some (OpaqueError e)\<rparr>, w\<lparr>durable := d\<rparr>))))"

definition pool :: "('q, 'd) sql \<Rightarrow> ('q, ('d, 'z) pg_scheme) QueryExecuter" where
  "pool S = \<lparr>QueryRow = pool_QueryRow S, Query = pool_Query S, RowsClose = (\<lambda>rows w. w),
     Exec = pool_Exec S\<rparr>"

lemma pool_simps [simp]:
  "QueryRow (pool S) = pool_QueryRow S" "Query (pool S) = pool_Query S"
  "RowsClose (pool S) rows w = w" "Exec (pool S) = pool_Exec S"
  by (simp_all add: pool_def)

section \<open>Transactions\<close>

text \<open>
  A statement of a transaction works on the transaction's own state. A refused or failed
  statement aborts the transaction: later statements are refused, a commit rolls back.
\<close>

definition tx_aborted :: error where
  "tx_aborted = OpaqueError ''current transaction is aborted''"

definition tx_run ::
  "('d \<Rightarrow> error + 'r \<times> 'd) \<Rightarrow> go_context \<Rightarrow> ('d, 'z) pg_scheme \<Rightarrow>
   (error + 'r) \<times> ('d, 'z) pg_scheme" where
  "tx_run stmt ctx w =
     (case tx_state w of
        TxClosed \<Rightarrow> (Inl ErrTxClosed, w)
      | TxFailed \<Rightarrow> (Inl tx_aborted, w)
      | TxOpen d \<Rightarrow>
          if cancelled ctx then (Inl context_canceled, w\<lparr>tx_state := TxFailed\<rparr>)
          else (case next_outcome w of
             (Done, w) \<Rightarrow>
               (case stmt d of
                  Inl e \<Rightarrow> (Inl e, w\<lparr>tx_state := TxFailed\<rparr>)
                | Inr (r, d') \<Rightarrow> (Inr r, w\<lparr>tx_state := TxOpen d'\<rparr>))
           | (Lost e, w) \<Rightarrow> (Inl (OpaqueError e), w\<lparr>tx_state := TxFailed\<rparr>)
           | (Late e, w) \<Rightarrow> (Inl (OpaqueError e), w\<lparr>tx_state := TxFailed\<rparr>)
           | (Cut _ e, w) \<Rightarrow> (Inl (OpaqueError e), w\<lparr>tx_state := TxFailed\<rparr>)))"

definition tx_Exec ::
  "('q, 'd) sql \<Rightarrow> go_context \<Rightarrow> 'q \<Rightarrow> arg list \<Rightarrow> ('d, 'z) pg_scheme \<Rightarrow>
   (error + nat) \<times> ('d, 'z) pg_scheme" where
  "tx_Exec S ctx q args w = tx_run (run_exec S q args) ctx w"

definition tx_QueryRow ::
  "('q, 'd) sql \<Rightarrow> go_context \<Rightarrow> 'q \<Rightarrow> arg list \<Rightarrow> ('d, 'z) pg_scheme \<Rightarrow>
   row \<times> ('d, 'z) pg_scheme" where
  "tx_QueryRow S ctx q args w =
     (case tx_run (run_query S q args) ctx w of
        (Inl e, w) \<Rightarrow> (Inl e, w) | (Inr rs, w) \<Rightarrow> (first_row rs, w))"

definition tx_Query ::
  "('q, 'd) sql \<Rightarrow> go_context \<Rightarrow> 'q \<Rightarrow> arg list \<Rightarrow> ('d, 'z) pg_scheme \<Rightarrow>
   (error + rows) \<times> ('d, 'z) pg_scheme" where
  "tx_Query S ctx q args w =
     (case tx_run (run_query S q args) ctx w of
        (Inl e, w) \<Rightarrow> (Inl e, w) | (Inr rs, w) \<Rightarrow> (Inr \<lparr>rows_data = rs, rows_Err = None\<rparr>, w))"

definition tx_Commit :: "go_context \<Rightarrow> ('d, 'z) pg_scheme \<Rightarrow> error option \<times> ('d, 'z) pg_scheme" where
  "tx_Commit ctx w =
     (case tx_state w of
        TxClosed \<Rightarrow> (Some ErrTxClosed, w)
      | TxFailed \<Rightarrow>
          (Some (OpaqueError ''commit unexpectedly resulted in rollback''), w\<lparr>tx_state := TxClosed\<rparr>)
      | TxOpen d \<Rightarrow>
          if cancelled ctx then (Some context_canceled, w\<lparr>tx_state := TxClosed\<rparr>)
          else (case next_outcome w of
             (Done, w) \<Rightarrow> (None, w\<lparr>durable := d, tx_state := TxClosed\<rparr>)
           | (Lost e, w) \<Rightarrow> (Some (OpaqueError e), w\<lparr>tx_state := TxClosed\<rparr>)
           | (Late e, w) \<Rightarrow> (Some (OpaqueError e), w\<lparr>durable := d, tx_state := TxClosed\<rparr>)
           | (Cut _ e, w) \<Rightarrow> (Some (OpaqueError e), w\<lparr>tx_state := TxClosed\<rparr>)))"

definition tx_Rollback :: "go_context \<Rightarrow> ('d, 'z) pg_scheme \<Rightarrow> error option \<times> ('d, 'z) pg_scheme" where
  "tx_Rollback ctx w =
     (case tx_state w of
        TxClosed \<Rightarrow> (Some ErrTxClosed, w)
      | _ \<Rightarrow>
          (case next_outcome w of
             (Done, w) \<Rightarrow> (None, w\<lparr>tx_state := TxClosed\<rparr>)
           | (Lost e, w) \<Rightarrow> (Some (OpaqueError e), w\<lparr>tx_state := TxClosed\<rparr>)
           | (Late e, w) \<Rightarrow> (Some (OpaqueError e), w\<lparr>tx_state := TxClosed\<rparr>)
           | (Cut _ e, w) \<Rightarrow> (Some (OpaqueError e), w\<lparr>tx_state := TxClosed\<rparr>)))"

definition pg_tx :: "('q, 'd) sql \<Rightarrow> ('q, ('d, 'z) pg_scheme) Tx" where
  "pg_tx S = \<lparr>QueryRow = tx_QueryRow S, Query = tx_Query S, RowsClose = (\<lambda>rows w. w),
     Exec = tx_Exec S, Commit = tx_Commit, Rollback = tx_Rollback\<rparr>"

lemma pg_tx_simps [simp]:
  "QueryRow (pg_tx S) = tx_QueryRow S" "Query (pg_tx S) = tx_Query S" "RowsClose (pg_tx S) rows w = w"
  "Exec (pg_tx S) = tx_Exec S"
  "Commit (pg_tx S) = tx_Commit" "Rollback (pg_tx S) = tx_Rollback"
  by (simp_all add: pg_tx_def)

definition pool_BeginTx ::
  "('q, 'd) sql \<Rightarrow> go_context \<Rightarrow> TxOptions \<Rightarrow> ('d, 'z) pg_scheme \<Rightarrow>
   (error + ('q, ('d, 'z) pg_scheme) Tx) \<times> ('d, 'z) pg_scheme" where
  "pool_BeginTx S ctx opts w =
     (if cancelled ctx then (Inl context_canceled, w)
      else (case next_outcome w of
        (Done, w) \<Rightarrow> (Inr (pg_tx S), w\<lparr>tx_state := TxOpen (durable w)\<rparr>)
      | (Lost e, w) \<Rightarrow> (Inl (OpaqueError e), w)
      | (Late e, w) \<Rightarrow> (Inl (OpaqueError e), w)
      | (Cut _ e, w) \<Rightarrow> (Inl (OpaqueError e), w)))"

definition pool_beginner :: "('q, 'd) sql \<Rightarrow> ('q, ('d, 'z) pg_scheme) TxBeginner" where
  "pool_beginner S = \<lparr>BeginTx = pool_BeginTx S\<rparr>"

section \<open>Facts shared by the proofs about the connection\<close>

named_theorems pg_defs \<open>definitions of the driver's operations\<close>

lemma BeginTx_pool [simp]: "BeginTx (pool_beginner S) = pool_BeginTx S"
  by (simp add: pool_beginner_def)

lemma log_Error_StdoutLogger [simp]:
  "log_Error StdoutLogger = write_log LevelError"
  by (simp add: StdoutLogger_def)

lemma write_log_simps [simp]:
  "durable (write_log l m a w) = durable w" "tx_state (write_log l m a w) = tx_state w"
  "faults (write_log l m a w) = faults w" "view (write_log l m a w) = view w"
  by (simp_all add: write_log_def view_def split: tx_state.split)

lemma next_outcome_keeps:
  "next_outcome w = (oc, w') \<Longrightarrow>
   durable w' = durable w \<and> tx_state w' = tx_state w \<and> logs w' = logs w \<and> view w' = view w"
  by (auto simp: next_outcome_def view_def split: list.splits tx_state.splits)

lemma next_outcome_calm [simp]: "calm w \<Longrightarrow> next_outcome w = (Done, w)"
  by (simp add: next_outcome_def calm_def)

lemma calm_updates [simp]:
  "calm (w\<lparr>durable := d\<rparr>) = calm w" "calm (w\<lparr>tx_state := t\<rparr>) = calm w"
  "calm (write_log l m a w) = calm w"
  by (simp_all add: calm_def write_log_def)

lemma view_open [simp]: "tx_state w = TxOpen d \<Longrightarrow> view w = d"
  by (simp add: view_def)

lemma view_update_open [simp]: "view (w\<lparr>tx_state := TxOpen d\<rparr>) = d"
  by (simp add: view_def)

lemma tx_run_durable: "tx_run stmt ctx w = (r, w') \<Longrightarrow> durable w' = durable w"
  by (auto simp: tx_run_def dest: next_outcome_keeps
      split: tx_state.splits if_splits prod.splits outcome.splits sum.splits)

lemma tx_run_ok:
  "tx_run stmt ctx w = (Inr r, w') \<Longrightarrow>
   \<exists>d d'. tx_state w = TxOpen d \<and> stmt d = Inr (r, d') \<and> tx_state w' = TxOpen d'"
  by (auto simp: tx_run_def dest: next_outcome_keeps
      split: tx_state.splits if_splits prod.splits outcome.splits sum.splits)

lemma tx_run_calm:
  "calm w \<Longrightarrow> \<not> cancelled ctx \<Longrightarrow> tx_state w = TxOpen d \<Longrightarrow>
   tx_run stmt ctx w =
     (case stmt d of Inl e \<Rightarrow> (Inl e, w\<lparr>tx_state := TxFailed\<rparr>)
      | Inr (r, d') \<Rightarrow> (Inr r, w\<lparr>tx_state := TxOpen d'\<rparr>))"
  by (simp add: tx_run_def)

lemma tx_Exec_durable: "tx_Exec S ctx q args w = (r, w') \<Longrightarrow> durable w' = durable w"
  by (simp add: tx_Exec_def tx_run_durable)

lemma tx_QueryRow_durable: "tx_QueryRow S ctx q args w = (r, w') \<Longrightarrow> durable w' = durable w"
  by (auto simp: tx_QueryRow_def dest: tx_run_durable split: prod.splits sum.splits)

lemma tx_Exec_ok:
  "tx_Exec S ctx q args w = (Inr n, w') \<Longrightarrow>
   \<exists>d d'. tx_state w = TxOpen d \<and> run_exec S q args d = Inr (n, d') \<and> tx_state w' = TxOpen d'"
  by (auto simp: tx_Exec_def dest: tx_run_ok)

lemma tx_QueryRow_ok:
  "tx_QueryRow S ctx q args w = (Inr r, w') \<Longrightarrow>
   \<exists>d d' rs. tx_state w = TxOpen d \<and> run_query S q args d = Inr (r # rs, d') \<and> tx_state w' = TxOpen d'"
  by (auto simp: tx_QueryRow_def first_row_def dest!: tx_run_ok
      split: prod.splits sum.splits list.splits)

section \<open>The connection provides transactions\<close>

interpretation pg: tx_provider durable view "\<lambda>tx. tx = pg_tx S" "pool_beginner S" StdoutLogger
  for S :: "('q, 'd) sql"
proof unfold_locales
  fix ctx opts w tx w'
  assume "BeginTx (pool_beginner S) ctx opts w = (Inr tx, w')"
  then show "tx = pg_tx S \<and> durable w' = durable w \<and> view w' = durable w"
    by (auto simp: pool_BeginTx_def dest: next_outcome_keeps
        split: if_splits prod.splits outcome.splits)
next
  fix ctx opts w err w'
  assume "BeginTx (pool_beginner S) ctx opts w = (Inl err, w')"
  then show "durable w' = durable w"
    by (auto simp: pool_BeginTx_def dest: next_outcome_keeps
        split: if_splits prod.splits outcome.splits)
next
  fix tx ctx w w'
  assume "tx = pg_tx S" "Commit tx ctx w = (None, w')"
  then show "durable w' = view w"
    by (auto simp: tx_Commit_def dest: next_outcome_keeps
        split: if_splits tx_state.splits prod.splits outcome.splits)
next
  fix tx ctx w err w'
  assume "tx = pg_tx S" "Commit tx ctx w = (Some err, w')"
  then show "durable w' = durable w \<or> durable w' = view w"
    by (auto simp: tx_Commit_def dest: next_outcome_keeps
        split: if_splits tx_state.splits prod.splits outcome.splits)
next
  fix tx ctx w r w'
  assume "tx = pg_tx S" "Rollback tx ctx w = (r, w')"
  then show "durable w' = durable w"
    by (auto simp: tx_Rollback_def dest: next_outcome_keeps
        split: if_splits tx_state.splits prod.splits outcome.splits)
qed simp

end
