(* ===== verification/Auth_Sql.thy ===== *)
theory Auth_Sql
  imports Pg_Driver
begin

text \<open>
  The auth service's database: the table of \<open>migrations/auth\<close> and the statements of
  \<open>internal/auth/infrastructure/postgres/users.go\<close>, with what they do under the constraints of
  the schema. Numbers of the id sequence that a refused \<open>INSERT\<close> uses up are not modelled.
\<close>

section \<open>Statements and table\<close>

datatype auth_sql = SqlCreateUser | SqlSelectUser | SqlSelectUserId | SqlSelectUsernames

fun auth_sql_text :: "auth_sql \<Rightarrow> string" where
  "auth_sql_text SqlCreateUser =
     ''INSERT INTO users (username, password_hash) VALUES ($1, $2) RETURNING id, username, password_hash''"
| "auth_sql_text SqlSelectUser = ''SELECT id, username, password_hash FROM users WHERE username = $1''"
| "auth_sql_text SqlSelectUserId = ''SELECT id FROM users WHERE username = $1''"
| "auth_sql_text SqlSelectUsernames = ''SELECT id, username FROM users WHERE id = ANY($1)''"

record user_row =
  u_id :: int
  u_name :: string
  u_hash :: string

record auth_db =
  users :: "user_row list"
  next_id :: int

definition wf_auth :: "auth_db \<Rightarrow> bool" where
  "wf_auth db \<longleftrightarrow>
     distinct (map u_id (users db)) \<and> distinct (map u_name (users db)) \<and> 1 \<le> next_id db \<and>
     (\<forall>u \<in> set (users db). 1 \<le> u_id u \<and> u_id u < next_id db \<and> int4_range (u_id u))"

definition migrated_auth_db :: auth_db where
  "migrated_auth_db = \<lparr>users = [], next_id = 1\<rparr>"

section \<open>What the statements do\<close>

text \<open>The length of a \<open>VARCHAR\<close> is in characters: the bytes that continue one do not count.\<close>

definition char_length :: "string \<Rightarrow> nat" where
  "char_length s = length (filter (\<lambda>c. of_char c < (128 :: nat) \<or> 192 \<le> (of_char c :: nat)) s)"

definition value_too_long :: error where
  "value_too_long = OpaqueError ''value too long for type character varying(50) (SQLSTATE 22001)''"

definition unique_violation :: error where
  "unique_violation = OpaqueError ''duplicate key value violates unique constraint (SQLSTATE 23505)''"

definition sequence_exhausted :: error where
  "sequence_exhausted = OpaqueError ''nextval: reached maximum value of sequence (SQLSTATE 2200H)''"

definition auth_bad_argument :: error where
  "auth_bad_argument = OpaqueError ''unable to encode argument''"

definition auth_scan_error :: error where
  "auth_scan_error = OpaqueError ''can't scan into dest''"

definition serial_cell :: "int \<Rightarrow> cell" where
  "serial_cell i = \<lparr>scan_int = Inr (word_of_int i), scan_uint32 = Inr (word_of_int i),
     scan_string = Inl auth_scan_error\<rparr>"

definition varchar_cell :: "string \<Rightarrow> cell" where
  "varchar_cell s = \<lparr>scan_int = Inl auth_scan_error, scan_uint32 = Inl auth_scan_error,
     scan_string = Inr s\<rparr>"

definition user_cells :: "user_row \<Rightarrow> cell list" where
  "user_cells u = [serial_cell (u_id u), varchar_cell (u_name u), varchar_cell (u_hash u)]"

text \<open>
  \<open>next_id\<close> is the id that the next row gets. (On a server an insert that fails uses up an id of
  the sequence too; here it leaves \<open>next_id\<close> as it is. The ids stay fresh either way.)
\<close>

definition sql_create_user ::
  "string \<Rightarrow> string \<Rightarrow> auth_db \<Rightarrow> error + cell list list \<times> auth_db" where
  "sql_create_user n h db =
     (if 50 < char_length n then Inl value_too_long
      else if list_ex (\<lambda>u. u_name u = n) (users db) then Inl unique_violation
      else if \<not> int4_range (next_id db) then Inl sequence_exhausted
      else (let u = \<lparr>u_id = next_id db, u_name = n, u_hash = h\<rparr>
            in Inr ([user_cells u], db\<lparr>users := users db @ [u], next_id := next_id db + 1\<rparr>)))"

definition auth_query ::
  "auth_sql \<Rightarrow> arg list \<Rightarrow> auth_db \<Rightarrow> error + cell list list \<times> auth_db" where
  "auth_query q args db =
     (case (q, args) of
        (SqlCreateUser, [AString n, AString h]) \<Rightarrow> sql_create_user n h db
      | (SqlSelectUser, [AString n]) \<Rightarrow>
          Inr (map user_cells (filter (\<lambda>u. u_name u = n) (users db)), db)
      | (SqlSelectUserId, [AString n]) \<Rightarrow>
          Inr (map (\<lambda>u. [serial_cell (u_id u)]) (filter (\<lambda>u. u_name u = n) (users db)), db)
      | (SqlSelectUsernames, [AInts ids]) \<Rightarrow>
          if list_all (\<lambda>i. int4_range (sint i)) ids
          then Inr (map (\<lambda>u. [serial_cell (u_id u), varchar_cell (u_name u)])
                 (filter (\<lambda>u. list_ex (\<lambda>i. sint i = u_id u) ids) (users db)), db)
          else Inl auth_bad_argument
      | _ \<Rightarrow> Inl auth_bad_argument)"

text \<open>The service only sends queries.\<close>

definition auth_sem :: "(auth_sql, auth_db) sql" where
  "auth_sem = \<lparr>run_exec = (\<lambda>_ _ _. Inl auth_bad_argument), run_query = auth_query\<rparr>"

lemma auth_sem_simps [simp]: "run_query auth_sem = auth_query"
  by (simp add: auth_sem_def)

lemma auth_query_cases:
  "auth_query SqlCreateUser [AString n, AString h] db = sql_create_user n h db"
  "auth_query SqlSelectUser [AString n] db =
     Inr (map user_cells (filter (\<lambda>u. u_name u = n) (users db)), db)"
  "auth_query SqlSelectUserId [AString n] db =
     Inr (map (\<lambda>u. [serial_cell (u_id u)]) (filter (\<lambda>u. u_name u = n) (users db)), db)"
  "auth_query SqlSelectUsernames [AInts ids] db =
     (if list_all (\<lambda>i. int4_range (sint i)) ids
      then Inr (map (\<lambda>u. [serial_cell (u_id u), varchar_cell (u_name u)])
             (filter (\<lambda>u. list_ex (\<lambda>i. sint i = u_id u) ids) (users db)), db)
      else Inl auth_bad_argument)"
  by (simp_all add: auth_query_def)

section \<open>Facts\<close>

definition find_user :: "auth_db \<Rightarrow> string \<Rightarrow> user_row option" where
  "find_user db n = find (\<lambda>u. u_name u = n) (users db)"

lemma filter_name:
  "distinct (map u_name us) \<Longrightarrow>
   filter (\<lambda>u. u_name u = n) us = (case find (\<lambda>u. u_name u = n) us of None \<Rightarrow> [] | Some u \<Rightarrow> [u])"
proof (induction us)
  case (Cons u us)
  have "n \<notin> u_name ` set us \<Longrightarrow> filter (\<lambda>u. u_name u = n) us = []" by (auto simp: filter_empty_conv)
  with Cons show ?case by auto
qed simp

lemma select_user_rows:
  "wf_auth db \<Longrightarrow>
   filter (\<lambda>u. u_name u = n) (users db) = (case find_user db n of None \<Rightarrow> [] | Some u \<Rightarrow> [u])"
  by (simp add: wf_auth_def find_user_def filter_name)

lemma find_user_SomeD:
  assumes "find_user db n = Some u"
  shows "u \<in> set (users db)" "u_name u = n"
  using assms by (auto simp: find_user_def find_Some_iff)

lemma find_user_None: "find_user db n = None \<longleftrightarrow> \<not> list_ex (\<lambda>u. u_name u = n) (users db)"
  by (auto simp: find_user_def find_None_iff list_ex_iff)

lemma find_append: "find P (xs @ ys) = (case find P xs of Some x \<Rightarrow> Some x | None \<Rightarrow> find P ys)"
  by (induction xs) auto

lemma sql_create_user_Inr:
  assumes "sql_create_user n h db = Inr (rs, db')"
  shows "find_user db n = None" "char_length n \<le> 50" "int4_range (next_id db)"
    "rs = [user_cells \<lparr>u_id = next_id db, u_name = n, u_hash = h\<rparr>]"
    "users db' = users db @ [\<lparr>u_id = next_id db, u_name = n, u_hash = h\<rparr>]"
    "next_id db' = next_id db + 1"
    "find_user db' = (find_user db)(n \<mapsto> \<lparr>u_id = next_id db, u_name = n, u_hash = h\<rparr>)"
proof -
  from assms show "find_user db n = None" "char_length n \<le> 50" "int4_range (next_id db)"
    "rs = [user_cells \<lparr>u_id = next_id db, u_name = n, u_hash = h\<rparr>]"
    and u: "users db' = users db @ [\<lparr>u_id = next_id db, u_name = n, u_hash = h\<rparr>]"
    "next_id db' = next_id db + 1"
    by (auto simp: sql_create_user_def find_user_None Let_def split: if_splits)
  then show "find_user db' = (find_user db)(n \<mapsto> \<lparr>u_id = next_id db, u_name = n, u_hash = h\<rparr>)"
    by (auto simp: find_user_def find_append fun_eq_iff split: option.splits)
qed

lemma wf_auth_create:
  assumes "wf_auth db" "sql_create_user n h db = Inr (rs, db')"
  shows "wf_auth db'"
proof -
  note c = sql_create_user_Inr [OF assms(2)]
  have "n \<notin> u_name ` set (users db)"
    using c(1) by (auto simp: find_user_None list_ex_iff)
  moreover have "next_id db \<notin> u_id ` set (users db)"
    using assms(1) by (auto simp: wf_auth_def)
  ultimately show ?thesis using assms(1) c(3,5,6) by (auto simp: wf_auth_def)
qed

lemma wf_migrated_auth_db: "wf_auth migrated_auth_db"
  by (simp add: wf_auth_def migrated_auth_db_def)

end
