(* ===== verification/Jwt.thy ===== *)
theory Jwt
  imports Go_Context
begin

text \<open>
  \<open>internal/pkg/jwt\<close>: issuing and parsing tokens. The package \<open>golang-jwt\<close> signs, verifies and
  decodes; it is a parameter (\<open>jwt_lib\<close>), and what the code relies on is the hypothesis
  \<open>jwt_lib_ok\<close>. Times are nanoseconds since the epoch, as \<open>time.Time\<close> and \<open>time.Duration\<close>
  count them.
\<close>

section \<open>Interfaces and claims\<close>

definition TokenContextKey :: string where
  "TokenContextKey = ''token-key''"

definition TokenMetadataKey :: string where
  "TokenMetadataKey = ''authorization''"

text \<open>
  The struct \<open>jwt.RegisteredClaims\<close> that \<open>Claims\<close> embeds. Its dates are pointers, absent when a
  token does not name them.
\<close>

record RegisteredClaims =
  rc_Issuer :: string
  rc_Subject :: string
  rc_Audience :: "string list"
  rc_ExpiresAt :: "int option"
  rc_NotBefore :: "int option"
  rc_IssuedAt :: "int option"
  rc_ID :: string

record Claims =
  cl_UserID :: goint
  cl_Username :: string
  cl_RegisteredClaims :: RegisteredClaims

record 'w Authenticator_iface =
  Authenticate :: "go_context \<Rightarrow> string \<Rightarrow> string \<Rightarrow> 'w \<Rightarrow> (error + string) \<times> 'w"

record TokenIssuer =
  IssueToken :: "string \<Rightarrow> goint \<Rightarrow> string \<Rightarrow> int \<Rightarrow> error + string"

record TokenParser =
  ParseToken :: "string \<Rightarrow> string \<Rightarrow> error + Claims"

section \<open>The library\<close>

text \<open>
  The signing method named in a token's header; a parsed token with its claims (absent if they
  are not of the type \<open>*Claims\<close>) and validity.
\<close>

datatype jwt_method = SigningMethodHMAC string | OtherSigningMethod string

record jwt_token =
  tok_Claims :: "Claims option"
  tok_Valid :: bool

text \<open>
  \<open>lib_sign\<close> is \<open>NewWithClaims\<close> with HS256 followed by \<open>SignedString\<close>; \<open>lib_parse\<close> is
  \<open>ParseWithClaims\<close> at a time, with the function that chooses the key; \<open>lib_unverified\<close> is what a
  token string says before anything is checked, its method and claims (\<open>ParseUnverified\<close>);
  \<open>lib_verified\<close> says that its signature checks under a method and a key.
\<close>

record jwt_lib =
  lib_NumericDate :: "int \<Rightarrow> int"
  lib_sign :: "Claims \<Rightarrow> string \<Rightarrow> error + string"
  lib_parse :: "int \<Rightarrow> string \<Rightarrow> (jwt_method \<Rightarrow> error + string) \<Rightarrow> error + jwt_token"
  lib_unverified :: "string \<Rightarrow> (jwt_method \<times> Claims option) option"
  lib_verified :: "string \<Rightarrow> jwt_method \<Rightarrow> string \<Rightarrow> bool"

text \<open>
  What the package documents: dates have a precision of one second; a token parses exactly if
  it is well formed, the key function returns a key for its method, the signature checks under
  that key, and the dates it names admit the present; a date it does not name is not required.
  What \<open>SignedString\<close> returns has the claims that were signed and checks under the key.
\<close>

definition second :: int where
  "second = 1000000000"

definition dates_admit :: "int \<Rightarrow> Claims \<Rightarrow> bool" where
  "dates_admit now c \<longleftrightarrow>
     (case rc_ExpiresAt (cl_RegisteredClaims c) of None \<Rightarrow> True | Some e \<Rightarrow> now < e * second) \<and>
     (case rc_NotBefore (cl_RegisteredClaims c) of None \<Rightarrow> True | Some n \<Rightarrow> n * second \<le> now)"

definition jwt_lib_ok :: "jwt_lib \<Rightarrow> bool" where
  "jwt_lib_ok lib \<longleftrightarrow>
     (\<forall>t. lib_NumericDate lib t = t div second) \<and>
     (\<forall>now s kf t. lib_parse lib now s kf = Inr t \<longleftrightarrow>
        (\<exists>m k. lib_unverified lib s = Some (m, tok_Claims t) \<and> kf m = Inr k \<and>
           lib_verified lib s m k \<and> tok_Valid t \<and>
           (\<forall>c. tok_Claims t = Some c \<longrightarrow> dates_admit now c))) \<and>
     (\<forall>c k s. lib_sign lib c k = Inr s \<longrightarrow>
        lib_unverified lib s = Some (SigningMethodHMAC ''HS256'', Some c) \<and>
        lib_verified lib s (SigningMethodHMAC ''HS256'') k)"

lemma jwt_lib_okD:
  assumes "jwt_lib_ok lib"
  shows "lib_NumericDate lib t = t div second"
    and "lib_parse lib now s kf = Inr tok \<longleftrightarrow>
      (\<exists>m k. lib_unverified lib s = Some (m, tok_Claims tok) \<and> kf m = Inr k \<and>
         lib_verified lib s m k \<and> tok_Valid tok \<and>
         (\<forall>c. tok_Claims tok = Some c \<longrightarrow> dates_admit now c))"
    and "lib_sign lib c k = Inr s \<Longrightarrow>
      lib_unverified lib s = Some (SigningMethodHMAC ''HS256'', Some c) \<and>
      lib_verified lib s (SigningMethodHMAC ''HS256'') k"
  using assms unfolding jwt_lib_ok_def by blast+

section \<open>Issuing and parsing\<close>

definition JWTTokenIssuer_IssueToken ::
  "jwt_lib \<Rightarrow> int \<Rightarrow> string \<Rightarrow> goint \<Rightarrow> string \<Rightarrow> int \<Rightarrow> error + string" where
  "JWTTokenIssuer_IssueToken lib now secret userID username timeLimit =
     lib_sign lib
       \<lparr>cl_UserID = userID, cl_Username = username,
        cl_RegisteredClaims =
          \<lparr>rc_Issuer = [], rc_Subject = show_int (sint userID), rc_Audience = [],
           rc_ExpiresAt = Some (lib_NumericDate lib (now + timeLimit)), rc_NotBefore = None,
           rc_IssuedAt = Some (lib_NumericDate lib now), rc_ID = []\<rparr>\<rparr> secret"

definition NewJWTTokenIssuer :: "jwt_lib \<Rightarrow> int \<Rightarrow> TokenIssuer" where
  "NewJWTTokenIssuer lib now = \<lparr>IssueToken = JWTTokenIssuer_IssueToken lib now\<rparr>"

text \<open>The function that \<open>ParseToken\<close> hands to the library: HMAC tokens only.\<close>

fun token_key :: "string \<Rightarrow> jwt_method \<Rightarrow> error + string" where
  "token_key secret (SigningMethodHMAC _) = Inr secret"
| "token_key secret (OtherSigningMethod _) = Inl ErrTokenUnverifiable"

definition JWTTokenParser_ParseToken ::
  "jwt_lib \<Rightarrow> int \<Rightarrow> string \<Rightarrow> string \<Rightarrow> error + Claims" where
  "JWTTokenParser_ParseToken lib now secret tokenString =
     (case lib_parse lib now tokenString (token_key secret) of
        Inl err \<Rightarrow> Inl err
      | Inr token \<Rightarrow>
          (case tok_Claims token of
             None \<Rightarrow> Inl ErrTokenInvalidClaims
           | Some claims \<Rightarrow>
               if \<not> tok_Valid token then Inl ErrTokenInvalidClaims else Inr claims))"

definition NewJWTTokenParser :: "jwt_lib \<Rightarrow> int \<Rightarrow> TokenParser" where
  "NewJWTTokenParser lib now = \<lparr>ParseToken = JWTTokenParser_ParseToken lib now\<rparr>"

section \<open>Properties\<close>

text \<open>What \<open>ParseToken\<close> accepts.\<close>

lemma parse_iff:
  assumes "jwt_lib_ok lib"
  shows "JWTTokenParser_ParseToken lib now secret token = Inr claims \<longleftrightarrow>
    (\<exists>alg. lib_unverified lib token = Some (SigningMethodHMAC alg, Some claims) \<and>
       lib_verified lib token (SigningMethodHMAC alg) secret) \<and> dates_admit now claims"
    (is "?l \<longleftrightarrow> ?r")
proof
  assume ?l
  then obtain t where t: "lib_parse lib now token (token_key secret) = Inr t" "tok_Claims t = Some claims"
    by (auto simp: JWTTokenParser_ParseToken_def split: sum.splits option.splits if_splits)
  with jwt_lib_okD(2) [OF assms, of now token "token_key secret" t] obtain m k where
    "lib_unverified lib token = Some (m, Some claims)" "token_key secret m = Inr k"
    "lib_verified lib token m k" "dates_admit now claims" by auto
  then show ?r by (cases m) auto
next
  assume ?r
  then have "lib_parse lib now token (token_key secret) = Inr \<lparr>tok_Claims = Some claims, tok_Valid = True\<rparr>"
    by (fastforce simp: jwt_lib_okD(2) [OF assms])
  then show ?l by (simp add: JWTTokenParser_ParseToken_def)
qed

lemma signed_parses:
  assumes "jwt_lib_ok lib" "lib_sign lib c secret = Inr token" "dates_admit now c"
  shows "JWTTokenParser_ParseToken lib now secret token = Inr c"
  using jwt_lib_okD(3) [OF assms(1,2)] assms(3) by (auto simp: parse_iff [OF assms(1)])

lemma issued_parses:
  assumes lib: "jwt_lib_ok lib"
    and issued: "JWTTokenIssuer_IssueToken lib now secret userID username timeLimit = Inr token"
    and later: "later < (now + timeLimit) div second * second"
  shows "\<exists>claims. JWTTokenParser_ParseToken lib later secret token = Inr claims \<and>
    cl_UserID claims = userID \<and> cl_Username claims = username \<and>
    rc_Subject (cl_RegisteredClaims claims) = show_int (sint userID)"
proof -
  obtain c where c: "lib_sign lib c secret = Inr token" "cl_UserID c = userID" "cl_Username c = username"
    "rc_Subject (cl_RegisteredClaims c) = show_int (sint userID)"
    "rc_ExpiresAt (cl_RegisteredClaims c) = Some (lib_NumericDate lib (now + timeLimit))"
    "rc_NotBefore (cl_RegisteredClaims c) = None"
    using issued by (auto simp: JWTTokenIssuer_IssueToken_def)
  have "dates_admit later c" using c(5,6) later by (simp add: dates_admit_def jwt_lib_okD(1) [OF lib])
  from signed_parses [OF lib c(1) this] c show ?thesis by blast
qed

text \<open>
  Round trip. A token that the issuer has signed is accepted by the parser under the same
  secret, with the same user id and name, at any time before its expiry date (the issuing time
  plus the limit, cut to full seconds).
\<close>

theorem IssueToken_ParseToken:
  assumes lib: "jwt_lib_ok lib"
    and issued: "JWTTokenIssuer_IssueToken lib now secret userID username timeLimit = Inr token"
    and later: "later < (now + timeLimit) div second * second"
  shows "\<exists>claims. JWTTokenParser_ParseToken lib later secret token = Inr claims \<and>
    cl_UserID claims = userID \<and> cl_Username claims = username \<and>
    rc_Subject (cl_RegisteredClaims claims) = show_int (sint userID)"
  by (rule issued_parses [OF assms])

lemma no_claims: "(\<And>x. r = Inr x \<Longrightarrow> False) \<Longrightarrow> \<exists>err. r = Inl err"
  by (cases r) auto

lemma other_method_rejected:
  assumes "jwt_lib_ok lib" "lib_unverified lib token = Some (OtherSigningMethod alg, c)"
  shows "\<exists>err. JWTTokenParser_ParseToken lib now secret token = Inl err"
proof (rule no_claims)
  fix claims
  assume "JWTTokenParser_ParseToken lib now secret token = Inr claims"
  from iffD1 [OF parse_iff [OF assms(1)] this] assms(2) show False by auto
qed

lemma dateless_accepted:
  assumes "jwt_lib_ok lib" "lib_sign lib c secret = Inr token"
    "rc_ExpiresAt (cl_RegisteredClaims c) = None" "rc_NotBefore (cl_RegisteredClaims c) = None"
  shows "JWTTokenParser_ParseToken lib now secret token = Inr c"
  using assms by (intro signed_parses) (simp_all add: dates_admit_def)

lemma expired_rejected:
  assumes lib: "jwt_lib_ok lib"
    and i: "JWTTokenIssuer_IssueToken lib issued secret userID username timeLimit = Inr token"
    and past: "(issued + timeLimit) div second * second \<le> now"
  shows "\<exists>err. JWTTokenParser_ParseToken lib now secret token = Inl err"
proof -
  obtain c where c: "lib_sign lib c secret = Inr token"
    "rc_ExpiresAt (cl_RegisteredClaims c) = Some (lib_NumericDate lib (issued + timeLimit))"
    using i by (auto simp: JWTTokenIssuer_IssueToken_def)
  have "\<not> dates_admit now c" using c(2) past by (simp add: dates_admit_def jwt_lib_okD(1) [OF lib])
  show ?thesis
  proof (rule no_claims)
    fix claims
    assume "JWTTokenParser_ParseToken lib now secret token = Inr claims"
    from iffD1 [OF parse_iff [OF lib] this] jwt_lib_okD(3) [OF lib c(1)] \<open>\<not> dates_admit now c\<close>
    show False by auto
  qed
qed

text \<open>
  C23. Which tokens the parser accepts, and as what. A token is accepted with exactly the claims
  it carries if it names an HMAC method and its signature checks under the secret with that very
  method; a token that names any other method is rejected, also when its signature would check
  with the secret as the key of that method. An expiry date that is named is enforced; a token
  that is signed with the secret and names neither an expiry nor a first date is accepted for
  ever, since the code does not ask for one; the tokens of \<open>IssueToken\<close> always name one, and are
  rejected from then on.
\<close>

theorem ParseToken_verified:
  assumes "jwt_lib_ok lib"
  shows "(JWTTokenParser_ParseToken lib now secret token = Inr claims \<longleftrightarrow>
      (\<exists>alg. lib_unverified lib token = Some (SigningMethodHMAC alg, Some claims) \<and>
         lib_verified lib token (SigningMethodHMAC alg) secret) \<and> dates_admit now claims) \<and>
    (\<forall>alg c. lib_unverified lib token = Some (OtherSigningMethod alg, c) \<longrightarrow>
      (\<exists>err. JWTTokenParser_ParseToken lib now secret token = Inl err)) \<and>
    (\<forall>c. lib_sign lib c secret = Inr token \<and> rc_ExpiresAt (cl_RegisteredClaims c) = None \<and>
      rc_NotBefore (cl_RegisteredClaims c) = None \<longrightarrow>
      JWTTokenParser_ParseToken lib now secret token = Inr c) \<and>
    (\<forall>issued userID username timeLimit.
      JWTTokenIssuer_IssueToken lib issued secret userID username timeLimit = Inr token \<and>
      (issued + timeLimit) div second * second \<le> now \<longrightarrow>
      (\<exists>err. JWTTokenParser_ParseToken lib now secret token = Inl err))"
  using other_method_rejected [OF assms] dateless_accepted [OF assms] expired_rejected [OF assms]
  by (intro conjI allI impI parse_iff [OF assms]) blast+

text \<open>
  A small library: a token spells out its user and its secret. It knows the claims of
  one user, for one hour after time 0, and those of a token without dates.
\<close>

definition demo_claims :: Claims where
  "demo_claims = \<lparr>cl_UserID = 1, cl_Username = ''alice'', cl_RegisteredClaims =
     \<lparr>rc_Issuer = [], rc_Subject = ''1'', rc_Audience = [], rc_ExpiresAt = Some 3600,
      rc_NotBefore = None, rc_IssuedAt = Some 0, rc_ID = []\<rparr>\<rparr>"

definition forever_claims :: Claims where
  "forever_claims = demo_claims\<lparr>cl_RegisteredClaims :=
     (cl_RegisteredClaims demo_claims)\<lparr>rc_ExpiresAt := None\<rparr>\<rparr>"

definition demo_unverified :: "string \<Rightarrow> (jwt_method \<times> Claims option) option" where
  "demo_unverified s =
     (if take 6 s = ''alice.'' then Some (SigningMethodHMAC ''HS256'', Some demo_claims)
      else if take 6 s = ''dates.'' then Some (SigningMethodHMAC ''HS256'', Some forever_claims)
      else if take 6 s = ''nosig.'' then Some (OtherSigningMethod ''none'', Some demo_claims)
      else None)"

definition demo_jwt :: jwt_lib where
  "demo_jwt =
     \<lparr>lib_NumericDate = (\<lambda>t. t div second),
      lib_sign = (\<lambda>c k. if c = demo_claims then Inr (''alice.'' @ k)
        else if c = forever_claims then Inr (''dates.'' @ k) else Inl (OpaqueError ''unsupported'')),
      lib_parse = (\<lambda>now s kf. case demo_unverified s of
         None \<Rightarrow> Inl (OpaqueError ''token is malformed'')
       | Some (m, c) \<Rightarrow> (case kf m of Inl e \<Rightarrow> Inl e
         | Inr k \<Rightarrow> if drop 6 s = k \<and> (case c of None \<Rightarrow> True | Some c \<Rightarrow> dates_admit now c)
             then Inr \<lparr>tok_Claims = c, tok_Valid = True\<rparr>
             else Inl (OpaqueError ''token is invalid''))),
      lib_unverified = demo_unverified,
      lib_verified = (\<lambda>s m k. drop 6 s = k)\<rparr>"

lemma demo_jwt_ok: "jwt_lib_ok demo_jwt"
proof -
  have "forever_claims \<noteq> demo_claims" by (simp add: forever_claims_def demo_claims_def)
  moreover have "lib_parse demo_jwt now s kf = Inr t \<longleftrightarrow>
      (\<exists>m k. lib_unverified demo_jwt s = Some (m, tok_Claims t) \<and> kf m = Inr k \<and>
         lib_verified demo_jwt s m k \<and> tok_Valid t \<and>
         (\<forall>c. tok_Claims t = Some c \<longrightarrow> dates_admit now c))" for now s kf t
    by (cases t) (auto simp: demo_jwt_def split: sum.splits option.splits)
  ultimately show ?thesis
    unfolding jwt_lib_ok_def
    by (auto simp: demo_jwt_def demo_unverified_def split: if_splits)
qed

theorem IssueToken_ParseToken_witness:
  "\<exists>claims. JWTTokenParser_ParseToken demo_jwt second ''k'' ''alice.k'' = Inr claims \<and>
    cl_UserID claims = 1"
proof -
  have "show_int 1 = ''1''" by code_simp
  then have "JWTTokenIssuer_IssueToken demo_jwt 0 ''k'' 1 ''alice'' (3600 * second) = Inr ''alice.k''"
    by (simp add: JWTTokenIssuer_IssueToken_def demo_jwt_def demo_claims_def second_def)
  from IssueToken_ParseToken [OF demo_jwt_ok this, of second] show ?thesis
    by (auto simp: second_def)
qed

theorem ParseToken_verified_witness:
  "JWTTokenParser_ParseToken demo_jwt 5 ''k'' ''alice.k'' = Inr demo_claims \<and>
   (\<exists>err. JWTTokenParser_ParseToken demo_jwt 5 ''k'' ''nosig.k'' = Inl err) \<and>
   lib_verified demo_jwt ''nosig.k'' (OtherSigningMethod ''none'') ''k'' \<and>
   (\<exists>err. JWTTokenParser_ParseToken demo_jwt (3600 * second) ''k'' ''alice.k'' = Inl err) \<and>
   JWTTokenParser_ParseToken demo_jwt (10 ^ 30) ''k'' ''dates.k'' = Inr forever_claims"
proof (intro conjI)
  note verified = ParseToken_verified [OF demo_jwt_ok]
  have "show_int 1 = ''1''" by code_simp
  then have i: "JWTTokenIssuer_IssueToken demo_jwt 0 ''k'' 1 ''alice'' (3600 * second) = Inr ''alice.k''"
    by (simp add: JWTTokenIssuer_IssueToken_def demo_jwt_def demo_claims_def second_def)
  have u: "lib_unverified demo_jwt ''alice.k'' = Some (SigningMethodHMAC ''HS256'', Some demo_claims)"
    "lib_unverified demo_jwt ''nosig.k'' = Some (OtherSigningMethod ''none'', Some demo_claims)"
    by (simp_all add: demo_jwt_def demo_unverified_def)
  have v: "lib_verified demo_jwt ''alice.k'' (SigningMethodHMAC ''HS256'') ''k''"
    "dates_admit 5 demo_claims"
    by (simp_all add: demo_jwt_def dates_admit_def demo_claims_def second_def)
  from verified [of 5 "''k''" "''alice.k''" demo_claims] u(1) v
  show "JWTTokenParser_ParseToken demo_jwt 5 ''k'' ''alice.k'' = Inr demo_claims" by blast
  from verified [of 5 "''k''" "''nosig.k''"] u(2)
  show "\<exists>err. JWTTokenParser_ParseToken demo_jwt 5 ''k'' ''nosig.k'' = Inl err" by blast
  show "lib_verified demo_jwt ''nosig.k'' (OtherSigningMethod ''none'') ''k''" by (simp add: demo_jwt_def)
  have "(0 + 3600 * second) div second * second \<le> 3600 * second" by (simp add: second_def)
  with verified [of "3600 * second" "''k''" "''alice.k''"] i
  show "\<exists>err. JWTTokenParser_ParseToken demo_jwt (3600 * second) ''k'' ''alice.k'' = Inl err" by blast
  have "forever_claims \<noteq> demo_claims" by (simp add: forever_claims_def demo_claims_def)
  then have "lib_sign demo_jwt forever_claims ''k'' = Inr ''dates.k''"
    "rc_ExpiresAt (cl_RegisteredClaims forever_claims) = None"
    "rc_NotBefore (cl_RegisteredClaims forever_claims) = None"
    by (simp_all add: demo_jwt_def forever_claims_def demo_claims_def)
  with verified [of "10 ^ 30" "''k''" "''dates.k''"]
  show "JWTTokenParser_ParseToken demo_jwt (10 ^ 30) ''k'' ''dates.k'' = Inr forever_claims" by blast
qed

end
