(* ===== verification/Merch_Api.thy ===== *)
theory Merch_Api
  imports Go_Context
begin

text \<open>
  The messages and service interfaces of \<open>api/merch/v1\<close> as the generated package
  \<open>gen/merch/v1\<close> declares them. Pointers to messages are never nil in this program except
  where the field is optional on the wire: \<open>CoinHistory\<close> of a \<open>GetUserInfoResponse\<close>.
\<close>

section \<open>Auth service\<close>

record AuthRequest =
  ar_Username :: string
  ar_Password :: string

record AuthResponse =
  ar_Token :: string

record GetUserIDRequest =
  uidq_Username :: string

record GetUserIDResponse =
  uidr_UserID :: int32

record GetUsernamesRequest =
  unq_UserIDs :: "int32 list"

record GetUsernamesResponse =
  unr_Usernames :: "(int32, string) gomap"

record 'w AuthServiceClient =
  asc_Authenticate :: "go_context \<Rightarrow> AuthRequest \<Rightarrow> 'w \<Rightarrow> (error + AuthResponse) \<times> 'w"
  asc_GetUserID :: "go_context \<Rightarrow> GetUserIDRequest \<Rightarrow> 'w \<Rightarrow> (error + GetUserIDResponse) \<times> 'w"
  asc_GetUsernames ::
    "go_context \<Rightarrow> GetUsernamesRequest \<Rightarrow> 'w \<Rightarrow> (error + GetUsernamesResponse) \<times> 'w"

section \<open>Store service\<close>

record InventoryItem =
  ii_Name :: string
  ii_Quantity :: uint32

record ReceivedCoinsInfo =
  rci_FromUsername :: string
  rci_Amount :: uint32

record SentCoinsInfo =
  sci_ToUsername :: string
  sci_Amount :: uint32

record CoinHistory =
  ch_Received :: "ReceivedCoinsInfo list"
  ch_Sent :: "SentCoinsInfo list"

record GetUserInfoResponse =
  uir_Balance :: uint32
  uir_Inventory :: "InventoryItem list"
  uir_CoinHistory :: "CoinHistory option"

record SendCoinsRequest =
  scq_ToUsername :: string
  scq_Amount :: uint32

record SendCoinsResponse =
  scr_Success :: bool

record BuyItemRequest =
  biq_ItemName :: string

record BuyItemResponse =
  bir_Success :: bool

text \<open>\<open>GetUserInfoRequest\<close> has no fields.\<close>

type_synonym GetUserInfoRequest = unit

record 'w MerchStoreServiceClient =
  msc_GetUserInfo ::
    "go_context \<Rightarrow> GetUserInfoRequest \<Rightarrow> 'w \<Rightarrow> (error + GetUserInfoResponse) \<times> 'w"
  msc_SendCoins :: "go_context \<Rightarrow> SendCoinsRequest \<Rightarrow> 'w \<Rightarrow> (error + SendCoinsResponse) \<times> 'w"
  msc_BuyItem :: "go_context \<Rightarrow> BuyItemRequest \<Rightarrow> 'w \<Rightarrow> (error + BuyItemResponse) \<times> 'w"

end
