(* ===== verification/Node.thy ===== *)
theory Node
  imports Pg_Driver
begin

text \<open>
  A node is a process with its database connection and a remote peer: a call of a remote
  service acts on the peer's state only.
\<close>

record ('d, 'r) node = "'d pg" +
  remote :: 'r

definition remote_call ::
  "('r \<Rightarrow> 'a \<times> 'r) \<Rightarrow> ('d, 'r, 'z) node_scheme \<Rightarrow> 'a \<times> ('d, 'r, 'z) node_scheme" where
  "remote_call f w = (case f (remote w) of (x, r) \<Rightarrow> (x, w\<lparr>remote := r\<rparr>))"

lemma remote_call_keeps:
  "remote_call f w = (x, w') \<Longrightarrow> durable w' = durable w \<and> tx_state w' = tx_state w \<and>
     faults w' = faults w \<and> logs w' = logs w"
  by (auto simp: remote_call_def split: prod.splits)

end
