(* ===== verification/Auth_Domain.thy ===== *)
theory Auth_Domain
  imports Auth_Sql Jwt Merch_Api Node
begin

text \<open>
  The auth service: its interfaces and data (\<open>internal/auth/domain\<close>), the users repository
  (\<open>infrastructure/postgres/users.go\<close>), the use case (\<open>application/auth_case.go\<close>) and the gRPC
  handlers (\<open>grpc/auth_service.go\<close>). The argon2id package is a parameter.
\<close>

section \<open>Interfaces and data\<close>

record UserInfo =
  usr_ID :: goint
  usr_Username :: string
  usr_PasswordHash :: string

record 'w UsersRepository =
  CreateUser :: "go_context \<Rightarrow> string \<Rightarrow> string \<Rightarrow> 'w \<Rightarrow> (error + UserInfo) \<times> 'w"
  TryGetUserInfo :: "go_context \<Rightarrow> string \<Rightarrow> 'w \<Rightarrow> (error + UserInfo option) \<times> 'w"
  GetUserID :: "go_context \<Rightarrow> string \<Rightarrow> 'w \<Rightarrow> (error + goint) \<times> 'w"
  GetUsernamesByIDs :: "go_context \<Rightarrow> goint list \<Rightarrow> 'w \<Rightarrow> (error + (goint, string) gomap) \<times> 'w"

text \<open>Hashing draws a salt, so it is an effect.\<close>

record 'w PasswordHasher =
  HashPassword :: "string \<Rightarrow> 'w \<Rightarrow> (error + string) \<times> 'w"
  VerifyPassword :: "string \<Rightarrow> string \<Rightarrow> error + bool"

section \<open>argon_hashing.go\<close>

record argon_Params =
  ap_Memory :: uint32
  ap_Iterations :: uint32
  ap_Parallelism :: "8 word"
  ap_SaltLength :: uint32
  ap_KeyLength :: uint32

definition optimizedParams :: argon_Params where
  "optimizedParams = \<lparr>ap_Memory = 19 * 1024, ap_Iterations = 2, ap_Parallelism = 1,
     ap_SaltLength = 16, ap_KeyLength = 32\<rparr>"

text \<open>The package: a state \<open>'e\<close> of the source of randomness, and the two functions used.\<close>

record 'e argon_lib =
  lib_CreateHash :: "string \<Rightarrow> argon_Params \<Rightarrow> 'e \<Rightarrow> (error + string) \<times> 'e"
  lib_ComparePasswordAndHash :: "string \<Rightarrow> string \<Rightarrow> error + bool"

text \<open>What it documents: a hash matches the password it was made from and no other.\<close>

definition argon_ok :: "'e argon_lib \<Rightarrow> bool" where
  "argon_ok lib \<longleftrightarrow>
     (\<forall>p ps e h e' p'. lib_CreateHash lib p ps e = (Inr h, e') \<longrightarrow>
        lib_ComparePasswordAndHash lib p' h = Inr (p' = p))"

record 'e ArgonPasswordHasher =
  ah_lib :: "'e argon_lib"
  ah_params :: argon_Params

definition NewArgonPasswordHasher :: "'e argon_lib \<Rightarrow> 'e ArgonPasswordHasher" where
  "NewArgonPasswordHasher lib = \<lparr>ah_lib = lib, ah_params = optimizedParams\<rparr>"

definition ArgonPasswordHasher_HashPassword ::
  "'e ArgonPasswordHasher \<Rightarrow> string \<Rightarrow> ('d, 'e) node \<Rightarrow> (error + string) \<times> ('d, 'e) node" where
  "ArgonPasswordHasher_HashPassword ph password =
     remote_call (lib_CreateHash (ah_lib ph) password (ah_params ph))"

definition ArgonPasswordHasher_VerifyPassword ::
  "'e ArgonPasswordHasher \<Rightarrow> string \<Rightarrow> string \<Rightarrow> error + bool" where
  "ArgonPasswordHasher_VerifyPassword ph password hashedPassword =
     lib_ComparePasswordAndHash (ah_lib ph) password hashedPassword"

definition ArgonPasswordHasher_PasswordHasher ::
  "'e ArgonPasswordHasher \<Rightarrow> ('d, 'e) node PasswordHasher" where
  "ArgonPasswordHasher_PasswordHasher ph =
     \<lparr>HashPassword = ArgonPasswordHasher_HashPassword ph,
      VerifyPassword = ArgonPasswordHasher_VerifyPassword ph\<rparr>"

section \<open>users.go\<close>

record 'w PgUsersRepository =
  ur_querier :: "(auth_sql, 'w) QueryExecuter"
  ur_logger :: "'w Logger"

definition NewUsersRepository ::
  "(auth_sql, 'w) QueryExecuter \<Rightarrow> 'w Logger \<Rightarrow> 'w PgUsersRepository" where
  "NewUsersRepository querier logger = \<lparr>ur_querier = querier, ur_logger = logger\<rparr>"

definition user_info :: "goint \<times> string \<times> string \<Rightarrow> UserInfo" where
  "user_info r = (case r of (i, n, h) \<Rightarrow>
     \<lparr>usr_ID = i, usr_Username = n, usr_PasswordHash = h\<rparr>)"

definition UsersRepository_CreateUser ::
  "'w PgUsersRepository \<Rightarrow> go_context \<Rightarrow> string \<Rightarrow> string \<Rightarrow> 'w \<Rightarrow> (error + UserInfo) \<times> 'w" where
  "UsersRepository_CreateUser r ctx username hashedPassword w =
     (case QueryRow (ur_querier r) ctx SqlCreateUser [AString username, AString hashedPassword] w of
        (row, w) \<Rightarrow>
          (case Scan3 scan_int scan_string scan_string row of
             Inl err \<Rightarrow> (Inl err, w)
           | Inr u \<Rightarrow> (Inr (user_info u), w)))"

definition UsersRepository_TryGetUserInfo ::
  "'w PgUsersRepository \<Rightarrow> go_context \<Rightarrow> string \<Rightarrow> 'w \<Rightarrow> (error + UserInfo option) \<times> 'w" where
  "UsersRepository_TryGetUserInfo r ctx username w =
     (case QueryRow (ur_querier r) ctx SqlSelectUser [AString username] w of (row, w) \<Rightarrow>
        (case Scan3 scan_int scan_string scan_string row of
           Inl err \<Rightarrow> if errors_Is err ErrNoRows then (Inr None, w) else (Inl err, w)
         | Inr u \<Rightarrow> (Inr (Some (user_info u)), w)))"

definition UsersRepository_GetUserID ::
  "'w PgUsersRepository \<Rightarrow> go_context \<Rightarrow> string \<Rightarrow> 'w \<Rightarrow> (error + goint) \<times> 'w" where
  "UsersRepository_GetUserID r ctx username w =
     (case QueryRow (ur_querier r) ctx SqlSelectUserId [AString username] w of (row, w) \<Rightarrow>
        (case Scan1 scan_int row of
           Inl err \<Rightarrow>
             if errors_Is err ErrNoRows then (Inl (AuthError (AuthUserNotFoundError [])), w)
             else (Inl err, w)
         | Inr userID \<Rightarrow> (Inr userID, w)))"

fun usernames_loop ::
  "cell list list \<Rightarrow> (goint, string) gomap \<Rightarrow> error + (goint, string) gomap" where
  "usernames_loop [] usernames = Inr usernames"
| "usernames_loop (r # rs) usernames =
     (case Scan2 scan_int scan_string (Inr r) of
        Inl err \<Rightarrow> Inl err
      | Inr (userId, username) \<Rightarrow> usernames_loop rs (AList.update userId username usernames))"

definition UsersRepository_GetUsernames ::
  "'w PgUsersRepository \<Rightarrow> go_context \<Rightarrow> goint list \<Rightarrow> 'w \<Rightarrow> (error + (goint, string) gomap) \<times> 'w"
  where
  "UsersRepository_GetUsernames r ctx userIDs w =
     (case Query (ur_querier r) ctx SqlSelectUsernames [AInts userIDs] w of
        (Inl err, w) \<Rightarrow> (Inl err, w)
      | (Inr rows, w) \<Rightarrow>
          (case usernames_loop (rows_data rows) [] of
             Inl err \<Rightarrow> (Inl err, RowsClose (ur_querier r) rows w)
           | Inr usernames \<Rightarrow>
               (case rows_Err rows of
                  Some err \<Rightarrow> (Inl err, RowsClose (ur_querier r) rows w)
                | None \<Rightarrow> (Inr usernames, RowsClose (ur_querier r) rows w))))"

definition PgUsersRepository_UsersRepository :: "'w PgUsersRepository \<Rightarrow> 'w UsersRepository" where
  "PgUsersRepository_UsersRepository r =
     \<lparr>CreateUser = UsersRepository_CreateUser r, TryGetUserInfo = UsersRepository_TryGetUserInfo r,
      GetUserID = UsersRepository_GetUserID r, GetUsernamesByIDs = UsersRepository_GetUsernames r\<rparr>"

section \<open>auth_case.go\<close>

text \<open>\<open>tokenTimeLimit\<close>: one hour, in nanoseconds.\<close>

definition tokenTimeLimit :: int where
  "tokenTimeLimit = 3600 * second"

record 'w Authenticator =
  ac_usersRepository :: "'w UsersRepository"
  ac_passwordHasher :: "'w PasswordHasher"
  ac_tokenIssuer :: TokenIssuer
  ac_secretKey :: string

definition NewAuthenticator ::
  "'w UsersRepository \<Rightarrow> 'w PasswordHasher \<Rightarrow> TokenIssuer \<Rightarrow> string \<Rightarrow> 'w Authenticator" where
  "NewAuthenticator usersRepository passwordHasher tokenIssuer secretKey =
     \<lparr>ac_usersRepository = usersRepository, ac_passwordHasher = passwordHasher,
      ac_tokenIssuer = tokenIssuer, ac_secretKey = secretKey\<rparr>"

definition Authenticator_Authenticate ::
  "'w Authenticator \<Rightarrow> go_context \<Rightarrow> string \<Rightarrow> string \<Rightarrow> 'w \<Rightarrow> (error + string) \<times> 'w" where
  "Authenticator_Authenticate a ctx username password w =
     (let issue = (\<lambda>userInfo w.
            (IssueToken (ac_tokenIssuer a) (ac_secretKey a) (usr_ID userInfo) (usr_Username userInfo)
               tokenTimeLimit, w))
      in (case TryGetUserInfo (ac_usersRepository a) ctx username w of
            (Inl err, w) \<Rightarrow> (Inl err, w)
          | (Inr None, w) \<Rightarrow>
              (case HashPassword (ac_passwordHasher a) password w of
                 (Inl err, w) \<Rightarrow> (Inl err, w)
               | (Inr hashedPassword, w) \<Rightarrow>
                   (case CreateUser (ac_usersRepository a) ctx username hashedPassword w of
                      (Inl err, w) \<Rightarrow> (Inl err, w)
                    | (Inr userInfo, w) \<Rightarrow> issue userInfo w))
          | (Inr (Some userInfo), w) \<Rightarrow>
              (case VerifyPassword (ac_passwordHasher a) password (usr_PasswordHash userInfo) of
                 Inl err \<Rightarrow> (Inl err, w)
               | Inr valid \<Rightarrow>
                   if \<not> valid
                   then (Inl (AuthError (CredentialsMismatchError
                           ''username or password is incorrect'')), w)
                   else issue userInfo w)))"

definition Authenticator_iface_of :: "'w Authenticator \<Rightarrow> 'w Authenticator_iface" where
  "Authenticator_iface_of a = \<lparr>Authenticate = Authenticator_Authenticate a\<rparr>"

section \<open>auth_service.go\<close>

record 'w AuthServerGRPC =
  as_authenticator :: "'w Authenticator_iface"
  as_logger :: "'w Logger"
  as_userRepository :: "'w UsersRepository"

definition NewAuthServerGRPC ::
  "'w Authenticator_iface \<Rightarrow> 'w UsersRepository \<Rightarrow> 'w Logger \<Rightarrow> 'w AuthServerGRPC" where
  "NewAuthServerGRPC authenticator userRepository logger =
     \<lparr>as_authenticator = authenticator, as_logger = logger, as_userRepository = userRepository\<rparr>"

definition AuthServerGRPC_Authenticate ::
  "'w AuthServerGRPC \<Rightarrow> go_context \<Rightarrow> AuthRequest \<Rightarrow> 'w \<Rightarrow> (error + AuthResponse) \<times> 'w" where
  "AuthServerGRPC_Authenticate s ctx req w =
     (case Authenticate (as_authenticator s) ctx (ar_Username req) (ar_Password req) w of
        (Inl err, w) \<Rightarrow>
          (let w = log_Error (as_logger s) ''failed to authenticate user'' [(''error'', Error err)] w
           in if errors_Is err (AuthError (CredentialsMismatchError []))
              then (Inl (StatusError Unauthenticated ''mismatched credentials''), w)
              else (Inl (StatusError Internal ''internal server error''), w))
      | (Inr token, w) \<Rightarrow> (Inr \<lparr>ar_Token = token\<rparr>, w))"

definition AuthServerGRPC_GetUserID ::
  "'w AuthServerGRPC \<Rightarrow> go_context \<Rightarrow> GetUserIDRequest \<Rightarrow> 'w \<Rightarrow> (error + GetUserIDResponse) \<times> 'w"
  where
  "AuthServerGRPC_GetUserID s ctx req w =
     (case GetUserID (as_userRepository s) ctx (uidq_Username req) w of
        (Inl err, w) \<Rightarrow>
          (let w = log_Error (as_logger s) ''failed to get user ID'' [(''error'', Error err)] w
           in if errors_Is err (AuthError (AuthUserNotFoundError []))
              then (Inl (StatusError NotFound ''user not found''), w)
              else (Inl (StatusError Internal ''internal server error''), w))
      | (Inr userID, w) \<Rightarrow> (Inr \<lparr>uidr_UserID = int32_of_int userID\<rparr>, w))"

text \<open>Ranging over the repository's map and filling the reply's, key by key.\<close>

fun narrow_usernames :: "(goint \<times> string) list \<Rightarrow> (int32, string) gomap \<Rightarrow> (int32, string) gomap" where
  "narrow_usernames [] usernames = usernames"
| "narrow_usernames ((userId, username) # rest) usernames =
     narrow_usernames rest (AList.update (int32_of_int userId) username usernames)"

definition AuthServerGRPC_GetUsernames ::
  "((goint \<times> string) list \<Rightarrow> (goint \<times> string) list) \<Rightarrow> 'w AuthServerGRPC \<Rightarrow> go_context \<Rightarrow>
   GetUsernamesRequest \<Rightarrow> 'w \<Rightarrow> (error + GetUsernamesResponse) \<times> 'w" where
  "AuthServerGRPC_GetUsernames rng s ctx req w =
     (let userIDs = map int_of_int32 (unq_UserIDs req)
      in (case GetUsernamesByIDs (as_userRepository s) ctx userIDs w of
            (Inl err, w) \<Rightarrow>
              (Inl (StatusError Internal ''internal server error''),
               log_Error (as_logger s) ''failed to get usernames'' [(''error'', Error err)] w)
          | (Inr usernamesMap, w) \<Rightarrow>
              (Inr \<lparr>unr_Usernames = narrow_usernames (rng usernamesMap) []\<rparr>, w)))"

end
