(* ===== verification/Store_Domain.thy ===== *)
theory Store_Domain
  imports Database
begin

text \<open>
  \<open>internal/store/domain\<close>: the data of the store service and the interfaces its use cases are
  written against. An interface is a record of its methods on a world \<open>'w\<close>; a struct that
  implements it is turned into the record where the code assigns it to the interface type.
\<close>

section \<open>Data\<close>

definition StartBalance :: uint32 where
  "StartBalance = 1000"

record GoodInfo =
  gi_Id :: goint
  gi_Name :: string
  gi_Price :: uint32

record Good =
  g_Name :: string

record MainUserInfo =
  mi_Username :: string
  mi_Balance :: uint32

record DirectTransfer =
  dt_TargetID :: goint
  dt_Amount :: uint32

record TransferHistory =
  th_IncomingTransfers :: "DirectTransfer list"
  th_OutcomingTransfers :: "DirectTransfer list"

record NamedDirectTransfer =
  ndt_TargetUsername :: string
  ndt_Amount :: uint32

record NamedTransferHistory =
  nth_IncomingTransfers :: "NamedDirectTransfer list"
  nth_OutcomingTransfers :: "NamedDirectTransfer list"

record TotalUserInfo =
  tui_Username :: string
  tui_Balance :: uint32
  tui_Goods :: "(Good, uint32) gomap"
  tui_CoinTransferHistory :: NamedTransferHistory

text \<open>The zero values of the structs, which Go variables start from.\<close>

definition zero_MainUserInfo :: MainUserInfo where
  "zero_MainUserInfo = \<lparr>mi_Username = [], mi_Balance = 0\<rparr>"

definition zero_TransferHistory :: TransferHistory where
  "zero_TransferHistory = \<lparr>th_IncomingTransfers = [], th_OutcomingTransfers = []\<rparr>"

definition zero_NamedTransferHistory :: NamedTransferHistory where
  "zero_NamedTransferHistory = \<lparr>nth_IncomingTransfers = [], nth_OutcomingTransfers = []\<rparr>"

section \<open>Interfaces\<close>

record 'w GoodsRepository =
  GetGoodInfo :: "go_context \<Rightarrow> string \<Rightarrow> 'w \<Rightarrow> (error + GoodInfo) \<times> 'w"

record ('q, 'w) TransactionProceeder =
  ProceedTransaction :: "go_context \<Rightarrow> ('q, 'w) QueryExecuter \<Rightarrow> uint32 \<Rightarrow> goint \<Rightarrow> goint \<Rightarrow>
    'w \<Rightarrow> error option \<times> 'w"

record ('q, 'w) Purchaser =
  ProcessPurchase :: "go_context \<Rightarrow> ('q, 'w) QueryExecuter \<Rightarrow> goint \<Rightarrow> GoodInfo \<Rightarrow>
    'w \<Rightarrow> error option \<times> 'w"

record 'w BalanceEnsurer =
  EnsureBalanceCreated :: "go_context \<Rightarrow> goint \<Rightarrow> uint32 \<Rightarrow> 'w \<Rightarrow> error option \<times> 'w"

record ('q, 'w) UserBalanceLocker =
  LockAndGetUserBalance :: "go_context \<Rightarrow> ('q, 'w) QueryExecuter \<Rightarrow> goint \<Rightarrow>
    'w \<Rightarrow> (error + uint32) \<times> 'w"

record 'w UserInfoRepository =
  FetchUserBalance :: "go_context \<Rightarrow> goint \<Rightarrow> 'w \<Rightarrow> (error + uint32) \<times> 'w"
  FetchUserPurchases :: "go_context \<Rightarrow> goint \<Rightarrow> 'w \<Rightarrow> (error + (Good, uint32) gomap) \<times> 'w"
  FetchUserCoinTransfers :: "go_context \<Rightarrow> goint \<Rightarrow> 'w \<Rightarrow> (error + TransferHistory) \<times> 'w"

record 'w UsernameGetter =
  GetUsername :: "go_context \<Rightarrow> goint \<Rightarrow> 'w \<Rightarrow> (error + string) \<times> 'w"
  GetUsernames :: "go_context \<Rightarrow> goint list \<Rightarrow> 'w \<Rightarrow> (error + (goint, string) gomap) \<times> 'w"

record 'w UserIDFetcher =
  FetchUserID :: "go_context \<Rightarrow> string \<Rightarrow> 'w \<Rightarrow> (error + goint) \<times> 'w"

end
