(* ===== verification/Bank_Spec.thy ===== *)
theory Bank_Spec
  imports Prelude
begin

text \<open>
  The abstract specification of the store: accounts with coin balances, a price list, and the
  two histories (purchases and transfers). Three atomic operations change it. The audit
  invariant says that every balance is explained by the histories: nothing is lost, created or
  spent twice. The detailed definitions of the store are proved to implement these operations.
\<close>

section \<open>State and operations\<close>

record bank =
  accounts :: "int \<rightharpoonup> int"
  prices :: "string \<rightharpoonup> int"
  bought :: "(int \<times> string) list"
  ledger :: "(int \<times> int \<times> int) list"

datatype refusal = NoSuchItem | NoAccount | Insufficient | SelfTransfer | TooMuch

definition start_coins :: int where
  "start_coins = 1000"

definition coin_limit :: int where
  "coin_limit = 2147483647"

definition bank_open :: "int \<Rightarrow> bank \<Rightarrow> bank" where
  "bank_open u b =
     (case accounts b u of
        None \<Rightarrow> b\<lparr>accounts := (accounts b)(u \<mapsto> start_coins)\<rparr> | Some _ \<Rightarrow> b)"

definition bank_buy :: "int \<Rightarrow> string \<Rightarrow> bank \<Rightarrow> refusal + bank" where
  "bank_buy u item b =
     (case prices b item of
        None \<Rightarrow> Inl NoSuchItem
      | Some p \<Rightarrow>
          (case accounts b u of
             None \<Rightarrow> Inl NoAccount
           | Some v \<Rightarrow>
               if v < p then Inl Insufficient
               else Inr (b\<lparr>accounts := (accounts b)(u \<mapsto> v - p), bought := bought b @ [(u, item)]\<rparr>)))"

definition bank_transfer :: "int \<Rightarrow> int \<Rightarrow> int \<Rightarrow> bank \<Rightarrow> refusal + bank" where
  "bank_transfer f t a b =
     (if f = t then Inl SelfTransfer
      else (case (accounts b f, accounts b t) of
        (Some v, Some r) \<Rightarrow>
          if v < a then Inl Insufficient
          else if r + a > coin_limit then Inl TooMuch
          else Inr (b\<lparr>accounts := (accounts b)(f \<mapsto> v - a, t \<mapsto> r + a),
                      ledger := ledger b @ [(f, t, a)]\<rparr>)
      | _ \<Rightarrow> Inl NoAccount))"

section \<open>The audit\<close>

definition price_of :: "bank \<Rightarrow> string \<Rightarrow> int" where
  "price_of b item = (case prices b item of None \<Rightarrow> 0 | Some p \<Rightarrow> p)"

definition spent :: "bank \<Rightarrow> int \<Rightarrow> int" where
  "spent b u = (\<Sum>(u', item) \<leftarrow> bought b. if u' = u then price_of b item else 0)"

definition sent :: "bank \<Rightarrow> int \<Rightarrow> int" where
  "sent b u = (\<Sum>(f, t, a) \<leftarrow> ledger b. if f = u then a else 0)"

definition received :: "bank \<Rightarrow> int \<Rightarrow> int" where
  "received b u = (\<Sum>(f, t, a) \<leftarrow> ledger b. if t = u then a else 0)"

text \<open>
  Every account holds its starting coins, plus what it received, minus what it sent and spent,
  between 0 and the limit; users without an account appear in no history.
\<close>

definition audit :: "bank \<Rightarrow> bool" where
  "audit b \<longleftrightarrow>
     (\<forall>u v. accounts b u = Some v \<longrightarrow>
        0 \<le> v \<and> v \<le> coin_limit \<and> v + spent b u + sent b u = start_coins + received b u) \<and>
     (\<forall>u. accounts b u = None \<longrightarrow> spent b u = 0 \<and> sent b u = 0 \<and> received b u = 0) \<and>
     (\<forall>item p. prices b item = Some p \<longrightarrow> 0 \<le> p)"

definition new_bank :: "(string \<rightharpoonup> int) \<Rightarrow> bank" where
  "new_bank ps = \<lparr>accounts = Map.empty, prices = ps, bought = [], ledger = []\<rparr>"

section \<open>Steps\<close>

inductive bank_step :: "bank \<Rightarrow> bank \<Rightarrow> bool" where
  step_open: "bank_step b (bank_open u b)"
| step_buy: "bank_buy u item b = Inr b' \<Longrightarrow> bank_step b b'"
| step_transfer: "0 \<le> a \<Longrightarrow> bank_transfer f t a b = Inr b' \<Longrightarrow> bank_step b b'"

inductive bank_steps :: "bank \<Rightarrow> bank \<Rightarrow> bool" where
  steps_refl: "bank_steps b b"
| steps_step: "bank_steps b b' \<Longrightarrow> bank_step b' b'' \<Longrightarrow> bank_steps b b''"

lemma bank_steps_trans: "bank_steps b' b'' \<Longrightarrow> bank_steps b b' \<Longrightarrow> bank_steps b b''"
  by (induction rule: bank_steps.induct) (auto intro: bank_steps.intros)

lemma bank_step_steps: "bank_step b b' \<Longrightarrow> bank_steps b b'"
  by (blast intro: bank_steps.intros)

lemma bank_buyE:
  assumes "bank_buy u item b = Inr b'"
  obtains p v where "prices b item = Some p" "accounts b u = Some v" "p \<le> v"
    "b' = b\<lparr>accounts := (accounts b)(u \<mapsto> v - p), bought := bought b @ [(u, item)]\<rparr>"
  using assms by (auto simp: bank_buy_def split: option.splits if_splits)

lemma bank_transferE:
  assumes "bank_transfer f t a b = Inr b'"
  obtains v r where "f \<noteq> t" "accounts b f = Some v" "accounts b t = Some r" "a \<le> v"
    "r + a \<le> coin_limit"
    "b' = b\<lparr>accounts := (accounts b)(f \<mapsto> v - a, t \<mapsto> r + a), ledger := ledger b @ [(f, t, a)]\<rparr>"
  using assms by (auto simp: bank_transfer_def split: option.splits if_splits)

lemma audit_new_bank: "(\<And>item p. ps item = Some p \<Longrightarrow> 0 \<le> p) \<Longrightarrow> audit (new_bank ps)"
  by (auto simp: audit_def new_bank_def spent_def sent_def received_def)

lemma price_of_update [simp]:
  "price_of (b\<lparr>accounts := m\<rparr>) = price_of b" "price_of (b\<lparr>bought := xs\<rparr>) = price_of b"
  "price_of (b\<lparr>ledger := ys\<rparr>) = price_of b"
  by (simp_all add: price_of_def fun_eq_iff)

lemma history_update_accounts [simp]:
  "spent (b\<lparr>accounts := m\<rparr>) = spent b" "sent (b\<lparr>accounts := m\<rparr>) = sent b"
  "received (b\<lparr>accounts := m\<rparr>) = received b"
  by (simp_all add: spent_def sent_def received_def fun_eq_iff cong: if_cong)

lemma auditD:
  assumes "audit b"
  shows "accounts b u = Some v \<Longrightarrow> 0 \<le> v"
    and "accounts b u = Some v \<Longrightarrow> v \<le> coin_limit"
    and "accounts b u = Some v \<Longrightarrow> v + spent b u + sent b u = start_coins + received b u"
    and "accounts b u = None \<Longrightarrow> spent b u = 0 \<and> sent b u = 0 \<and> received b u = 0"
    and "prices b item = Some p \<Longrightarrow> 0 \<le> p"
  using assms by (simp_all add: audit_def)

lemma audit_open: "audit b \<Longrightarrow> audit (bank_open u b)"
  by (auto simp: audit_def bank_open_def start_coins_def coin_limit_def split: option.splits)

lemma audit_buy:
  assumes "audit b" "bank_buy u item b = Inr b'"
  shows "audit b'"
  using assms(2)
proof (cases rule: bank_buyE)
  case (1 p v)
  then have "spent b' = (\<lambda>x. spent b x + (if x = u then p else 0))"
    and "sent b' = sent b" and "received b' = received b"
    by (simp_all add: spent_def sent_def received_def fun_eq_iff price_of_def [of b item] cong: if_cong)
  moreover have "v - p \<le> coin_limit"
    using 1 auditD(2) [OF assms(1), of u v] auditD(5) [OF assms(1), of item p] by linarith
  ultimately show ?thesis using 1 assms(1) auditD(3) [OF assms(1), of u v]
    by (simp add: audit_def)
qed

lemma audit_transfer:
  assumes "audit b" "bank_transfer f t a b = Inr b'" "0 \<le> a"
  shows "audit b'"
  using assms(2)
proof (cases rule: bank_transferE)
  case (1 v r)
  then have "spent b' = spent b"
    and "sent b' = (\<lambda>x. sent b x + (if x = f then a else 0))"
    and "received b' = (\<lambda>x. received b x + (if x = t then a else 0))"
    by (simp_all add: spent_def sent_def received_def fun_eq_iff cong: if_cong)
  moreover have "v - a \<le> coin_limit" "0 \<le> r + a"
    using 1 assms(3) auditD(1,2) [OF assms(1), of f v] auditD(1) [OF assms(1), of t r] by linarith+
  moreover have "v + (spent b f + sent b f) = start_coins + received b f"
    "r + (spent b t + sent b t) = start_coins + received b t"
    using 1 auditD(3) [OF assms(1), of f v] auditD(3) [OF assms(1), of t r] by simp_all
  ultimately show ?thesis using 1 assms(1) by (simp add: audit_def)
qed

lemma audit_step: "bank_step b b' \<Longrightarrow> audit b \<Longrightarrow> audit b'"
  by (induction rule: bank_step.induct) (auto intro: audit_open audit_buy audit_transfer)

lemma audit_steps: "bank_steps b b' \<Longrightarrow> audit b \<Longrightarrow> audit b'"
  by (induction rule: bank_steps.induct) (auto intro: audit_step)

text \<open>A transfer to an account that was just opened, over the audited state before it.\<close>

lemma bank_transfer_opened:
  assumes m: "bank_transfer f t a (bank_open t b) = Inr b'" and au: "audit b"
  obtains v r where "accounts b f = Some v"
    "r = (case accounts b t of None \<Rightarrow> start_coins | Some r \<Rightarrow> r)"
    "a \<le> coin_limit" "a \<le> v" "0 \<le> r" "r + a \<le> coin_limit"
    "b' = b\<lparr>accounts := (accounts b)(f \<mapsto> v - a, t \<mapsto> r + a), ledger := ledger b @ [(f, t, a)]\<rparr>"
  using m
proof (cases rule: bank_transferE)
  case (1 v r)
  note opened = auditD(1,2) [OF audit_open [OF au, of t] 1(2)] auditD(1,2) [OF audit_open [OF au, of t] 1(3)]
  have "accounts b f = Some v" using 1(1,2) by (auto simp: bank_open_def split: option.splits)
  moreover have "r = (case accounts b t of None \<Rightarrow> start_coins | Some r \<Rightarrow> r)"
    using 1(3) by (auto simp: bank_open_def split: option.splits)
  moreover have "b' = b\<lparr>accounts := (accounts b)(f \<mapsto> v - a, t \<mapsto> r + a), ledger := ledger b @ [(f, t, a)]\<rparr>"
    using 1(1,6) by (auto simp: bank_open_def fun_upd_twist split: option.splits)
  moreover have "a \<le> coin_limit" using 1(4) opened by linarith
  ultimately show thesis using that 1(4,5) opened by blast
qed

text \<open>Frame facts: no step touches the price list, closes an account or shortens a history.\<close>

lemma bank_step_frame:
  "bank_step b b' \<Longrightarrow> prices b' = prices b \<and> dom (accounts b) \<subseteq> dom (accounts b') \<and>
    (\<exists>xs. bought b' = bought b @ xs) \<and> (\<exists>ys. ledger b' = ledger b @ ys)"
  by (induction rule: bank_step.induct)
    (auto simp: bank_open_def split: option.splits elim!: bank_buyE bank_transferE)

end
