(* ===== verification/Store_Contracts.thy ===== *)
theory Store_Contracts
  imports Store_Domain Bank_Spec
begin

text \<open>
  The contracts of the store's domain interfaces, one locale per interface, in terms of the
  abstract bank. A provider shows its committed state (\<open>durable\<close>), the state its open
  transaction works on (\<open>view\<close>), which executors belong to a transaction, the bank a state
  stands for, when a state is well formed, and which good a \<open>GoodInfo\<close> describes. Nothing is
  assumed about whether a call succeeds: the laws say what a call has done when it reports
  success, and that it has done nothing to the committed state otherwise.
\<close>

locale bank_storage = storage durable view tx_executor
  for durable :: "'w \<Rightarrow> 'd"
    and view :: "'w \<Rightarrow> 'd"
    and tx_executor :: "('q, 'w) QueryExecuter \<Rightarrow> bool" +
  fixes bank :: "'d \<Rightarrow> bank"
    and wf :: "'d \<Rightarrow> bool"
    and good_is :: "'d \<Rightarrow> string \<Rightarrow> GoodInfo \<Rightarrow> bool"

text \<open>\<open>domain.GoodsRepository\<close>\<close>

locale goods_repository = bank_storage durable view tx_executor bank wf good_is
  for durable :: "'w \<Rightarrow> 'd"
    and view :: "'w \<Rightarrow> 'd"
    and tx_executor :: "('q, 'w) QueryExecuter \<Rightarrow> bool"
    and bank wf good_is +
  fixes goodsRepository :: "'w GoodsRepository"
  assumes good_durable:
    "GetGoodInfo goodsRepository ctx n w = (r, w') \<Longrightarrow> durable w' = durable w"
    and good_found:
    "wf (durable w) \<Longrightarrow> GetGoodInfo goodsRepository ctx n w = (Inr g, w') \<Longrightarrow>
     good_is (durable w) n g"

text \<open>\<open>domain.UserBalanceLocker\<close>\<close>

locale balance_locker = bank_storage durable view tx_executor bank wf good_is
  for durable :: "'w \<Rightarrow> 'd"
    and view :: "'w \<Rightarrow> 'd"
    and tx_executor :: "('q, 'w) QueryExecuter \<Rightarrow> bool"
    and bank wf good_is +
  fixes balanceLocker :: "('q, 'w) UserBalanceLocker"
  assumes lock_durable:
    "tx_executor ex \<Longrightarrow> LockAndGetUserBalance balanceLocker ctx ex u w = (r, w') \<Longrightarrow>
     durable w' = durable w"
    and locked:
    "tx_executor ex \<Longrightarrow> wf (view w) \<Longrightarrow>
     LockAndGetUserBalance balanceLocker ctx ex u w = (Inr balance, w') \<Longrightarrow>
     view w' = view w \<and> accounts (bank (view w)) (sint u) = Some (uint balance)"

text \<open>\<open>domain.Purchaser\<close>\<close>

locale purchase_processor = bank_storage durable view tx_executor bank wf good_is
  for durable :: "'w \<Rightarrow> 'd"
    and view :: "'w \<Rightarrow> 'd"
    and tx_executor :: "('q, 'w) QueryExecuter \<Rightarrow> bool"
    and bank wf good_is +
  fixes purchaser :: "('q, 'w) Purchaser"
  assumes purchase_durable:
    "tx_executor ex \<Longrightarrow> ProcessPurchase purchaser ctx ex u g w = (r, w') \<Longrightarrow>
     durable w' = durable w"
    and purchased:
    "tx_executor ex \<Longrightarrow> wf (view w) \<Longrightarrow> good_is (view w) n g \<Longrightarrow>
     accounts (bank (view w)) (sint u) = Some v \<Longrightarrow> uint (gi_Price g) \<le> v \<Longrightarrow>
     ProcessPurchase purchaser ctx ex u g w = (None, w') \<Longrightarrow>
     bank_buy (sint u) n (bank (view w)) = Inr (bank (view w')) \<and> wf (view w')"

text \<open>\<open>domain.TransactionProceeder\<close>\<close>

locale transaction_proceeder = bank_storage durable view tx_executor bank wf good_is
  for durable :: "'w \<Rightarrow> 'd"
    and view :: "'w \<Rightarrow> 'd"
    and tx_executor :: "('q, 'w) QueryExecuter \<Rightarrow> bool"
    and bank wf good_is +
  fixes transactionProceeder :: "('q, 'w) TransactionProceeder"
  assumes proceed_durable:
    "tx_executor ex \<Longrightarrow> ProceedTransaction transactionProceeder ctx ex amount f t w = (r, w') \<Longrightarrow>
     durable w' = durable w"
    and proceeded:
    "tx_executor ex \<Longrightarrow> wf (view w) \<Longrightarrow> f \<noteq> t \<Longrightarrow>
     ProceedTransaction transactionProceeder ctx ex amount f t w = (None, w') \<Longrightarrow>
     bank_transfer (sint f) (sint t) (uint amount) (bank (view w)) = Inr (bank (view w')) \<and>
     wf (view w')"

text \<open>
  \<open>domain.BalanceEnsurer\<close>: outside of any transaction, so the account may be open although an
  error is reported.
\<close>

locale balance_ensurer = bank_storage durable view tx_executor bank wf good_is
  for durable :: "'w \<Rightarrow> 'd"
    and view :: "'w \<Rightarrow> 'd"
    and tx_executor :: "('q, 'w) QueryExecuter \<Rightarrow> bool"
    and bank wf good_is +
  fixes balanceEnsurer :: "'w BalanceEnsurer"
  assumes ensured:
    "wf (durable w) \<Longrightarrow> EnsureBalanceCreated balanceEnsurer ctx u StartBalance w = (None, w') \<Longrightarrow>
     bank (durable w') = bank_open (sint u) (bank (durable w)) \<and> wf (durable w')"
    and ensure_failed:
    "wf (durable w) \<Longrightarrow> EnsureBalanceCreated balanceEnsurer ctx u StartBalance w = (Some err, w') \<Longrightarrow>
     durable w' = durable w \<or>
     bank (durable w') = bank_open (sint u) (bank (durable w)) \<and> wf (durable w')"

text \<open>\<open>domain.UserIDFetcher\<close>: a remote lookup; it does not touch the store's database.\<close>

locale user_id_fetcher =
  fixes durable :: "'w \<Rightarrow> 'd"
    and userIDFetcher :: "'w UserIDFetcher"
  assumes fetch_durable:
    "FetchUserID userIDFetcher ctx name w = (r, w') \<Longrightarrow> durable w' = durable w"

end
