(* ===== verification/Store_App.thy ===== *)
theory Store_App
  imports Store_Contracts
begin

text \<open>
  \<open>internal/store/application\<close>: the use cases \<open>BuyItem\<close> and \<open>SendCoins\<close>, and their
  correctness against the abstract bank, proved once from the contracts of the interfaces.
\<close>

section \<open>purchase_case.go\<close>

record ('q, 'w) PurchaseCase =
  pc_goodsRepository :: "'w GoodsRepository"
  pc_balanceLocker :: "('q, 'w) UserBalanceLocker"
  pc_purchaser :: "('q, 'w) Purchaser"
  pc_txManager :: "('q, 'w) TxManager"

definition NewPurchaseCase ::
  "'w GoodsRepository \<Rightarrow> ('q, 'w) UserBalanceLocker \<Rightarrow> ('q, 'w) Purchaser \<Rightarrow> ('q, 'w) TxManager \<Rightarrow>
   ('q, 'w) PurchaseCase" where
  "NewPurchaseCase goodsRepository balanceLocker purchaser txManager =
     \<lparr>pc_goodsRepository = goodsRepository, pc_balanceLocker = balanceLocker,
      pc_purchaser = purchaser, pc_txManager = txManager\<rparr>"

text \<open>The function that \<open>BuyItem\<close> hands to the transaction manager.\<close>

definition buy_item_tx ::
  "('q, 'w) PurchaseCase \<Rightarrow> goint \<Rightarrow> GoodInfo \<Rightarrow> ('q, 'w) TxFunc" where
  "buy_item_tx pc userId goodInfo ctx executor w =
     (case LockAndGetUserBalance (pc_balanceLocker pc) ctx executor userId w of
        (Inl err, w) \<Rightarrow> (Some (WrapError ''failed to lock and get user balance'' err), w)
      | (Inr balance, w) \<Rightarrow>
          if balance < gi_Price goodInfo
          then (Some (StoreError (InsufficientBalanceError ''insufficient balance'')), w)
          else
            (case ProcessPurchase (pc_purchaser pc) ctx executor userId goodInfo w of
               (Some err, w) \<Rightarrow> (Some (WrapError ''failed to process purchase'' err), w)
             | (None, w) \<Rightarrow> (None, w)))"

definition PurchaseCase_BuyItem ::
  "('q, 'w) PurchaseCase \<Rightarrow> go_context \<Rightarrow> goint \<Rightarrow> string \<Rightarrow> 'w \<Rightarrow> error option \<times> 'w" where
  "PurchaseCase_BuyItem pc ctx userId goodName w =
     (case GetGoodInfo (pc_goodsRepository pc) ctx goodName w of
        (Inl err, w) \<Rightarrow> (Some (WrapError ''failed to get good info'' err), w)
      | (Inr goodInfo, w) \<Rightarrow>
          WithinTransaction (pc_txManager pc) ctx (buy_item_tx pc userId goodInfo) w)"

section \<open>send_coins_case.go\<close>

record ('q, 'w) SendCoinsCase =
  sc_txManager :: "('q, 'w) TxManager"
  sc_userIDFetcher :: "'w UserIDFetcher"
  sc_transactionProceeder :: "('q, 'w) TransactionProceeder"
  sc_balanceLocker :: "('q, 'w) UserBalanceLocker"
  sc_balanceCreator :: "'w BalanceEnsurer"

definition NewSendCoinsCase ::
  "('q, 'w) TxManager \<Rightarrow> 'w UserIDFetcher \<Rightarrow> ('q, 'w) UserBalanceLocker \<Rightarrow> 'w BalanceEnsurer \<Rightarrow>
   ('q, 'w) TransactionProceeder \<Rightarrow> ('q, 'w) SendCoinsCase" where
  "NewSendCoinsCase txManager userIDFetcher balanceLocker balanceCreator transactionProceeder =
     \<lparr>sc_txManager = txManager, sc_userIDFetcher = userIDFetcher,
      sc_transactionProceeder = transactionProceeder, sc_balanceLocker = balanceLocker,
      sc_balanceCreator = balanceCreator\<rparr>"

definition send_coins_tx ::
  "('q, 'w) SendCoinsCase \<Rightarrow> goint \<Rightarrow> goint \<Rightarrow> uint32 \<Rightarrow> ('q, 'w) TxFunc" where
  "send_coins_tx sc fromUserID toUserID amount ctx executor w =
     (case LockAndGetUserBalance (sc_balanceLocker sc) ctx executor fromUserID w of
        (Inl err, w) \<Rightarrow>
          (Some (WrapError
             (''failed to lock and get balance for user '' @ show_int (sint fromUserID)) err), w)
      | (Inr fromUserBalance, w) \<Rightarrow>
          if fromUserBalance < amount
          then (Some (StoreError (InsufficientBalanceError
                  (''user '' @ show_int (sint fromUserID) @ '' has insufficient balance''))), w)
          else
            (case ProceedTransaction (sc_transactionProceeder sc) ctx executor amount
                    fromUserID toUserID w of
               (Some err, w) \<Rightarrow> (Some (WrapError ''failed to proceed transaction'' err), w)
             | (None, w) \<Rightarrow> (None, w)))"

definition SendCoinsCase_SendCoins ::
  "('q, 'w) SendCoinsCase \<Rightarrow> go_context \<Rightarrow> goint \<Rightarrow> string \<Rightarrow> uint32 \<Rightarrow> 'w \<Rightarrow>
   error option \<times> 'w" where
  "SendCoinsCase_SendCoins sc ctx fromUserID toUsername amount w =
     (case FetchUserID (sc_userIDFetcher sc) ctx toUsername w of
        (Inl err, w) \<Rightarrow>
          (Some (StoreError (UserNotFoundError (''user not found: '' @ toUsername))), w)
      | (Inr toUserID, w) \<Rightarrow>
          if toUserID = fromUserID
          then (Some (StoreError (InvalidArgumentsError ''from_user must differ from to_user'')), w)
          else
            (case EnsureBalanceCreated (sc_balanceCreator sc) ctx toUserID StartBalance w of
               (Some err, w) \<Rightarrow>
                 (Some (WrapError
                    (''failed to ensure balance for user '' @ show_int (sint toUserID)) err), w)
             | (None, w) \<Rightarrow>
                 WithinTransaction (sc_txManager sc) ctx
                   (send_coins_tx sc fromUserID toUserID amount) w))"

section \<open>Buying, from the contracts\<close>

text \<open>What the interfaces of the purchase case promise together.\<close>

locale purchase_ports =
  goods_repository durable view tx_executor bank wf good_is goodsRepository +
  balance_locker durable view tx_executor bank wf good_is balanceLocker +
  purchase_processor durable view tx_executor bank wf good_is purchaser +
  tx_manager durable view tx_executor txm
  for durable :: "'w \<Rightarrow> 'd"
    and view :: "'w \<Rightarrow> 'd"
    and tx_executor :: "('q, 'w) QueryExecuter \<Rightarrow> bool"
    and bank wf good_is goodsRepository balanceLocker purchaser txm +
  assumes good_price: "good_is d n g \<Longrightarrow> prices (bank d) n = Some (uint (gi_Price g))"
begin

abbreviation purchase_case :: "('q, 'w) PurchaseCase" where
  "purchase_case \<equiv> NewPurchaseCase goodsRepository balanceLocker purchaser txm"

lemma buy_item_tx_confined:
  "confined durable tx_executor (buy_item_tx purchase_case u g ctx)"
proof (rule confinedI)
  fix ex w
  assume ex: "tx_executor ex"
  show "durable (snd (buy_item_tx purchase_case u g ctx ex w)) = durable w"
    by (auto simp: buy_item_tx_def NewPurchaseCase_def dest!: lock_durable [OF ex]
        purchase_durable [OF ex] split: prod.splits sum.splits option.splits)
qed

lemma buy_item_tx_buys:
  assumes ex: "tx_executor ex" and wf: "wf (view w)" and g: "good_is (view w) n g"
    and r: "buy_item_tx purchase_case u g ctx ex w = (None, w')"
  shows "bank_buy (sint u) n (bank (view w)) = Inr (bank (view w')) \<and> wf (view w')"
proof -
  from r obtain balance w1 where
      l: "LockAndGetUserBalance balanceLocker ctx ex u w = (Inr balance, w1)"
      and le: "\<not> balance < gi_Price g"
      and p: "ProcessPurchase purchaser ctx ex u g w1 = (None, w')"
    by (auto simp: buy_item_tx_def NewPurchaseCase_def
        split: prod.splits sum.splits option.splits if_splits)
  from locked [OF ex wf l] have v: "view w1 = view w"
    and acc: "accounts (bank (view w)) (sint u) = Some (uint balance)" by auto
  have "uint (gi_Price g) \<le> uint balance"
    using le by (simp add: word_le_def [symmetric])
  with purchased [OF ex, of w1 n g u "uint balance"] wf g acc p v show ?thesis by simp
qed

lemma BuyItem_committed:
  assumes wf: "wf (durable w)"
    and r: "PurchaseCase_BuyItem purchase_case ctx u n w = (None, w')"
  shows "bank_buy (sint u) n (bank (durable w)) = Inr (bank (durable w')) \<and> wf (durable w')"
proof -
  from r obtain g w0 where g: "GetGoodInfo goodsRepository ctx n w = (Inr g, w0)"
    and t: "WithinTransaction txm ctx (buy_item_tx purchase_case u g) w0 = (None, w')"
    by (auto simp: PurchaseCase_BuyItem_def NewPurchaseCase_def split: prod.splits sum.splits)
  have d0: "durable w0 = durable w" using g by (rule good_durable)
  from tx_committed [OF buy_item_tx_confined t] obtain ex w1 w2 where
      ex: "tx_executor ex" and v1: "view w1 = durable w0"
      and f: "buy_item_tx purchase_case u g ctx ex w1 = (None, w2)" and d': "durable w' = view w2"
    by blast
  have "good_is (view w1) n g" using good_found [OF wf g] v1 d0 by simp
  with buy_item_tx_buys [OF ex _ _ f] wf v1 d0 d' show ?thesis by simp
qed

lemma BuyItem_failed:
  assumes wf: "wf (durable w)"
    and r: "PurchaseCase_BuyItem purchase_case ctx u n w = (Some err, w')"
  shows "durable w' = durable w \<or>
    (\<exists>e. err = WrapError ''failed to commit transaction'' e) \<and>
    bank_buy (sint u) n (bank (durable w)) = Inr (bank (durable w')) \<and> wf (durable w')"
proof (cases "GetGoodInfo goodsRepository ctx n w")
  case (Pair res w0)
  then have d0: "durable w0 = durable w" by (rule good_durable)
  show ?thesis
  proof (cases res)
    case (Inl e)
    with Pair r d0 show ?thesis by (simp add: PurchaseCase_BuyItem_def NewPurchaseCase_def)
  next
    case (Inr g)
    with Pair r have t: "WithinTransaction txm ctx (buy_item_tx purchase_case u g) w0 = (Some err, w')"
      by (simp add: PurchaseCase_BuyItem_def NewPurchaseCase_def)
    have g: "good_is (durable w0) n g" using good_found [OF wf] Pair Inr d0 by simp
    have buys: "bank_buy (sint u) n (bank (durable w0)) = Inr (bank (view w2)) \<and> wf (view w2)"
      if "tx_executor ex" "view w1 = durable w0" "buy_item_tx purchase_case u g ctx ex w1 = (None, w2)"
      for ex w1 w2
      using buy_item_tx_buys [OF that(1) _ _ that(3)] that(2) wf g d0 by simp
    from tx_failed [OF buy_item_tx_confined t] show ?thesis using buys d0 by metis
  qed
qed

text \<open>Whatever is reported, the bank has moved by at most one purchase.\<close>

lemma BuyItem_steps:
  assumes wf: "wf (durable w)" and r: "PurchaseCase_BuyItem purchase_case ctx u n w = (res, w')"
  shows "wf (durable w') \<and> bank_steps (bank (durable w)) (bank (durable w'))"
  using BuyItem_committed [OF wf] BuyItem_failed [OF wf] r wf
  by (cases res) (metis bank_step_steps step_buy, metis bank_step_steps step_buy steps_refl)

end

section \<open>Sending coins, from the contracts\<close>

locale transfer_ports =
  balance_locker durable view tx_executor bank wf good_is balanceLocker +
  transaction_proceeder durable view tx_executor bank wf good_is transactionProceeder +
  balance_ensurer durable view tx_executor bank wf good_is balanceEnsurer +
  user_id_fetcher durable userIDFetcher +
  tx_manager durable view tx_executor txm
  for durable :: "'w \<Rightarrow> 'd"
    and view :: "'w \<Rightarrow> 'd"
    and tx_executor :: "('q, 'w) QueryExecuter \<Rightarrow> bool"
    and bank wf good_is balanceLocker transactionProceeder balanceEnsurer userIDFetcher txm
begin

abbreviation send_coins_case :: "('q, 'w) SendCoinsCase" where
  "send_coins_case \<equiv>
     NewSendCoinsCase txm userIDFetcher balanceLocker balanceEnsurer transactionProceeder"

lemma send_coins_tx_confined:
  "confined durable tx_executor (send_coins_tx send_coins_case f t a ctx)"
proof (rule confinedI)
  fix ex w
  assume ex: "tx_executor ex"
  show "durable (snd (send_coins_tx send_coins_case f t a ctx ex w)) = durable w"
    by (auto simp: send_coins_tx_def NewSendCoinsCase_def dest!: lock_durable [OF ex]
        proceed_durable [OF ex] split: prod.splits sum.splits option.splits)
qed

lemma send_coins_tx_transfers:
  assumes ex: "tx_executor ex" and wf: "wf (view w)" and ne: "f \<noteq> t"
    and r: "send_coins_tx send_coins_case f t a ctx ex w = (None, w')"
  shows "bank_transfer (sint f) (sint t) (uint a) (bank (view w)) = Inr (bank (view w')) \<and>
    wf (view w')"
proof -
  from r obtain balance w1 where
      l: "LockAndGetUserBalance balanceLocker ctx ex f w = (Inr balance, w1)"
      and p: "ProceedTransaction transactionProceeder ctx ex a f t w1 = (None, w')"
    by (auto simp: send_coins_tx_def NewSendCoinsCase_def
        split: prod.splits sum.splits option.splits if_splits)
  from locked [OF ex wf l] proceeded [OF ex _ ne p] wf show ?thesis by simp
qed

text \<open>The successful outcome.\<close>

lemma SendCoins_committed:
  assumes wf: "wf (durable w)"
    and r: "SendCoinsCase_SendCoins send_coins_case ctx f name a w = (None, w')"
  shows "\<exists>t w0. FetchUserID userIDFetcher ctx name w = (Inr t, w0) \<and> t \<noteq> f \<and>
    bank_transfer (sint f) (sint t) (uint a) (bank_open (sint t) (bank (durable w))) =
      Inr (bank (durable w')) \<and> wf (durable w')"
proof -
  from r obtain t w0 w1 where i: "FetchUserID userIDFetcher ctx name w = (Inr t, w0)"
    and ne: "t \<noteq> f"
    and e: "EnsureBalanceCreated balanceEnsurer ctx t StartBalance w0 = (None, w1)"
    and x: "WithinTransaction txm ctx (send_coins_tx send_coins_case f t a) w1 = (None, w')"
    by (auto simp: SendCoinsCase_SendCoins_def NewSendCoinsCase_def
        split: prod.splits sum.splits option.splits if_splits)
  have d0: "durable w0 = durable w" using i by (rule fetch_durable)
  from ensured [OF _ e] wf d0 have b1: "bank (durable w1) = bank_open (sint t) (bank (durable w))"
    and wf1: "wf (durable w1)" by simp_all
  from tx_committed [OF send_coins_tx_confined x] obtain ex w2 w3 where
      ex: "tx_executor ex" and v2: "view w2 = durable w1"
      and s: "send_coins_tx send_coins_case f t a ctx ex w2 = (None, w3)"
      and d': "durable w' = view w3"
    by blast
  from send_coins_tx_transfers [OF ex _ _ s] wf1 v2 ne b1 d' i show ?thesis by auto
qed

text \<open>
  The failures: nothing happened, or only the receiver's account was opened, or the commit was
  reported to have failed although the transfer is durable.
\<close>

lemma SendCoins_failed:
  assumes wf: "wf (durable w)"
    and r: "SendCoinsCase_SendCoins send_coins_case ctx f name a w = (Some err, w')"
  shows "durable w' = durable w \<or>
    (\<exists>t w0. FetchUserID userIDFetcher ctx name w = (Inr t, w0) \<and> t \<noteq> f \<and> wf (durable w') \<and>
      (bank (durable w') = bank_open (sint t) (bank (durable w)) \<or>
       (\<exists>e. err = WrapError ''failed to commit transaction'' e) \<and>
       bank_transfer (sint f) (sint t) (uint a) (bank_open (sint t) (bank (durable w))) =
         Inr (bank (durable w'))))"
proof (cases "FetchUserID userIDFetcher ctx name w")
  case (Pair res w0)
  then have d0: "durable w0 = durable w" by (rule fetch_durable)
  show ?thesis
  proof (cases "\<exists>t. res = Inr t \<and> t \<noteq> f")
    case False
    with Pair r d0 show ?thesis
      by (auto simp: SendCoinsCase_SendCoins_def NewSendCoinsCase_def split: sum.splits if_splits)
  next
    case True
    then obtain t where t: "res = Inr t" "t \<noteq> f" by blast
    obtain er w1 where e: "EnsureBalanceCreated balanceEnsurer ctx t StartBalance w0 = (er, w1)"
      by fastforce
    show ?thesis
    proof (cases er)
      case (Some e1)
      with e t Pair r have "w' = w1"
        by (simp add: SendCoinsCase_SendCoins_def NewSendCoinsCase_def)
      with ensure_failed [OF _ e [unfolded Some]] wf d0 t Pair show ?thesis by auto
    next
      case None
      from ensured [OF _ e [unfolded None]] wf d0
      have b1: "bank (durable w1) = bank_open (sint t) (bank (durable w))"
        and wf1: "wf (durable w1)" by simp_all
      from None e t Pair r have
        x: "WithinTransaction txm ctx (send_coins_tx send_coins_case f t a) w1 = (Some err, w')"
        by (simp add: SendCoinsCase_SendCoins_def NewSendCoinsCase_def)
      have moves: "bank_transfer (sint f) (sint t) (uint a) (bank (durable w1)) =
          Inr (bank (view w3)) \<and> wf (view w3)"
        if "tx_executor ex" "view w2 = durable w1"
          "send_coins_tx send_coins_case f t a ctx ex w2 = (None, w3)" for ex w2 w3
        using send_coins_tx_transfers [OF that(1) _ _ that(3)] that(2) wf1 t by simp
      have "durable w' = durable w1 \<or> (\<exists>e. err = WrapError ''failed to commit transaction'' e) \<and>
          bank_transfer (sint f) (sint t) (uint a) (bank (durable w1)) = Inr (bank (durable w')) \<and>
          wf (durable w')"
        using tx_failed [OF send_coins_tx_confined x] moves by metis
      with b1 wf1 t Pair show ?thesis by auto
    qed
  qed
qed

lemma SendCoins_steps:
  assumes wf: "wf (durable w)"
    and r: "SendCoinsCase_SendCoins send_coins_case ctx f name a w = (res, w')"
  shows "wf (durable w') \<and> bank_steps (bank (durable w)) (bank (durable w'))"
proof -
  have both: "bank_steps b b'" if "bank_transfer x y (uint a) (bank_open y b) = Inr b'" for b b' x y
    using that by (blast intro: bank_steps.intros bank_step.intros uint_nonnegative)
  have one: "bank_steps b (bank_open y b)" for b y
    by (blast intro: bank_steps.intros bank_step.intros)
  show ?thesis
  proof (cases res)
    case None
    with SendCoins_committed [OF wf] r both show ?thesis by metis
  next
    case (Some e)
    with SendCoins_failed [OF wf] r both one wf show ?thesis by (metis steps_refl)
  qed
qed

end

end
