(* ===== verification/Store_Sql.thy ===== *)
theory Store_Sql
  imports Pg_Driver Bank_Spec
begin

text \<open>
  The store's database: the tables of \<open>migrations/store\<close> and the SQL statements that the
  repositories of \<open>internal/store/infrastructure/postgres\<close> send, each with its text and with what
  it does to the tables under the constraints of the schema (\<open>UNIQUE\<close>, \<open>CHECK\<close>, \<open>REFERENCES\<close>
  and the range of \<open>INTEGER\<close>). The surrogate keys that no statement reads are left out. The
  abstraction \<open>bank_of\<close> relates the tables to the bank of \<open>Bank_Spec\<close>.
\<close>

section \<open>Statements and their texts\<close>

datatype store_sql =
    SqlEnsureBalance | SqlLockBalance | SqlFindGood | SqlPurchaseDebit | SqlInsertPurchase
  | SqlTransferDebit | SqlTransferCredit | SqlInsertTransaction
  | SqlSelectBalance | SqlPurchaseCounts | SqlOutcoming | SqlIncoming

fun store_sql_text :: "store_sql \<Rightarrow> string" where
  "store_sql_text SqlEnsureBalance =
     ''INSERT INTO balances (user_id, balance) VALUES ($1, $2) ON CONFLICT (user_id) DO NOTHING''"
| "store_sql_text SqlLockBalance = ''SELECT balance FROM balances WHERE user_id = $1 FOR UPDATE''"
| "store_sql_text SqlFindGood = ''SELECT id, name, price FROM goods WHERE name = $1''"
| "store_sql_text SqlPurchaseDebit = ''UPDATE balances SET balance = balance - $1 WHERE user_id = $2''"
| "store_sql_text SqlInsertPurchase = ''INSERT INTO purchases (user_id, good_id) VALUES ($1, $2)''"
| "store_sql_text SqlTransferDebit =
     ''UPDATE balances SET balance = balance - $1 WHERE user_id = $2 AND balance >= $1''"
| "store_sql_text SqlTransferCredit = ''UPDATE balances SET balance = balance + $1 WHERE user_id = $2''"
| "store_sql_text SqlInsertTransaction =
     ''INSERT INTO transactions (from_user_id, to_user_id, amount) VALUES ($1, $2, $3)''"
| "store_sql_text SqlSelectBalance = ''SELECT balance FROM balances WHERE user_id = $1''"
| "store_sql_text SqlPurchaseCounts =
     ''SELECT g.name, COUNT(*) FROM purchases p JOIN goods g ON p.good_id = g.id '' @
     ''WHERE p.user_id = $1 GROUP BY g.name''"
| "store_sql_text SqlOutcoming =
     ''SELECT from_user_id, to_user_id, amount FROM transactions WHERE from_user_id = $1''"
| "store_sql_text SqlIncoming =
     ''SELECT from_user_id, to_user_id, amount FROM transactions WHERE to_user_id = $1''"

section \<open>Tables\<close>

record good_row =
  good_id :: int
  good_name :: string
  good_price :: int

record transaction_row =
  t_from :: int
  t_to :: int
  t_amount :: int

record purchase_row =
  p_user :: int
  p_good :: int

text \<open>\<open>balances\<close> is keyed by its \<open>UNIQUE\<close> column \<open>user_id\<close>.\<close>

record store_db =
  balances :: "(int \<times> int) list"
  goods :: "good_row list"
  transactions :: "transaction_row list"
  purchases :: "purchase_row list"

definition has_account :: "store_db \<Rightarrow> int \<Rightarrow> bool" where
  "has_account db u = (map_of (balances db) u \<noteq> None)"

definition has_good :: "store_db \<Rightarrow> int \<Rightarrow> bool" where
  "has_good db i = (i \<in> good_id ` set (goods db))"

text \<open>
  What the schema enforces, and that every row of the histories refers to existing rows: the
  columns of the foreign keys may be null in the schema, but no statement writes a null to them.
\<close>

definition wf_db :: "store_db \<Rightarrow> bool" where
  "wf_db db \<longleftrightarrow>
     distinct (map fst (balances db)) \<and>
     (\<forall>(u, v) \<in> set (balances db). int4_range u \<and> 0 \<le> v \<and> int4_range v) \<and>
     distinct (map good_id (goods db)) \<and> distinct (map good_name (goods db)) \<and>
     (\<forall>g \<in> set (goods db). int4_range (good_id g) \<and> int4_range (good_price g)) \<and>
     (\<forall>t \<in> set (transactions db). has_account db (t_from t) \<and> has_account db (t_to t) \<and>
        int4_range (t_amount t)) \<and>
     (\<forall>p \<in> set (purchases db). has_account db (p_user p) \<and> has_good db (p_good p))"

text \<open>The rows that the migration \<open>fill_goods\<close> inserts into the empty tables.\<close>

definition seed_goods :: "good_row list" where
  "seed_goods =
     [\<lparr>good_id = 1, good_name = ''t-shirt'', good_price = 80\<rparr>,
      \<lparr>good_id = 2, good_name = ''cup'', good_price = 20\<rparr>,
      \<lparr>good_id = 3, good_name = ''book'', good_price = 50\<rparr>,
      \<lparr>good_id = 4, good_name = ''pen'', good_price = 10\<rparr>,
      \<lparr>good_id = 5, good_name = ''powerbank'', good_price = 200\<rparr>,
      \<lparr>good_id = 6, good_name = ''hoody'', good_price = 300\<rparr>,
      \<lparr>good_id = 7, good_name = ''umbrella'', good_price = 200\<rparr>,
      \<lparr>good_id = 8, good_name = ''socks'', good_price = 10\<rparr>,
      \<lparr>good_id = 9, good_name = ''wallet'', good_price = 50\<rparr>,
      \<lparr>good_id = 10, good_name = ''pink-hoody'', good_price = 500\<rparr>]"

definition migrated_db :: store_db where
  "migrated_db = \<lparr>balances = [], goods = seed_goods, transactions = [], purchases = []\<rparr>"

section \<open>Arguments, columns and errors\<close>

text \<open>An argument bound to an \<open>INTEGER\<close> must lie in its range.\<close>

fun arg_int4 :: "arg \<Rightarrow> int option" where
  "arg_int4 (AInt i) = (if int4_range (sint i) then Some (sint i) else None)"
| "arg_int4 (AUint32 u) = (if int4_range (uint u) then Some (uint u) else None)"
| "arg_int4 _ = None"

fun args_int4 :: "arg list \<Rightarrow> int list option" where
  "args_int4 [] = Some []"
| "args_int4 (a # as) =
     (case arg_int4 a of None \<Rightarrow> None | Some i \<Rightarrow> map_option (Cons i) (args_int4 as))"

definition scan_error :: error where
  "scan_error = OpaqueError ''can't scan into dest''"

definition int_cell :: "int \<Rightarrow> cell" where
  "int_cell i = \<lparr>scan_int = Inr (word_of_int i),
     scan_uint32 = (if 0 \<le> i \<and> i < 4294967296 then Inr (word_of_int i) else Inl scan_error),
     scan_string = Inl scan_error\<rparr>"

definition text_cell :: "string \<Rightarrow> cell" where
  "text_cell s = \<lparr>scan_int = Inl scan_error, scan_uint32 = Inl scan_error, scan_string = Inr s\<rparr>"

definition check_violation :: error where
  "check_violation = OpaqueError ''violates check constraint (SQLSTATE 23514)''"

definition foreign_key_violation :: error where
  "foreign_key_violation = OpaqueError ''violates foreign key constraint (SQLSTATE 23503)''"

definition out_of_range :: error where
  "out_of_range = OpaqueError ''integer out of range (SQLSTATE 22003)''"

definition bad_argument :: error where
  "bad_argument = OpaqueError ''unable to encode argument''"

section \<open>What the statements do\<close>

definition sql_ensure_balance :: "int \<Rightarrow> int \<Rightarrow> store_db \<Rightarrow> error + nat \<times> store_db" where
  "sql_ensure_balance u v db =
     (if v < 0 then Inl check_violation
      else if has_account db u then Inr (0, db)
      else Inr (1, db\<lparr>balances := balances db @ [(u, v)]\<rparr>))"

text \<open>\<open>UPDATE balances SET balance = f(balance) WHERE user_id = u AND p(balance)\<close>.\<close>

definition sql_update_balance ::
  "int \<Rightarrow> (int \<Rightarrow> bool) \<Rightarrow> (int \<Rightarrow> int) \<Rightarrow> store_db \<Rightarrow> error + nat \<times> store_db" where
  "sql_update_balance u p f db =
     (if list_ex (\<lambda>(k, v). k = u \<and> p v \<and> \<not> int4_range (f v)) (balances db) then Inl out_of_range
      else if list_ex (\<lambda>(k, v). k = u \<and> p v \<and> f v < 0) (balances db) then Inl check_violation
      else Inr (matching_rows u p (balances db), db\<lparr>balances := update_rows u p f (balances db)\<rparr>))"

definition sql_insert_purchase :: "int \<Rightarrow> int \<Rightarrow> store_db \<Rightarrow> error + nat \<times> store_db" where
  "sql_insert_purchase u g db =
     (if has_account db u \<and> has_good db g
      then Inr (1, db\<lparr>purchases := purchases db @ [\<lparr>p_user = u, p_good = g\<rparr>]\<rparr>)
      else Inl foreign_key_violation)"

definition sql_insert_transaction :: "int \<Rightarrow> int \<Rightarrow> int \<Rightarrow> store_db \<Rightarrow> error + nat \<times> store_db" where
  "sql_insert_transaction f t a db =
     (if has_account db f \<and> has_account db t
      then Inr (1, db\<lparr>transactions := transactions db @ [\<lparr>t_from = f, t_to = t, t_amount = a\<rparr>]\<rparr>)
      else Inl foreign_key_violation)"

definition store_exec :: "store_sql \<Rightarrow> arg list \<Rightarrow> store_db \<Rightarrow> error + nat \<times> store_db" where
  "store_exec q args db =
     (case args_int4 args of
        None \<Rightarrow> Inl bad_argument
      | Some xs \<Rightarrow>
          (case q of
             SqlEnsureBalance \<Rightarrow>
               (case xs of [u, v] \<Rightarrow> sql_ensure_balance u v db | _ \<Rightarrow> Inl bad_argument)
           | SqlPurchaseDebit \<Rightarrow>
               (case xs of [a, u] \<Rightarrow> sql_update_balance u (\<lambda>_. True) (\<lambda>b. b - a) db
                | _ \<Rightarrow> Inl bad_argument)
           | SqlTransferDebit \<Rightarrow>
               (case xs of [a, u] \<Rightarrow> sql_update_balance u (\<lambda>b. a \<le> b) (\<lambda>b. b - a) db
                | _ \<Rightarrow> Inl bad_argument)
           | SqlTransferCredit \<Rightarrow>
               (case xs of [a, u] \<Rightarrow> sql_update_balance u (\<lambda>_. True) (\<lambda>b. b + a) db
                | _ \<Rightarrow> Inl bad_argument)
           | SqlInsertPurchase \<Rightarrow>
               (case xs of [u, g] \<Rightarrow> sql_insert_purchase u g db | _ \<Rightarrow> Inl bad_argument)
           | SqlInsertTransaction \<Rightarrow>
               (case xs of [f, t, a] \<Rightarrow> sql_insert_transaction f t a db | _ \<Rightarrow> Inl bad_argument)
           | _ \<Rightarrow> Inl bad_argument))"

definition sql_balance_rows :: "int \<Rightarrow> store_db \<Rightarrow> cell list list" where
  "sql_balance_rows u db = map (\<lambda>(_, v). [int_cell v]) (filter (\<lambda>(k, _). k = u) (balances db))"

definition sql_good_rows :: "string \<Rightarrow> store_db \<Rightarrow> cell list list" where
  "sql_good_rows n db =
     map (\<lambda>g. [int_cell (good_id g), text_cell (good_name g), int_cell (good_price g)])
       (filter (\<lambda>g. good_name g = n) (goods db))"

text \<open>The join of a user's purchases with the goods, and its groups with their sizes.\<close>

definition purchased_names :: "int \<Rightarrow> store_db \<Rightarrow> string list" where
  "purchased_names u db =
     concat (map (\<lambda>p. map good_name (filter (\<lambda>g. good_id g = p_good p) (goods db)))
       (filter (\<lambda>p. p_user p = u) (purchases db)))"

definition sql_purchase_counts :: "int \<Rightarrow> store_db \<Rightarrow> cell list list" where
  "sql_purchase_counts u db =
     (let names = purchased_names u db
      in map (\<lambda>n. [text_cell n, int_cell (int (count_list names n))]) (remdups names))"

definition transaction_cells :: "transaction_row \<Rightarrow> cell list" where
  "transaction_cells t = [int_cell (t_from t), int_cell (t_to t), int_cell (t_amount t)]"

definition store_query ::
  "store_sql \<Rightarrow> arg list \<Rightarrow> store_db \<Rightarrow> error + cell list list \<times> store_db" where
  "store_query q args db =
     (case q of
        SqlFindGood \<Rightarrow>
          (case args of [AString n] \<Rightarrow> Inr (sql_good_rows n db, db) | _ \<Rightarrow> Inl bad_argument)
      | _ \<Rightarrow>
          (case args_int4 args of
             Some [u] \<Rightarrow>
               (case q of
                  SqlLockBalance \<Rightarrow> Inr (sql_balance_rows u db, db)
                | SqlSelectBalance \<Rightarrow> Inr (sql_balance_rows u db, db)
                | SqlPurchaseCounts \<Rightarrow> Inr (sql_purchase_counts u db, db)
                | SqlOutcoming \<Rightarrow>
                    Inr (map transaction_cells (filter (\<lambda>t. t_from t = u) (transactions db)), db)
                | SqlIncoming \<Rightarrow>
                    Inr (map transaction_cells (filter (\<lambda>t. t_to t = u) (transactions db)), db)
                | _ \<Rightarrow> Inl bad_argument)
           | _ \<Rightarrow> Inl bad_argument))"

definition store_sem :: "(store_sql, store_db) sql" where
  "store_sem = \<lparr>run_exec = store_exec, run_query = store_query\<rparr>"

lemma store_sem_simps [simp]: "run_exec store_sem = store_exec" "run_query store_sem = store_query"
  by (simp_all add: store_sem_def)

section \<open>Abstraction\<close>

definition good_name_of :: "store_db \<Rightarrow> int \<Rightarrow> string" where
  "good_name_of db i =
     (case find (\<lambda>g. good_id g = i) (goods db) of None \<Rightarrow> [] | Some g \<Rightarrow> good_name g)"

definition bank_of :: "store_db \<Rightarrow> bank" where
  "bank_of db =
     \<lparr>accounts = map_of (balances db),
      prices = map_of (map (\<lambda>g. (good_name g, good_price g)) (goods db)),
      bought = map (\<lambda>p. (p_user p, good_name_of db (p_good p))) (purchases db),
      ledger = map (\<lambda>t. (t_from t, t_to t, t_amount t)) (transactions db)\<rparr>"

end
