(* ===== verification/Store_Postgres.thy ===== *)
theory Store_Postgres
  imports Store_Domain Store_Sql
begin

text \<open>
  \<open>internal/store/infrastructure/postgres\<close>: the repositories, written against the database
  interfaces only. Each function passes the world through its calls and turns the errors of the
  driver into domain errors the way the source does.
\<close>

section \<open>balances_repository.go\<close>

record 'w BalancesRepository =
  br_executor :: "(store_sql, 'w) QueryExecuter"

definition NewBalancesRepository :: "(store_sql, 'w) QueryExecuter \<Rightarrow> 'w BalancesRepository" where
  "NewBalancesRepository executor = \<lparr>br_executor = executor\<rparr>"

definition BalancesRepository_EnsureBalanceCreated ::
  "'w BalancesRepository \<Rightarrow> go_context \<Rightarrow> goint \<Rightarrow> uint32 \<Rightarrow> 'w \<Rightarrow> error option \<times> 'w" where
  "BalancesRepository_EnsureBalanceCreated br ctx userId startValue w =
     (case Exec (br_executor br) ctx SqlEnsureBalance [AInt userId, AUint32 startValue] w of
        (Inl err, w) \<Rightarrow> (Some err, w)
      | (Inr _, w) \<Rightarrow> (None, w))"

definition BalancesRepository_LockAndGetUserBalance ::
  "'w BalancesRepository \<Rightarrow> go_context \<Rightarrow> (store_sql, 'w) QueryExecuter \<Rightarrow> goint \<Rightarrow> 'w \<Rightarrow>
   (error + uint32) \<times> 'w" where
  "BalancesRepository_LockAndGetUserBalance br ctx querier userId w =
     (case QueryRow querier ctx SqlLockBalance [AInt userId] w of (row, w) \<Rightarrow>
        (case Scan1 scan_uint32 row of
           Inl err \<Rightarrow>
             if errors_Is err ErrNoRows
             then (Inl (StoreError (UserNotFoundError
                     (''user with id '' @ show_int (sint userId) @ '' not found''))), w)
             else (Inl (WrapError ''failed to lock user row'' err), w)
         | Inr balance \<Rightarrow> (Inr balance, w)))"

definition BalancesRepository_BalanceEnsurer :: "'w BalancesRepository \<Rightarrow> 'w BalanceEnsurer" where
  "BalancesRepository_BalanceEnsurer br =
     \<lparr>EnsureBalanceCreated = BalancesRepository_EnsureBalanceCreated br\<rparr>"

definition BalancesRepository_UserBalanceLocker ::
  "'w BalancesRepository \<Rightarrow> (store_sql, 'w) UserBalanceLocker" where
  "BalancesRepository_UserBalanceLocker br =
     \<lparr>LockAndGetUserBalance = BalancesRepository_LockAndGetUserBalance br\<rparr>"

section \<open>goods_repository.go\<close>

record 'w PgGoodsRepository =
  gr_querier :: "(store_sql, 'w) QueryExecuter"

definition NewGoodsRepository :: "(store_sql, 'w) QueryExecuter \<Rightarrow> 'w PgGoodsRepository" where
  "NewGoodsRepository querier = \<lparr>gr_querier = querier\<rparr>"

definition GoodsRepository_GetGoodInfo ::
  "'w PgGoodsRepository \<Rightarrow> go_context \<Rightarrow> string \<Rightarrow> 'w \<Rightarrow> (error + GoodInfo) \<times> 'w" where
  "GoodsRepository_GetGoodInfo gr ctx name w =
     (case QueryRow (gr_querier gr) ctx SqlFindGood [AString name] w of (row, w) \<Rightarrow>
        (case Scan3 scan_int scan_string scan_uint32 row of
           Inl err \<Rightarrow>
             if errors_Is err ErrNoRows
             then (Inl (StoreError (GoodNotFoundError (''good '' @ name @ '' not found''))), w)
             else (Inl (WrapError ''failed to find good'' err), w)
         | Inr (goodId, goodName, price) \<Rightarrow>
             (Inr \<lparr>gi_Id = goodId, gi_Name = goodName, gi_Price = price\<rparr>, w)))"

definition PgGoodsRepository_GoodsRepository :: "'w PgGoodsRepository \<Rightarrow> 'w GoodsRepository" where
  "PgGoodsRepository_GoodsRepository gr = \<lparr>GetGoodInfo = GoodsRepository_GetGoodInfo gr\<rparr>"

section \<open>purchaser.go\<close>

text \<open>The struct \<open>PurchaseHandler\<close> has no fields.\<close>

definition PurchaseHandler_ProcessPurchase ::
  "go_context \<Rightarrow> (store_sql, 'w) QueryExecuter \<Rightarrow> goint \<Rightarrow> GoodInfo \<Rightarrow> 'w \<Rightarrow> error option \<times> 'w" where
  "PurchaseHandler_ProcessPurchase ctx executor userId good w =
     (case Exec executor ctx SqlPurchaseDebit [AUint32 (gi_Price good), AInt userId] w of
        (Inl err, w) \<Rightarrow> (Some (WrapError ''failed to update user balance'' err), w)
      | (Inr _, w) \<Rightarrow>
          (case Exec executor ctx SqlInsertPurchase [AInt userId, AInt (gi_Id good)] w of
             (Inl err, w) \<Rightarrow> (Some (WrapError ''failed to insert purchase record'' err), w)
           | (Inr _, w) \<Rightarrow> (None, w)))"

definition NewPurchaseHandler :: "(store_sql, 'w) Purchaser" where
  "NewPurchaseHandler = \<lparr>ProcessPurchase = PurchaseHandler_ProcessPurchase\<rparr>"

section \<open>transaction_proceeder.go\<close>

definition TransactionProceeder_ProceedTransaction ::
  "go_context \<Rightarrow> (store_sql, 'w) QueryExecuter \<Rightarrow> uint32 \<Rightarrow> goint \<Rightarrow> goint \<Rightarrow> 'w \<Rightarrow>
   error option \<times> 'w" where
  "TransactionProceeder_ProceedTransaction ctx executor amount fromUserID toUserID w =
     (case Exec executor ctx SqlTransferDebit [AUint32 amount, AInt fromUserID] w of
        (Inl err, w) \<Rightarrow> (Some (WrapError ''failed to update balance for fromUser'' err), w)
      | (Inr rowsAffected, w) \<Rightarrow>
          if rowsAffected = 0 then (Some (StoreError (InsufficientBalanceError [])), w)
          else
            (case Exec executor ctx SqlTransferCredit [AUint32 amount, AInt toUserID] w of
               (Inl err, w) \<Rightarrow> (Some (WrapError ''failed to update balance for toUser'' err), w)
             | (Inr _, w) \<Rightarrow>
                 (case Exec executor ctx SqlInsertTransaction
                         [AInt fromUserID, AInt toUserID, AUint32 amount] w of
                    (Inl err, w) \<Rightarrow>
                      (Some (WrapError ''failed to insert transaction record'' err), w)
                  | (Inr _, w) \<Rightarrow> (None, w))))"

definition NewTransactionProceeder :: "(store_sql, 'w) TransactionProceeder" where
  "NewTransactionProceeder = \<lparr>ProceedTransaction = TransactionProceeder_ProceedTransaction\<rparr>"

section \<open>user_info_repository.go\<close>

record 'w PgUserInfoRepository =
  uif_queryExecuter :: "(store_sql, 'w) QueryExecuter"
  uif_logger :: "'w Logger"

definition NewUserInfoRepository ::
  "(store_sql, 'w) QueryExecuter \<Rightarrow> 'w Logger \<Rightarrow> 'w PgUserInfoRepository" where
  "NewUserInfoRepository queryExecuter logger =
     \<lparr>uif_queryExecuter = queryExecuter, uif_logger = logger\<rparr>"

definition UserInfoRepository_FetchUserBalance ::
  "'w PgUserInfoRepository \<Rightarrow> go_context \<Rightarrow> goint \<Rightarrow> 'w \<Rightarrow> (error + uint32) \<times> 'w" where
  "UserInfoRepository_FetchUserBalance uif ctx userId w =
     (case QueryRow (uif_queryExecuter uif) ctx SqlSelectBalance [AInt userId] w of (row, w) \<Rightarrow>
        (case Scan1 scan_uint32 row of
           Inl err \<Rightarrow>
             if errors_Is err ErrNoRows
             then (Inl (StoreError (BalanceNotFoundError
                     (''balance for user with id '' @ show_int (sint userId) @ '' not found''))), w)
             else (Inl err, w)
         | Inr balance \<Rightarrow> (Inr balance, w)))"

text \<open>
  The loop over \<open>rows.Next()\<close>; the error of the iteration is not consulted. The rows are closed
  when the loop ends, by the last \<open>Next\<close> or the failing \<open>Scan\<close>.
\<close>

fun purchases_loop ::
  "cell list list \<Rightarrow> (Good, uint32) gomap \<Rightarrow> error + (Good, uint32) gomap" where
  "purchases_loop [] purchased = Inr purchased"
| "purchases_loop (r # rs) purchased =
     (case Scan2 scan_string scan_int (Inr r) of
        Inl err \<Rightarrow> Inl err
      | Inr (name, cnt) \<Rightarrow>
          purchases_loop rs (AList.update \<lparr>g_Name = name\<rparr> (uint32_of_int cnt) purchased))"

definition UserInfoRepository_FetchUserPurchases ::
  "'w PgUserInfoRepository \<Rightarrow> go_context \<Rightarrow> goint \<Rightarrow> 'w \<Rightarrow> (error + (Good, uint32) gomap) \<times> 'w" where
  "UserInfoRepository_FetchUserPurchases uif ctx userId w =
     (case Query (uif_queryExecuter uif) ctx SqlPurchaseCounts [AInt userId] w of
        (Inl err, w) \<Rightarrow> (Inl err, w)
      | (Inr rows, w) \<Rightarrow>
          (purchases_loop (rows_data rows) [], RowsClose (uif_queryExecuter uif) rows w))"

text \<open>
  The struct \<open>transaction\<close> and \<open>processRows\<close>, with its check of \<open>rows.Err()\<close>. When it returns,
  \<open>Next\<close> or \<open>Scan\<close> has closed the rows, whatever the answer.
\<close>

record transaction =
  tr_fromUserID :: goint
  tr_toUserID :: goint
  tr_amount :: goint

fun process_loop ::
  "cell list list \<Rightarrow> (transaction \<Rightarrow> goint) \<Rightarrow> DirectTransfer list \<Rightarrow> error + DirectTransfer list" where
  "process_loop [] getTargetIDFn result = Inr result"
| "process_loop (r # rs) getTargetIDFn result =
     (case Scan3 scan_int scan_int scan_int (Inr r) of
        Inl err \<Rightarrow> Inl err
      | Inr (f, t, a) \<Rightarrow>
          let transfer = \<lparr>tr_fromUserID = f, tr_toUserID = t, tr_amount = a\<rparr>
          in process_loop rs getTargetIDFn
               (result @ [\<lparr>dt_TargetID = getTargetIDFn transfer,
                           dt_Amount = uint32_of_int (tr_amount transfer)\<rparr>]))"

definition processed_rows :: "rows \<Rightarrow> (transaction \<Rightarrow> goint) \<Rightarrow> error + DirectTransfer list" where
  "processed_rows rows getTargetIDFn =
     (case process_loop (rows_data rows) getTargetIDFn [] of
        Inl err \<Rightarrow> Inl err
      | Inr result \<Rightarrow>
          (case rows_Err rows of Some err \<Rightarrow> Inl err | None \<Rightarrow> Inr result))"

definition processRows ::
  "(store_sql, 'w) QueryExecuter \<Rightarrow> rows \<Rightarrow> (transaction \<Rightarrow> goint) \<Rightarrow> 'w \<Rightarrow>
   (error + DirectTransfer list) \<times> 'w" where
  "processRows executer rows getTargetIDFn w =
     (processed_rows rows getTargetIDFn, RowsClose executer rows w)"

text \<open>Both queries are sent before the rows of either are read; an early return closes what is open.\<close>

definition UserInfoRepository_FetchUserCoinTransfers ::
  "'w PgUserInfoRepository \<Rightarrow> go_context \<Rightarrow> goint \<Rightarrow> 'w \<Rightarrow> (error + TransferHistory) \<times> 'w" where
  "UserInfoRepository_FetchUserCoinTransfers uif ctx userId w =
     (case Query (uif_queryExecuter uif) ctx SqlOutcoming [AInt userId] w of
        (Inl err, w) \<Rightarrow> (Inl err, w)
      | (Inr outcomingRows, w) \<Rightarrow>
          (case Query (uif_queryExecuter uif) ctx SqlIncoming [AInt userId] w of
             (Inl err, w) \<Rightarrow> (Inl err, RowsClose (uif_queryExecuter uif) outcomingRows w)
           | (Inr incomingRows, w) \<Rightarrow>
               (case processRows (uif_queryExecuter uif) outcomingRows tr_toUserID w of
                  (Inl err, w) \<Rightarrow> (Inl err, RowsClose (uif_queryExecuter uif) incomingRows w)
                | (Inr outcoming, w) \<Rightarrow>
                    (case processRows (uif_queryExecuter uif) incomingRows tr_fromUserID w of
                       (Inl err, w) \<Rightarrow> (Inl err, w)
                     | (Inr incoming, w) \<Rightarrow>
                         (Inr \<lparr>th_IncomingTransfers = incoming, th_OutcomingTransfers = outcoming\<rparr>,
                          w)))))"

definition PgUserInfoRepository_UserInfoRepository ::
  "'w PgUserInfoRepository \<Rightarrow> 'w UserInfoRepository" where
  "PgUserInfoRepository_UserInfoRepository uif =
     \<lparr>FetchUserBalance = UserInfoRepository_FetchUserBalance uif,
      FetchUserPurchases = UserInfoRepository_FetchUserPurchases uif,
      FetchUserCoinTransfers = UserInfoRepository_FetchUserCoinTransfers uif\<rparr>"

end
