(* ===== verification/Store_Sql_Facts.thy ===== *)
theory Store_Sql_Facts
  imports Store_Sql
begin

text \<open>
  What the statements of \<open>Store_Sql\<close> do in terms of the schema's invariant \<open>wf_db\<close> and of the
  abstract bank. These facts are all that the proofs about the repositories use.
\<close>

section \<open>Columns\<close>

lemma scan_int_cell [simp]:
  "scan_int (int_cell i) = Inr (word_of_int i)"
  "scan_string (text_cell s) = Inr s"
  by (simp_all add: int_cell_def text_cell_def)

lemma scan_uint32_int_cell:
  "0 \<le> i \<Longrightarrow> int4_range i \<Longrightarrow> scan_uint32 (int_cell i) = Inr (word_of_int i)"
  by (simp add: int_cell_def int4_range_def)

lemma scan_uint32_int_cell_iff:
  "int4_range i \<Longrightarrow> scan_uint32 (int_cell i) = (if 0 \<le> i then Inr (word_of_int i) else Inl scan_error)"
  by (simp add: int_cell_def int4_range_def)

section \<open>Reading balances and goods\<close>

lemma wf_db_balance:
  assumes "wf_db db" "map_of (balances db) u = Some v"
  shows "int4_range u" "0 \<le> v" "int4_range v"
  using assms by (auto simp: wf_db_def dest!: map_of_SomeD)

lemma sql_balance_rows_eq:
  assumes "wf_db db"
  shows "sql_balance_rows u db =
    (case map_of (balances db) u of None \<Rightarrow> [] | Some v \<Rightarrow> [[int_cell v]])"
proof -
  have "distinct (map fst rows) \<Longrightarrow> map (\<lambda>(_, v). [int_cell v]) (filter (\<lambda>(k, _). k = u) rows) =
      (case map_of rows u of None \<Rightarrow> [] | Some v \<Rightarrow> [[int_cell v]])" for rows
  proof (induction rows)
    case (Cons r rows)
    moreover have "u \<notin> fst ` set rows \<Longrightarrow> filter (\<lambda>(k, _). k = u) rows = []"
      by (auto simp: filter_empty_conv image_iff)
    ultimately show ?case by (cases r) (auto simp: map_of_eq_None_iff)
  qed simp
  with assms show ?thesis by (simp add: sql_balance_rows_def wf_db_def)
qed

definition find_good :: "store_db \<Rightarrow> string \<Rightarrow> good_row option" where
  "find_good db n = find (\<lambda>g. good_name g = n) (goods db)"

lemma filter_distinct_find:
  "distinct (map f xs) \<Longrightarrow>
   filter (\<lambda>x. f x = k) xs = (case find (\<lambda>x. f x = k) xs of None \<Rightarrow> [] | Some x \<Rightarrow> [x])"
proof (induction xs)
  case (Cons x xs)
  have "k \<notin> f ` set xs \<Longrightarrow> filter (\<lambda>x. f x = k) xs = []"
    by (auto simp: filter_empty_conv)
  with Cons show ?case by auto
qed simp

lemma sql_good_rows_eq:
  assumes "wf_db db"
  shows "sql_good_rows n db = (case find_good db n of None \<Rightarrow> [] | Some g \<Rightarrow>
    [[int_cell (good_id g), text_cell (good_name g), int_cell (good_price g)]])"
  using assms
  by (simp add: sql_good_rows_def find_good_def wf_db_def filter_distinct_find split: option.split)

lemma find_good_SomeD:
  assumes "find_good db n = Some g"
  shows "g \<in> set (goods db)" "good_name g = n"
  using assms by (auto simp: find_good_def find_Some_iff)

lemma map_of_key_find:
  "map_of (map (\<lambda>g. (f g, h g)) gs) n = map_option h (find (\<lambda>g. f g = n) gs)"
  by (induction gs) auto

lemma prices_bank_of: "prices (bank_of db) n = map_option good_price (find_good db n)"
  by (simp add: bank_of_def find_good_def map_of_key_find)

lemma find_good_range:
  assumes "wf_db db" "find_good db n = Some g"
  shows "int4_range (good_id g)" "int4_range (good_price g)" "has_good db (good_id g)"
  using assms find_good_SomeD(1) [OF assms(2)] by (auto simp: wf_db_def has_good_def)

lemma good_name_of_find:
  assumes "wf_db db" "find_good db n = Some g"
  shows "good_name_of db (good_id g) = n"
proof -
  have "find (\<lambda>g'. good_id g' = good_id g) (goods db) = Some g"
    if "distinct (map good_id gs)" "g \<in> set gs" "gs = goods db" for gs
    using that(1,2) unfolding that(3) [symmetric] by (induction gs) (auto simp: image_iff)
  with assms find_good_SomeD [OF assms(2)] show ?thesis
    by (simp add: wf_db_def good_name_of_def)
qed

section \<open>The abstraction of an updated database\<close>

lemma has_account_bank: "has_account db u \<longleftrightarrow> accounts (bank_of db) u \<noteq> None"
  by (simp add: has_account_def bank_of_def)

lemma accounts_bank_of: "accounts (bank_of db) = map_of (balances db)"
  by (simp add: bank_of_def)

lemma has_account_simps [simp]:
  "has_account (db\<lparr>goods := g\<rparr>) = has_account db" "has_account (db\<lparr>purchases := p\<rparr>) = has_account db"
  "has_account (db\<lparr>transactions := t\<rparr>) = has_account db"
  by (simp_all add: has_account_def fun_eq_iff)

lemma has_account_update_rows [simp]:
  "has_account (db\<lparr>balances := update_rows u p f (balances db)\<rparr>) = has_account db"
  by (auto simp: has_account_def fun_eq_iff map_of_update_rows split: option.split)

lemma has_good_simps [simp]:
  "has_good (db\<lparr>balances := b\<rparr>) = has_good db" "has_good (db\<lparr>purchases := p\<rparr>) = has_good db"
  "has_good (db\<lparr>transactions := t\<rparr>) = has_good db"
  by (simp_all add: has_good_def fun_eq_iff)

lemma good_name_of_simps [simp]:
  "good_name_of (db\<lparr>balances := b\<rparr>) = good_name_of db"
  "good_name_of (db\<lparr>purchases := p\<rparr>) = good_name_of db"
  "good_name_of (db\<lparr>transactions := t\<rparr>) = good_name_of db"
  by (simp_all add: good_name_of_def fun_eq_iff)

lemma find_good_simps [simp]:
  "find_good (db\<lparr>balances := b\<rparr>) = find_good db" "find_good (db\<lparr>purchases := p\<rparr>) = find_good db"
  "find_good (db\<lparr>transactions := t\<rparr>) = find_good db"
  by (simp_all add: find_good_def fun_eq_iff)

lemma bank_of_balances:
  "bank_of (db\<lparr>balances := b\<rparr>) = (bank_of db)\<lparr>accounts := map_of b\<rparr>"
  by (simp add: bank_of_def)

lemma bank_of_purchases:
  "bank_of (db\<lparr>purchases := ps\<rparr>) =
     (bank_of db)\<lparr>bought := map (\<lambda>p. (p_user p, good_name_of db (p_good p))) ps\<rparr>"
  by (simp add: bank_of_def)

lemma bank_of_transactions:
  "bank_of (db\<lparr>transactions := ts\<rparr>) =
     (bank_of db)\<lparr>ledger := map (\<lambda>t. (t_from t, t_to t, t_amount t)) ts\<rparr>"
  by (simp add: bank_of_def)

lemma map_of_update_rows_fun:
  "map_of rows u = Some v \<Longrightarrow> p v \<Longrightarrow> map_of (update_rows u p f rows) = (map_of rows)(u \<mapsto> f v)"
  by (auto simp: fun_eq_iff map_of_update_rows split: option.split)

section \<open>Updating a balance\<close>

lemma update_rows_ex:
  assumes "distinct (map fst rows)"
  shows "list_ex (\<lambda>(k, v). k = u \<and> P v) rows \<longleftrightarrow> (\<exists>v. map_of rows u = Some v \<and> P v)"
  using assms by (auto simp: list_ex_iff)

lemma sql_update_balance_eq:
  assumes "wf_db db"
  shows "sql_update_balance u p f db =
    (case map_of (balances db) u of
       None \<Rightarrow> Inr (0, db)
     | Some v \<Rightarrow>
         if \<not> p v then Inr (0, db)
         else if \<not> int4_range (f v) then Inl out_of_range
         else if f v < 0 then Inl check_violation
         else Inr (1, db\<lparr>balances := update_rows u p f (balances db)\<rparr>))"
proof -
  have d: "distinct (map fst (balances db))" using assms by (simp add: wf_db_def)
  have same: "update_rows u p f (balances db) = balances db"
    if "\<And>v. map_of (balances db) u = Some v \<Longrightarrow> \<not> p v"
  proof -
    have "(k, v) \<in> set (balances db) \<Longrightarrow> k = u \<Longrightarrow> \<not> p v" for k v
      using that map_of_is_SomeI [OF d] by blast
    then show ?thesis unfolding update_rows_def by (intro map_idI) auto
  qed
  show ?thesis
  proof (cases "map_of (balances db) u")
    case None
    with same show ?thesis
      by (simp add: sql_update_balance_def update_rows_ex [OF d] matching_rows_distinct [OF d])
  next
    case (Some v)
    with same show ?thesis
      by (cases "p v")
        (simp_all add: sql_update_balance_def update_rows_ex [OF d] matching_rows_distinct [OF d])
  qed
qed

lemma wf_db_update_balance:
  assumes "wf_db db" "sql_update_balance u p f db = Inr (n, db')"
  shows "wf_db db'"
proof (cases "\<exists>v. map_of (balances db) u = Some v \<and> p v")
  case False
  with assms show ?thesis
    by (auto simp: sql_update_balance_eq split: option.splits if_splits)
next
  case True
  then obtain v where v: "map_of (balances db) u = Some v" "p v" by blast
  with assms have f: "int4_range (f v)" "0 \<le> f v"
    and db': "db' = db\<lparr>balances := update_rows u p f (balances db)\<rparr>"
    by (auto simp: sql_update_balance_eq split: if_splits)
  have d: "distinct (map fst (update_rows u p f (balances db)))"
    using assms(1) by (simp add: wf_db_def)
  have "int4_range k \<and> 0 \<le> x \<and> int4_range x"
    if "(k, x) \<in> set (update_rows u p f (balances db))" for k x
    using map_of_is_SomeI [OF d that] f v wf_db_balance [OF assms(1)]
    by (auto simp: map_of_update_rows split: option.splits if_splits)
  then have "\<forall>(k, x) \<in> set (update_rows u p f (balances db)). int4_range k \<and> 0 \<le> x \<and> int4_range x"
    by blast
  with assms(1) d show ?thesis unfolding db' wf_db_def by simp
qed

section \<open>Opening an account, buying, transferring\<close>

lemma sql_ensure_balance_start:
  "sql_ensure_balance u 1000 db =
     Inr (if has_account db u then (0, db) else (1, db\<lparr>balances := balances db @ [(u, 1000)]\<rparr>))"
  by (simp add: sql_ensure_balance_def)

lemma bank_of_ensure:
  assumes "sql_ensure_balance u 1000 db = Inr (n, db')"
  shows "bank_of db' = bank_open u (bank_of db)"
proof (cases "has_account db u")
  case True
  with assms show ?thesis
    by (auto simp: sql_ensure_balance_start bank_open_def has_account_bank split: option.split)
next
  case False
  then have "map_of (balances db @ [(u, 1000)]) = (map_of (balances db))(u \<mapsto> 1000)"
    by (auto simp: has_account_def map_add_def fun_eq_iff split: option.split)
  with False assms show ?thesis
    by (auto simp: sql_ensure_balance_start bank_open_def accounts_bank_of has_account_def
        bank_of_balances start_coins_def)
qed

lemma has_account_ensure:
  "sql_ensure_balance u 1000 db = Inr (n, db') \<Longrightarrow> has_account db' u"
  by (auto simp: sql_ensure_balance_start has_account_def map_of_eq_None_iff split: if_splits)

lemma wf_db_ensure:
  assumes "wf_db db" "int4_range u" "sql_ensure_balance u 1000 db = Inr (n, db')"
  shows "wf_db db'"
proof (cases "has_account db u")
  case True
  with assms show ?thesis by (simp add: sql_ensure_balance_start)
next
  case False
  then have d: "distinct (map fst (balances db @ [(u, 1000)]))"
    using assms(1) by (auto simp: wf_db_def has_account_def map_of_eq_None_iff)
  have "has_account db u' \<Longrightarrow> has_account (db\<lparr>balances := balances db @ [(u, 1000)]\<rparr>) u'" for u'
    by (auto simp: has_account_def map_of_eq_None_iff)
  moreover have "db' = db\<lparr>balances := balances db @ [(u, 1000)]\<rparr>"
    using False assms(3) by (simp add: sql_ensure_balance_start)
  ultimately show ?thesis
    using assms(1,2) d by (auto simp: wf_db_def int4_range_def)
qed

lemma wf_db_insert_purchase:
  "wf_db db \<Longrightarrow> sql_insert_purchase u g db = Inr (n, db') \<Longrightarrow> wf_db db'"
  by (auto simp: sql_insert_purchase_def wf_db_def split: if_splits)

lemma wf_db_insert_transaction:
  "wf_db db \<Longrightarrow> int4_range a \<Longrightarrow> sql_insert_transaction f t a db = Inr (n, db') \<Longrightarrow> wf_db db'"
  by (auto simp: sql_insert_transaction_def wf_db_def split: if_splits)

text \<open>
  The statements of a purchase and of a transfer, run one after the other, are the abstract
  operations. The guard \<open>price \<le> balance\<close> of the purchase is checked by the use case before.
\<close>

lemma purchase_refines:
  assumes wf: "wf_db db" and g: "find_good db item = Some g"
    and v: "map_of (balances db) u = Some v" "good_price g \<le> v"
    and s1: "sql_update_balance u (\<lambda>_. True) (\<lambda>b. b - good_price g) db = Inr (n1, db1)"
    and s2: "sql_insert_purchase u (good_id g) db1 = Inr (n2, db2)"
  shows "bank_buy u item (bank_of db) = Inr (bank_of db2)" "wf_db db2"
proof -
  have db1: "db1 = db\<lparr>balances := update_rows u (\<lambda>_. True) (\<lambda>b. b - good_price g) (balances db)\<rparr>"
    using s1 v by (simp add: sql_update_balance_eq [OF wf] split: if_splits)
  have db2: "db2 = db1\<lparr>purchases := purchases db1 @ [\<lparr>p_user = u, p_good = good_id g\<rparr>]\<rparr>"
    using s2 by (simp add: sql_insert_purchase_def split: if_splits)
  have "map_of (balances db1) = (map_of (balances db))(u \<mapsto> v - good_price g)"
    using v by (simp add: db1 map_of_update_rows_fun)
  with v g show "bank_buy u item (bank_of db) = Inr (bank_of db2)"
    by (simp add: bank_buy_def prices_bank_of accounts_bank_of db2)
      (simp add: db1 bank_of_def good_name_of_find [OF wf g])
  show "wf_db db2"
    using wf s1 s2 by (blast intro: wf_db_update_balance wf_db_insert_purchase)
qed

lemma transfer_refines:
  assumes wf: "wf_db db" and ne: "f \<noteq> t" and a: "int4_range a"
    and s1: "sql_update_balance f (\<lambda>b. a \<le> b) (\<lambda>b. b - a) db = Inr (n1, db1)" and n1: "n1 \<noteq> 0"
    and s2: "sql_update_balance t (\<lambda>_. True) (\<lambda>b. b + a) db1 = Inr (n2, db2)"
    and s3: "sql_insert_transaction f t a db2 = Inr (n3, db3)"
  shows "bank_transfer f t a (bank_of db) = Inr (bank_of db3)" "wf_db db3"
proof -
  obtain v where v: "map_of (balances db) f = Some v" "a \<le> v"
    and db1: "db1 = db\<lparr>balances := update_rows f (\<lambda>b. a \<le> b) (\<lambda>b. b - a) (balances db)\<rparr>"
    using s1 n1 by (auto simp: sql_update_balance_eq [OF wf] split: option.splits if_splits)
  have wf1: "wf_db db1" using wf s1 by (rule wf_db_update_balance)
  have m1: "map_of (balances db1) = (map_of (balances db))(f \<mapsto> v - a)"
    using v by (simp add: db1 map_of_update_rows_fun)
  have "has_account db2 t"
    using s3 by (simp add: sql_insert_transaction_def split: if_splits)
  moreover have "has_account db2 = has_account db1"
    using s2 by (auto simp: sql_update_balance_eq [OF wf1] split: option.splits if_splits)
  ultimately obtain r where r1: "map_of (balances db1) t = Some r"
    by (auto simp: has_account_def)
  with m1 ne have r: "map_of (balances db) t = Some r" by simp
  from s2 r1 have lim: "r + a \<le> coin_limit"
    and db2: "db2 = db1\<lparr>balances := update_rows t (\<lambda>_. True) (\<lambda>b. b + a) (balances db1)\<rparr>"
    by (auto simp: sql_update_balance_eq [OF wf1] int4_range_def coin_limit_def split: if_splits)
  have m2: "map_of (balances db2) = (map_of (balances db))(f \<mapsto> v - a, t \<mapsto> r + a)"
    using r1 by (simp add: db2 map_of_update_rows_fun m1)
  have db3: "db3 = db2\<lparr>transactions := transactions db2 @ [\<lparr>t_from = f, t_to = t, t_amount = a\<rparr>]\<rparr>"
    using s3 by (simp add: sql_insert_transaction_def split: if_splits)
  show "bank_transfer f t a (bank_of db) = Inr (bank_of db3)"
    using ne v r lim m2
    by (simp add: bank_transfer_def accounts_bank_of db3) (simp add: db1 db2 bank_of_def)
  show "wf_db db3"
    using wf1 s2 s3 a by (blast intro: wf_db_update_balance wf_db_insert_transaction)
qed

section \<open>The migrated database\<close>

lemma wf_migrated_db: "wf_db migrated_db"
  by (simp add: wf_db_def migrated_db_def seed_goods_def int4_range_def)

lemma audit_migrated_db: "audit (bank_of migrated_db)"
  by (auto simp: audit_def bank_of_def migrated_db_def seed_goods_def spent_def sent_def
      received_def split: if_splits)

end
