(* ===== verification/Store_Postgres_Facts.thy ===== *)
theory Store_Postgres_Facts
  imports Store_Postgres Store_Sql_Facts Store_Contracts
begin

text \<open>
  The repositories over the connection of \<open>Pg_Driver\<close> and the statements of \<open>Store_Sql\<close> keep
  the contracts of \<open>Store_Contracts\<close>, under every schedule of failures.
\<close>

section \<open>What a good is in the tables\<close>

definition pg_good_is :: "store_db \<Rightarrow> string \<Rightarrow> GoodInfo \<Rightarrow> bool" where
  "pg_good_is d n g \<longleftrightarrow>
     (\<exists>r. find_good d n = Some r \<and> sint (gi_Id g) = good_id r \<and> uint (gi_Price g) = good_price r \<and>
        gi_Name g = n)"

lemma pg_good_price: "pg_good_is d n g \<Longrightarrow> prices (bank_of d) n = Some (uint (gi_Price g))"
  by (auto simp: pg_good_is_def prices_bank_of)

section \<open>Statements with integer arguments\<close>

lemma args_int4_Some:
  "args_int4 [a] = Some xs \<longleftrightarrow> (\<exists>x. arg_int4 a = Some x \<and> xs = [x])"
  "args_int4 [a, b] = Some xs \<longleftrightarrow> (\<exists>x y. arg_int4 a = Some x \<and> arg_int4 b = Some y \<and> xs = [x, y])"
  "args_int4 [a, b, c] = Some xs \<longleftrightarrow>
     (\<exists>x y z. arg_int4 a = Some x \<and> arg_int4 b = Some y \<and> arg_int4 c = Some z \<and> xs = [x, y, z])"
  by (auto split: option.splits)

lemma arg_int4_Some:
  "arg_int4 (AInt i) = Some x \<longleftrightarrow> int4_range (sint i) \<and> x = sint i"
  "arg_int4 (AUint32 u) = Some x \<longleftrightarrow> int4_range (uint u) \<and> x = uint u"
  by auto

lemma args_int4_eq:
  "args_int4 [AInt i] = (if int4_range (sint i) then Some [sint i] else None)"
  "args_int4 [AInt i, AInt j] =
     (if int4_range (sint i) \<and> int4_range (sint j) then Some [sint i, sint j] else None)"
  "args_int4 [AInt i, AUint32 u] =
     (if int4_range (sint i) \<and> int4_range (uint u) then Some [sint i, uint u] else None)"
  "args_int4 [AUint32 u, AInt i] =
     (if int4_range (uint u) \<and> int4_range (sint i) then Some [uint u, sint i] else None)"
  "args_int4 [AInt i, AInt j, AUint32 u] =
     (if int4_range (sint i) \<and> int4_range (sint j) \<and> int4_range (uint u)
      then Some [sint i, sint j, uint u] else None)"
  by auto

declare args_int4.simps [simp del]

lemma store_exec_cases:
  "store_exec SqlEnsureBalance [AInt i, AUint32 v] db =
     (if int4_range (sint i) \<and> int4_range (uint v) then sql_ensure_balance (sint i) (uint v) db
      else Inl bad_argument)"
  "store_exec SqlPurchaseDebit [AUint32 a, AInt i] db =
     (if int4_range (uint a) \<and> int4_range (sint i)
      then sql_update_balance (sint i) (\<lambda>_. True) (\<lambda>b. b - uint a) db else Inl bad_argument)"
  "store_exec SqlTransferDebit [AUint32 a, AInt i] db =
     (if int4_range (uint a) \<and> int4_range (sint i)
      then sql_update_balance (sint i) (\<lambda>b. uint a \<le> b) (\<lambda>b. b - uint a) db else Inl bad_argument)"
  "store_exec SqlTransferCredit [AUint32 a, AInt i] db =
     (if int4_range (uint a) \<and> int4_range (sint i)
      then sql_update_balance (sint i) (\<lambda>_. True) (\<lambda>b. b + uint a) db else Inl bad_argument)"
  "store_exec SqlInsertPurchase [AInt i, AInt j] db =
     (if int4_range (sint i) \<and> int4_range (sint j) then sql_insert_purchase (sint i) (sint j) db
      else Inl bad_argument)"
  "store_exec SqlInsertTransaction [AInt i, AInt j, AUint32 a] db =
     (if int4_range (sint i) \<and> int4_range (sint j) \<and> int4_range (uint a)
      then sql_insert_transaction (sint i) (sint j) (uint a) db else Inl bad_argument)"
  by (simp_all add: store_exec_def args_int4_eq)

lemma store_query_cases:
  "store_query SqlLockBalance [AInt i] db =
     (if int4_range (sint i) then Inr (sql_balance_rows (sint i) db, db) else Inl bad_argument)"
  "store_query SqlSelectBalance [AInt i] db =
     (if int4_range (sint i) then Inr (sql_balance_rows (sint i) db, db) else Inl bad_argument)"
  "store_query SqlFindGood [AString n] db = Inr (sql_good_rows n db, db)"
  "store_query SqlPurchaseCounts [AInt i] db =
     (if int4_range (sint i) then Inr (sql_purchase_counts (sint i) db, db) else Inl bad_argument)"
  "store_query SqlOutcoming [AInt i] db =
     (if int4_range (sint i)
      then Inr (map transaction_cells (filter (\<lambda>t. t_from t = sint i) (transactions db)), db)
      else Inl bad_argument)"
  "store_query SqlIncoming [AInt i] db =
     (if int4_range (sint i)
      then Inr (map transaction_cells (filter (\<lambda>t. t_to t = sint i) (transactions db)), db)
      else Inl bad_argument)"
  by (simp_all add: store_query_def args_int4_eq)

lemma store_query_pure: "store_query q args db = Inr (rs, db') \<Longrightarrow> db' = db"
  by (auto simp: store_query_def split: store_sql.splits option.splits list.splits arg.splits)

section \<open>The pool never changes the database by a query\<close>

lemma pool_QueryRow_durable:
  assumes "pool_QueryRow store_sem ctx q args w = (r, w')"
  shows "durable w' = durable w"
  using assms
  by (auto simp: pool_QueryRow_def dest!: next_outcome_keeps store_query_pure
      split: if_splits prod.splits outcome.splits sum.splits)

lemma pool_Query_durable:
  assumes "pool_Query store_sem ctx q args w = (r, w')"
  shows "durable w' = durable w"
  using assms
  by (auto simp: pool_Query_def dest!: next_outcome_keeps store_query_pure
      split: if_splits prod.splits outcome.splits sum.splits)

lemma pool_QueryRow_ok:
  "pool_QueryRow S ctx q args w = (Inr r, w') \<Longrightarrow>
   \<exists>rs d. run_query S q args (durable w) = Inr (r # rs, d)"
  by (auto simp: pool_QueryRow_def first_row_def dest!: next_outcome_keeps
      split: if_splits prod.splits outcome.splits sum.splits list.splits)

section \<open>Laws of the repositories\<close>

abbreviation store_tx :: "(store_sql, (store_db, 'z) pg_scheme) QueryExecuter" where
  "store_tx \<equiv> tx_executer (pg_tx store_sem)"

lemma provided_store_tx: "pg.provided_executor store_sem ex \<longleftrightarrow> ex = store_tx"
  by (simp add: pg.provided_executor_def)

lemma GetGoodInfo_durable:
  "GoodsRepository_GetGoodInfo (NewGoodsRepository (pool store_sem)) ctx n w = (r, w') \<Longrightarrow>
   durable w' = durable w"
  by (auto simp: GoodsRepository_GetGoodInfo_def NewGoodsRepository_def
      dest!: pool_QueryRow_durable split: prod.splits sum.splits if_splits)

lemma Scan3_Inr:
  "Scan3 f g h r = Inr (x, y, z) \<longleftrightarrow>
   (\<exists>c d e. r = Inr [c, d, e] \<and> f c = Inr x \<and> g d = Inr y \<and> h e = Inr z)"
  by (cases "(f, g, h, r)" rule: Scan3.cases) (auto split: sum.splits)

lemma Scan2_Inr:
  "Scan2 f g r = Inr (x, y) \<longleftrightarrow> (\<exists>c d. r = Inr [c, d] \<and> f c = Inr x \<and> g d = Inr y)"
  by (cases "(f, g, r)" rule: Scan2.cases) (auto split: sum.splits)

lemma Scan1_Inr: "Scan1 f r = Inr x \<longleftrightarrow> (\<exists>c. r = Inr [c] \<and> f c = Inr x)"
  by (cases "(f, r)" rule: Scan1.cases) auto

lemma scan_uint32_int_cell_Inr:
  "int4_range i \<Longrightarrow> scan_uint32 (int_cell i) = Inr x \<longleftrightarrow> 0 \<le> i \<and> x = word_of_int i"
  by (auto simp: scan_uint32_int_cell_iff)

lemma GetGoodInfo_found:
  assumes wf: "wf_db (durable w)"
    and r: "GoodsRepository_GetGoodInfo (NewGoodsRepository (pool store_sem)) ctx n w = (Inr g, w')"
  shows "pg_good_is (durable w) n g"
proof -
  from r obtain c d e w1 where q: "pool_QueryRow store_sem ctx SqlFindGood [AString n] w = (Inr [c, d, e], w1)"
    and g: "scan_int c = Inr (gi_Id g)" "scan_string d = Inr (gi_Name g)" "scan_uint32 e = Inr (gi_Price g)"
    by (auto simp: GoodsRepository_GetGoodInfo_def NewGoodsRepository_def Scan3_Inr
        split: prod.splits sum.splits if_splits)
  from pool_QueryRow_ok [OF q] obtain r where f: "find_good (durable w) n = Some r"
    and row: "[c, d, e] = [int_cell (good_id r), text_cell (good_name r), int_cell (good_price r)]"
    by (auto simp: store_query_cases sql_good_rows_eq [OF wf] split: option.splits)
  note rng = find_good_range [OF wf f]
  have "gi_Id g = word_of_int (good_id r)" "gi_Name g = n" "0 \<le> good_price r"
    "gi_Price g = word_of_int (good_price r)"
    using row g rng find_good_SomeD(2) [OF f] by (auto simp: scan_uint32_int_cell_Inr)
  with f rng show ?thesis
    by (simp add: pg_good_is_def sint_goint_of_int4 uint_uint32_of_int4)
qed

lemma Lock_durable:
  "BalancesRepository_LockAndGetUserBalance br ctx store_tx u w = (r, w') \<Longrightarrow> durable w' = durable w"
  by (auto simp: BalancesRepository_LockAndGetUserBalance_def dest!: tx_QueryRow_durable
      split: prod.splits sum.splits if_splits)

lemma Lock_locked:
  assumes wf: "wf_db (view w)"
    and r: "BalancesRepository_LockAndGetUserBalance br ctx store_tx u w = (Inr balance, w')"
  shows "view w' = view w \<and> accounts (bank_of (view w)) (sint u) = Some (uint balance)"
proof -
  from r obtain c where q: "tx_QueryRow store_sem ctx SqlLockBalance [AInt u] w = (Inr [c], w')"
    and c: "scan_uint32 c = Inr balance"
    by (auto simp: BalancesRepository_LockAndGetUserBalance_def Scan1_Inr
        split: prod.splits sum.splits if_splits)
  from tx_QueryRow_ok [OF q] obtain d rs where o: "tx_state w = TxOpen d" "tx_state w' = TxOpen d"
    and rs: "sql_balance_rows (sint u) d = [c] # rs"
    by (auto simp: store_query_cases split: if_splits)
  from o wf have wfd: "wf_db d" by simp
  from rs obtain v where v: "map_of (balances d) (sint u) = Some v" "c = int_cell v"
    by (auto simp: sql_balance_rows_eq [OF wfd] split: option.splits)
  from wf_db_balance [OF wfd v(1)] v c o show ?thesis
    by (simp add: accounts_bank_of scan_uint32_int_cell_Inr uint_uint32_of_int4)
qed

lemma ProcessPurchase_durable:
  "PurchaseHandler_ProcessPurchase ctx store_tx u g w = (r, w') \<Longrightarrow> durable w' = durable w"
  by (auto simp: PurchaseHandler_ProcessPurchase_def dest!: tx_Exec_durable
      split: prod.splits sum.splits)

lemma ProcessPurchase_purchased:
  assumes wf: "wf_db (view w)" and g: "pg_good_is (view w) n g"
    and acc: "accounts (bank_of (view w)) (sint u) = Some v" "uint (gi_Price g) \<le> v"
    and r: "PurchaseHandler_ProcessPurchase ctx store_tx u g w = (None, w')"
  shows "bank_buy (sint u) n (bank_of (view w)) = Inr (bank_of (view w')) \<and> wf_db (view w')"
proof -
  from r obtain n1 n2 w1 where
      x1: "tx_Exec store_sem ctx SqlPurchaseDebit [AUint32 (gi_Price g), AInt u] w = (Inr n1, w1)"
      and x2: "tx_Exec store_sem ctx SqlInsertPurchase [AInt u, AInt (gi_Id g)] w1 = (Inr n2, w')"
    by (auto simp: PurchaseHandler_ProcessPurchase_def split: prod.splits sum.splits)
  from tx_Exec_ok [OF x1] tx_Exec_ok [OF x2] obtain d d1 d2 where
      o: "tx_state w = TxOpen d" "tx_state w' = TxOpen d2"
      and s: "sql_update_balance (sint u) (\<lambda>_. True) (\<lambda>b. b - uint (gi_Price g)) d = Inr (n1, d1)"
        "sql_insert_purchase (sint u) (sint (gi_Id g)) d1 = Inr (n2, d2)"
    by (auto simp: store_exec_cases split: if_splits)
  from g o obtain good where good: "find_good d n = Some good" "sint (gi_Id g) = good_id good"
    "uint (gi_Price g) = good_price good"
    by (auto simp: pg_good_is_def)
  from purchase_refines [of d n good "sint u" v n1 d1 n2 d2] wf o acc s good
  show ?thesis by (simp add: accounts_bank_of)
qed

lemma ProceedTransaction_durable:
  "TransactionProceeder_ProceedTransaction ctx store_tx a f t w = (r, w') \<Longrightarrow>
   durable w' = durable w"
  by (auto simp: TransactionProceeder_ProceedTransaction_def dest!: tx_Exec_durable
      split: prod.splits sum.splits if_splits)

lemma ProceedTransaction_proceeded:
  assumes wf: "wf_db (view w)" and ne: "f \<noteq> t"
    and r: "TransactionProceeder_ProceedTransaction ctx store_tx a f t w = (None, w')"
  shows "bank_transfer (sint f) (sint t) (uint a) (bank_of (view w)) = Inr (bank_of (view w')) \<and>
    wf_db (view w')"
proof -
  from r obtain n1 n2 n3 w1 w2 where
      x1: "tx_Exec store_sem ctx SqlTransferDebit [AUint32 a, AInt f] w = (Inr n1, w1)" and n1: "n1 \<noteq> 0"
      and x2: "tx_Exec store_sem ctx SqlTransferCredit [AUint32 a, AInt t] w1 = (Inr n2, w2)"
      and x3: "tx_Exec store_sem ctx SqlInsertTransaction [AInt f, AInt t, AUint32 a] w2 = (Inr n3, w')"
    by (auto simp: TransactionProceeder_ProceedTransaction_def split: prod.splits sum.splits if_splits)
  from tx_Exec_ok [OF x1] tx_Exec_ok [OF x2] tx_Exec_ok [OF x3] obtain d d1 d2 d3 where
      o: "tx_state w = TxOpen d" "tx_state w' = TxOpen d3" and a: "int4_range (uint a)"
      and s: "sql_update_balance (sint f) (\<lambda>b. uint a \<le> b) (\<lambda>b. b - uint a) d = Inr (n1, d1)"
        "sql_update_balance (sint t) (\<lambda>_. True) (\<lambda>b. b + uint a) d1 = Inr (n2, d2)"
        "sql_insert_transaction (sint f) (sint t) (uint a) d2 = Inr (n3, d3)"
    by (auto simp: store_exec_cases split: if_splits)
  have "sint f \<noteq> sint t" using ne sint_goint_inject by blast
  from transfer_refines [OF _ this a s(1) n1 s(2,3)] wf o show ?thesis by simp
qed

abbreviation store_balances :: "(store_db, 'z) pg_scheme BalancesRepository" where
  "store_balances \<equiv> NewBalancesRepository (pool store_sem)"

lemma pool_Exec_ensure:
  assumes "pool_Exec store_sem ctx SqlEnsureBalance [AInt u, AUint32 StartBalance] w = (r, w')"
  shows "(\<exists>n. r = Inr n) \<and>
      (\<exists>n. sql_ensure_balance (sint u) 1000 (durable w) = Inr (n, durable w') \<and> int4_range (sint u)) \<or>
    (\<exists>e. r = Inl e) \<and> (durable w' = durable w \<or>
      (\<exists>n. sql_ensure_balance (sint u) 1000 (durable w) = Inr (n, durable w') \<and> int4_range (sint u)))"
proof -
  have "store_exec SqlEnsureBalance [AInt u, AUint32 StartBalance] d =
      (if int4_range (sint u) then sql_ensure_balance (sint u) 1000 d else Inl bad_argument)" for d
    by (simp add: store_exec_cases StartBalance_def int4_range_def)
  with assms show ?thesis
    by (auto simp: pool_Exec_def dest!: next_outcome_keeps
        split: if_splits prod.splits outcome.splits sum.splits)
qed

lemma Ensure_ensured:
  assumes wf: "wf_db (durable w)"
    and r: "BalancesRepository_EnsureBalanceCreated store_balances ctx u StartBalance w = (None, w')"
  shows "bank_of (durable w') = bank_open (sint u) (bank_of (durable w)) \<and> wf_db (durable w')"
proof -
  from r obtain n where
    "pool_Exec store_sem ctx SqlEnsureBalance [AInt u, AUint32 StartBalance] w = (Inr n, w')"
    by (auto simp: BalancesRepository_EnsureBalanceCreated_def NewBalancesRepository_def
        split: prod.splits sum.splits)
  from pool_Exec_ensure [OF this] wf show ?thesis by (auto intro: bank_of_ensure wf_db_ensure)
qed

lemma Ensure_failed:
  assumes wf: "wf_db (durable w)"
    and r: "BalancesRepository_EnsureBalanceCreated store_balances ctx u StartBalance w = (Some e, w')"
  shows "durable w' = durable w \<or>
    bank_of (durable w') = bank_open (sint u) (bank_of (durable w)) \<and> wf_db (durable w')"
proof -
  from r have
    "pool_Exec store_sem ctx SqlEnsureBalance [AInt u, AUint32 StartBalance] w = (Inl e, w')"
    by (auto simp: BalancesRepository_EnsureBalanceCreated_def NewBalancesRepository_def
        split: prod.splits sum.splits)
  from pool_Exec_ensure [OF this] wf show ?thesis by (auto intro: bank_of_ensure wf_db_ensure)
qed

section \<open>Interpretations\<close>

lemmas interface_simps =
  PgGoodsRepository_GoodsRepository_def BalancesRepository_UserBalanceLocker_def
  NewPurchaseHandler_def NewTransactionProceeder_def BalancesRepository_BalanceEnsurer_def

interpretation pg_goods: goods_repository durable view "pg.provided_executor store_sem" bank_of wf_db
    pg_good_is "PgGoodsRepository_GoodsRepository (NewGoodsRepository (pool store_sem))"
  by unfold_locales (auto simp: interface_simps dest: GetGoodInfo_durable GetGoodInfo_found)

interpretation pg_locker: balance_locker durable view "pg.provided_executor store_sem" bank_of wf_db
    pg_good_is "BalancesRepository_UserBalanceLocker store_balances"
  by unfold_locales (auto simp: interface_simps provided_store_tx dest: Lock_durable Lock_locked)

interpretation pg_purchaser: purchase_processor durable view "pg.provided_executor store_sem"
    bank_of wf_db pg_good_is NewPurchaseHandler
  by unfold_locales (auto simp: interface_simps provided_store_tx
      dest: ProcessPurchase_durable ProcessPurchase_purchased)

interpretation pg_proceeder: transaction_proceeder durable view "pg.provided_executor store_sem"
    bank_of wf_db pg_good_is NewTransactionProceeder
  by unfold_locales (auto simp: interface_simps provided_store_tx
      dest: ProceedTransaction_durable ProceedTransaction_proceeded)

interpretation pg_ensurer: balance_ensurer durable view "pg.provided_executor store_sem"
    bank_of wf_db pg_good_is "BalancesRepository_BalanceEnsurer store_balances"
  by unfold_locales (auto simp: interface_simps dest: Ensure_ensured Ensure_failed)

end
