(* ===== verification/Store_Auth_Adapter.thy ===== *)
theory Store_Auth_Adapter
  imports Merch_Api Store_Domain Store_Contracts
begin

text \<open>
  \<open>internal/store/grpc/auth_adapter.go\<close>: the store's view of the auth service, behind the
  interfaces \<open>UsernameGetter\<close> and \<open>UserIDFetcher\<close>.
\<close>

section \<open>The adapter\<close>

text \<open>\<open>contextTimeLimit\<close> of the store's gRPC package, in milliseconds.\<close>

definition store_contextTimeLimit :: nat where
  "store_contextTimeLimit = 500"

record 'w AuthAdapter =
  aa_client :: "'w AuthServiceClient"

definition NewAuthAdapter :: "'w AuthServiceClient \<Rightarrow> 'w AuthAdapter" where
  "NewAuthAdapter client = \<lparr>aa_client = client\<rparr>"

text \<open>Ranging over the returned map and filling the new one, key by key.\<close>

fun convert_usernames :: "(int32 \<times> string) list \<Rightarrow> (goint, string) gomap \<Rightarrow> (goint, string) gomap" where
  "convert_usernames [] converted = converted"
| "convert_usernames ((userId, username) # rest) converted =
     convert_usernames rest (AList.update (int_of_int32 userId) username converted)"

definition AuthAdapter_GetUsernames ::
  "((int32 \<times> string) list \<Rightarrow> (int32 \<times> string) list) \<Rightarrow> 'w AuthAdapter \<Rightarrow> go_context \<Rightarrow> goint list \<Rightarrow>
   'w \<Rightarrow> (error + (goint, string) gomap) \<times> 'w" where
  "AuthAdapter_GetUsernames rng a ctx userIDs w =
     (let limitCtx = WithTimeout ctx store_contextTimeLimit;
          req = \<lparr>unq_UserIDs = map int32_of_int userIDs\<rparr>
      in (case asc_GetUsernames (aa_client a) limitCtx req w of
            (Inl err, w) \<Rightarrow> (Inl err, w)
          | (Inr resp, w) \<Rightarrow> (Inr (convert_usernames (rng (unr_Usernames resp)) []), w)))"

definition AuthAdapter_GetUsername ::
  "((int32 \<times> string) list \<Rightarrow> (int32 \<times> string) list) \<Rightarrow> 'w AuthAdapter \<Rightarrow> go_context \<Rightarrow> goint \<Rightarrow>
   'w \<Rightarrow> (error + string) \<times> 'w" where
  "AuthAdapter_GetUsername rng a ctx userID w =
     (case AuthAdapter_GetUsernames rng a ctx [userID] w of
        (Inl err, w) \<Rightarrow> (Inl err, w)
      | (Inr rawResult, w) \<Rightarrow> (Inr (gomap_get [] rawResult userID), w))"

definition AuthAdapter_FetchUserID ::
  "'w AuthAdapter \<Rightarrow> go_context \<Rightarrow> string \<Rightarrow> 'w \<Rightarrow> (error + goint) \<times> 'w" where
  "AuthAdapter_FetchUserID a ctx username w =
     (let limitCtx = WithTimeout ctx store_contextTimeLimit;
          req = \<lparr>uidq_Username = username\<rparr>
      in (case asc_GetUserID (aa_client a) limitCtx req w of
            (Inl err, w) \<Rightarrow> (Inl err, w)
          | (Inr resp, w) \<Rightarrow> (Inr (int_of_int32 (uidr_UserID resp)), w)))"

definition AuthAdapter_UsernameGetter ::
  "((int32 \<times> string) list \<Rightarrow> (int32 \<times> string) list) \<Rightarrow> 'w AuthAdapter \<Rightarrow> 'w UsernameGetter" where
  "AuthAdapter_UsernameGetter rng a =
     \<lparr>GetUsername = AuthAdapter_GetUsername rng a, GetUsernames = AuthAdapter_GetUsernames rng a\<rparr>"

definition AuthAdapter_UserIDFetcher :: "'w AuthAdapter \<Rightarrow> 'w UserIDFetcher" where
  "AuthAdapter_UserIDFetcher a = \<lparr>FetchUserID = AuthAdapter_FetchUserID a\<rparr>"

section \<open>Facts\<close>

lemma map_of_convert_usernames:
  "distinct (map fst m) \<Longrightarrow>
   map_of (convert_usernames m acc) k =
     (case map_of (map (\<lambda>(i, n). (int_of_int32 i, n)) m) k of None \<Rightarrow> map_of acc k | Some n \<Rightarrow> Some n)"
proof (induction m acc rule: convert_usernames.induct)
  case (2 i n rest acc)
  then have "map_of (map (\<lambda>(i, n). (int_of_int32 i, n)) rest) (int_of_int32 i) = None"
    by (force simp: map_of_eq_None_iff)
  with 2 show ?case by (auto simp: update_conv' split: option.splits)
qed simp

lemma map_of_map_int32:
  "map_of (map (\<lambda>(i, n). (int_of_int32 i, n)) m) (int_of_int32 j) = map_of m j"
  by (induction m) auto

text \<open>The order in which the map is visited does not matter.\<close>

lemma map_of_range_order:
  assumes "range_order rng" "distinct (map fst m)"
  shows "map_of (rng m) = map_of m" "distinct (map fst (rng m))"
proof -
  have "mset (map fst (rng m)) = mset (map fst m)"
    using assms(1) by (simp add: range_order_mset)
  then show d: "distinct (map fst (rng m))"
    using assms(2) by (metis mset_eq_imp_distinct_iff)
  show "map_of (rng m) = map_of m"
    using d assms by (intro map_of_eqI) (auto simp: range_order_set [OF assms(1)]
        intro: map_of_eq_Some_iff)
qed

end
