(* ===== verification/Store_Service.thy ===== *)
theory Store_Service
  imports Store_App Store_Postgres_Facts Store_Auth_Adapter Node
begin

text \<open>
  The store service put together as \<open>StoreApp.Run\<close> does it: the use cases over the PostgreSQL
  repositories and the auth adapter. The contracts are interpreted on these components, which
  gives the end-to-end properties of buying and sending coins under every schedule of failures,
  and the exact outcome on a healthy connection.
\<close>

section \<open>Wiring\<close>

type_synonym 'r store_node = "(store_db, 'r) node"

definition remote_AuthServiceClient ::
  "'r AuthServiceClient \<Rightarrow> ('d, 'r, 'z) node_scheme AuthServiceClient" where
  "remote_AuthServiceClient c =
     \<lparr>asc_Authenticate = (\<lambda>ctx req. remote_call (asc_Authenticate c ctx req)),
      asc_GetUserID = (\<lambda>ctx req. remote_call (asc_GetUserID c ctx req)),
      asc_GetUsernames = (\<lambda>ctx req. remote_call (asc_GetUsernames c ctx req))\<rparr>"

definition store_txManager :: "(store_sql, (store_db, 'z) pg_scheme) TxManager" where
  "store_txManager =
     DelegateTxManager_TxManager (NewDelegateTxManager (pool_beginner store_sem) StdoutLogger)"

definition store_purchaseCase :: "(store_sql, (store_db, 'z) pg_scheme) PurchaseCase" where
  "store_purchaseCase =
     NewPurchaseCase
       (PgGoodsRepository_GoodsRepository (NewGoodsRepository (pool store_sem)))
       (BalancesRepository_UserBalanceLocker (NewBalancesRepository (pool store_sem)))
       NewPurchaseHandler store_txManager"

definition store_sendCoinsCase ::
  "'r AuthServiceClient \<Rightarrow> (store_sql, 'r store_node) SendCoinsCase" where
  "store_sendCoinsCase client =
     NewSendCoinsCase store_txManager
       (AuthAdapter_UserIDFetcher (NewAuthAdapter (remote_AuthServiceClient client)))
       (BalancesRepository_UserBalanceLocker (NewBalancesRepository (pool store_sem)))
       (BalancesRepository_BalanceEnsurer (NewBalancesRepository (pool store_sem)))
       NewTransactionProceeder"

section \<open>The contracts hold\<close>

lemma AuthAdapter_FetchUserID_durable:
  "AuthAdapter_FetchUserID (NewAuthAdapter (remote_AuthServiceClient c)) ctx n w = (r, w') \<Longrightarrow>
   durable w' = durable w"
  by (auto simp: AuthAdapter_FetchUserID_def NewAuthAdapter_def remote_AuthServiceClient_def Let_def
      dest!: remote_call_keeps split: prod.splits sum.splits)

interpretation auth_ids: user_id_fetcher durable
    "AuthAdapter_UserIDFetcher (NewAuthAdapter (remote_AuthServiceClient c))"
  for c :: "'r AuthServiceClient"
  by unfold_locales (simp add: AuthAdapter_UserIDFetcher_def AuthAdapter_FetchUserID_durable)

interpretation buying: purchase_ports durable view "pg.provided_executor store_sem" bank_of wf_db
    pg_good_is "PgGoodsRepository_GoodsRepository (NewGoodsRepository (pool store_sem))"
    "BalancesRepository_UserBalanceLocker store_balances" NewPurchaseHandler
    "DelegateTxManager_TxManager (NewDelegateTxManager (pool_beginner store_sem) StdoutLogger)"
  by unfold_locales (rule pg_good_price)

interpretation sending: transfer_ports durable view "pg.provided_executor store_sem" bank_of wf_db
    pg_good_is "BalancesRepository_UserBalanceLocker store_balances" NewTransactionProceeder
    "BalancesRepository_BalanceEnsurer store_balances"
    "AuthAdapter_UserIDFetcher (NewAuthAdapter (remote_AuthServiceClient c))"
    "DelegateTxManager_TxManager (NewDelegateTxManager (pool_beginner store_sem) StdoutLogger)"
  for c :: "'r AuthServiceClient"
  by unfold_locales

lemmas store_cases = store_purchaseCase_def store_sendCoinsCase_def store_txManager_def

section \<open>An example\<close>

text \<open>
  The seeded store with two accounts, on a connection with a given schedule of faults, beside
  an auth service that knows the second user by name.
\<close>

definition demo_db :: store_db where
  "demo_db = migrated_db\<lparr>balances := [(1, 1000), (2, 1000)]\<rparr>"

definition demo_world :: "outcome list \<Rightarrow> unit store_node" where
  "demo_world fs =
     \<lparr>durable = demo_db, tx_state = TxClosed, faults = fs, logs = [], remote = ()\<rparr>"

definition demo_auth :: "'w AuthServiceClient" where
  "demo_auth =
     \<lparr>asc_Authenticate = (\<lambda>_ _ w. (Inl (StatusError Unimplemented []), w)),
      asc_GetUserID = (\<lambda>_ req w.
        (if uidq_Username req = ''bob'' then Inr \<lparr>uidr_UserID = 2\<rparr>
         else Inl (StatusError NotFound ''user not found''), w)),
      asc_GetUsernames = (\<lambda>_ _ w. (Inr \<lparr>unr_Usernames = [(1, ''alice''), (2, ''bob'')]\<rparr>, w))\<rparr>"

lemma demo_world_simps [simp]:
  "durable (demo_world fs) = demo_db" "calm (demo_world []) = True" "remote (demo_world fs) = ()"
  by (simp_all add: demo_world_def calm_def)

lemma wf_demo_db [simp]: "wf_db demo_db"
  by (simp add: wf_db_def demo_db_def migrated_db_def seed_goods_def int4_range_def)

lemma wf_demo: "wf_db (durable (demo_world fs))"
  by simp

lemma audit_demo_db [simp]: "audit (bank_of demo_db)"
  by (auto simp: audit_def bank_of_def demo_db_def migrated_db_def seed_goods_def spent_def sent_def
      received_def start_coins_def coin_limit_def split: if_splits)

text \<open>The definitions that a concrete run of a use case unfolds.\<close>

lemmas run_defs =
  PurchaseCase_BuyItem_def NewPurchaseCase_def buy_item_tx_def SendCoinsCase_SendCoins_def
  NewSendCoinsCase_def send_coins_tx_def store_cases interface_simps
  NewGoodsRepository_def GoodsRepository_GetGoodInfo_def NewBalancesRepository_def
  BalancesRepository_LockAndGetUserBalance_def BalancesRepository_EnsureBalanceCreated_def
  PurchaseHandler_ProcessPurchase_def TransactionProceeder_ProceedTransaction_def
  AuthAdapter_UserIDFetcher_def AuthAdapter_FetchUserID_def NewAuthAdapter_def
  remote_AuthServiceClient_def remote_call_def demo_auth_def StartBalance_def
  int_of_int32_def
  DelegateTxManager_WithinTransaction_def NewDelegateTxManager_def deferred_rollback_def
  pool_BeginTx_def pool_QueryRow_def pool_Exec_def tx_QueryRow_def tx_Exec_def tx_run_def
  tx_Commit_def tx_Rollback_def next_outcome_def first_row_def
  store_query_cases store_exec_cases sql_good_rows_def sql_balance_rows_def
  sql_update_balance_def sql_insert_purchase_def sql_insert_transaction_def
  sql_ensure_balance_start has_account_def has_good_def update_rows_def matching_rows_def
  int_cell_def text_cell_def int4_range_def background_def demo_world_def demo_db_def
  migrated_db_def seed_goods_def

section \<open>Every outcome under every schedule of failures\<close>

text \<open>
  C5. Buying is atomic and implements the abstract purchase. From any well-formed database, for
  any schedule of connection and server failures: success means that exactly the abstract
  purchase has been committed (the user had the coins, paid the price once and owns one more
  item); an error means that the committed database is unchanged, except that a commit whose
  acknowledgement failed may already be durable.
\<close>

theorem BuyItem_atomic:
  assumes wf: "wf_db (durable w)"
    and run: "PurchaseCase_BuyItem store_purchaseCase ctx u item w = (res, w')"
  shows "wf_db (durable w') \<and>
    (case res of
       None \<Rightarrow> bank_buy (sint u) item (bank_of (durable w)) = Inr (bank_of (durable w'))
     | Some err \<Rightarrow> durable w' = durable w \<or>
         (\<exists>e. err = WrapError ''failed to commit transaction'' e) \<and>
         bank_buy (sint u) item (bank_of (durable w)) = Inr (bank_of (durable w')))"
proof (cases res)
  case None
  from buying.BuyItem_committed [OF wf run [unfolded store_cases None]] None show ?thesis by simp
next
  case (Some err)
  from buying.BuyItem_failed [OF wf run [unfolded store_cases Some]] Some wf show ?thesis by auto
qed


text \<open>A purchase whose commit is acknowledged too late: durable, and reported as an error.\<close>

theorem BuyItem_atomic_witness:
  "\<exists>err w'. PurchaseCase_BuyItem store_purchaseCase background 1 ''cup''
      (demo_world [Done, Done, Done, Done, Done, Late ''timeout'']) = (Some err, w') \<and>
    bank_buy 1 ''cup'' (bank_of demo_db) = Inr (bank_of (durable w'))"
proof -
  let ?run = "PurchaseCase_BuyItem store_purchaseCase background 1 ''cup''
    (demo_world [Done, Done, Done, Done, Done, Late ''timeout''])"
  obtain w' where run: "?run = (Some (WrapError ''failed to commit transaction''
      (OpaqueError ''timeout'')), w')" and d: "balances (durable w') = [(1, 980), (2, 1000)]"
    by (simp add: run_defs)
  from d have "durable w' \<noteq> demo_db" by (auto simp: demo_db_def)
  with BuyItem_atomic [OF wf_demo run] run show ?thesis by auto
qed

text \<open>
  C6. Sending coins is atomic and implements the abstract transfer, under every schedule of
  failures and whatever the auth service answers. Success means that the auth service named a
  receiver other than the sender, that the receiver's account was opened if needed and that
  exactly the abstract transfer has been committed. An error means that nothing happened, or
  that only the receiver's account has been opened, or that the transfer is durable although
  its commit was reported as failed.
\<close>

theorem SendCoins_atomic:
  assumes wf: "wf_db (durable w)"
    and run: "SendCoinsCase_SendCoins (store_sendCoinsCase client) ctx f name a w = (res, w')"
  shows "wf_db (durable w') \<and>
    (res \<noteq> None \<and> durable w' = durable w \<or>
     (\<exists>resp r'. asc_GetUserID client (WithTimeout ctx store_contextTimeLimit)
          \<lparr>uidq_Username = name\<rparr> (remote w) = (Inr resp, r') \<and>
        (let t = sint (uidr_UserID resp); opened = bank_open t (bank_of (durable w));
             moved = bank_transfer (sint f) t (uint a) opened
         in t \<noteq> sint f \<and>
           (case res of
              None \<Rightarrow> moved = Inr (bank_of (durable w'))
            | Some err \<Rightarrow> bank_of (durable w') = opened \<or>
                (\<exists>e. err = WrapError ''failed to commit transaction'' e) \<and>
                moved = Inr (bank_of (durable w'))))))"
proof -
  have fetch: "\<exists>resp r'. asc_GetUserID client (WithTimeout ctx store_contextTimeLimit)
      \<lparr>uidq_Username = name\<rparr> (remote w) = (Inr resp, r') \<and> t = int_of_int32 (uidr_UserID resp)"
    if "FetchUserID (AuthAdapter_UserIDFetcher (NewAuthAdapter (remote_AuthServiceClient client)))
      ctx name w = (Inr t, w0)" for t w0
    using that by (auto simp: AuthAdapter_UserIDFetcher_def AuthAdapter_FetchUserID_def Let_def
        NewAuthAdapter_def remote_AuthServiceClient_def remote_call_def
        split: prod.splits sum.splits)
  have ne: "t \<noteq> f \<Longrightarrow> sint t \<noteq> sint f" for t :: goint using sint_goint_inject by blast
  show ?thesis
  proof (cases res)
    case None
    from sending.SendCoins_committed [OF wf run [unfolded store_cases None]] None fetch ne
    show ?thesis by (fastforce simp: Let_def)
  next
    case (Some err)
    from sending.SendCoins_failed [OF wf run [unfolded store_cases Some]] Some fetch ne wf
    show ?thesis by (fastforce simp: Let_def)
  qed
qed

theorem SendCoins_atomic_witness:
  "\<exists>w'. SendCoinsCase_SendCoins (store_sendCoinsCase demo_auth) background 1 ''bob'' 30
      (demo_world []) = (None, w') \<and>
    bank_transfer 1 2 30 (bank_open 2 (bank_of demo_db)) = Inr (bank_of (durable w'))"
proof -
  obtain w' where run: "SendCoinsCase_SendCoins (store_sendCoinsCase demo_auth) background 1
      ''bob'' 30 (demo_world []) = (None, w')"
    by (simp add: run_defs)
  from SendCoins_atomic [OF wf_demo run] run show ?thesis by (auto simp: demo_auth_def Let_def)
qed

text \<open>
  C25. Bounds. A transfer that is reported as done has moved exactly the requested amount from
  the sender to the account that the auth service named, another one: the sender had at least
  that much and loses it once; the receiver, who starts with 1000 coins if the account is new,
  gains it once and stays within the database's \<open>INTEGER\<close>, as does the amount itself; no other
  account, no purchase and no price changes, and the history gains this one entry. This holds
  under every schedule of failures.
\<close>

theorem SendCoins_bounds:
  assumes wf: "wf_db (durable w)" and au: "audit (bank_of (durable w))"
    and run: "SendCoinsCase_SendCoins (store_sendCoinsCase client) ctx f name a w = (None, w')"
  shows "\<exists>resp r' v r. asc_GetUserID client (WithTimeout ctx store_contextTimeLimit)
      \<lparr>uidq_Username = name\<rparr> (remote w) = (Inr resp, r') \<and>
    (let t = sint (uidr_UserID resp); b = bank_of (durable w) in
       t \<noteq> sint f \<and> accounts b (sint f) = Some v \<and>
       r = (case accounts b t of None \<Rightarrow> start_coins | Some r \<Rightarrow> r) \<and>
       uint a \<le> coin_limit \<and> uint a \<le> v \<and> 0 \<le> r \<and> r + uint a \<le> coin_limit \<and>
       bank_of (durable w') =
         b\<lparr>accounts := (accounts b)(sint f \<mapsto> v - uint a, t \<mapsto> r + uint a),
           ledger := ledger b @ [(sint f, t, uint a)]\<rparr>)"
proof -
  from sending.SendCoins_committed [OF wf run [unfolded store_cases]] obtain t w0 where
      fetch: "FetchUserID (AuthAdapter_UserIDFetcher (NewAuthAdapter (remote_AuthServiceClient client)))
        ctx name w = (Inr t, w0)"
      and ne: "t \<noteq> f" and m: "bank_transfer (sint f) (sint t) (uint a)
        (bank_open (sint t) (bank_of (durable w))) = Inr (bank_of (durable w'))" by auto
  from fetch obtain resp r' where g: "asc_GetUserID client (WithTimeout ctx store_contextTimeLimit)
      \<lparr>uidq_Username = name\<rparr> (remote w) = (Inr resp, r')" "sint t = sint (uidr_UserID resp)"
    by (auto simp: AuthAdapter_UserIDFetcher_def AuthAdapter_FetchUserID_def Let_def
        NewAuthAdapter_def remote_AuthServiceClient_def remote_call_def
        split: prod.splits sum.splits)
  have ne': "sint t \<noteq> sint f" using ne sint_goint_inject by blast
  from bank_transfer_opened [OF m au] obtain v r where
    "accounts (bank_of (durable w)) (sint f) = Some v"
    "r = (case accounts (bank_of (durable w)) (sint t) of None \<Rightarrow> start_coins | Some r \<Rightarrow> r)"
    "uint a \<le> coin_limit" "uint a \<le> v" "0 \<le> r" "r + uint a \<le> coin_limit"
    "bank_of (durable w') = (bank_of (durable w))\<lparr>accounts := (accounts (bank_of (durable w)))
       (sint f \<mapsto> v - uint a, sint t \<mapsto> r + uint a),
       ledger := ledger (bank_of (durable w)) @ [(sint f, sint t, uint a)]\<rparr>" .
  with g ne' show ?thesis by (simp add: Let_def)
qed

theorem SendCoins_bounds_witness:
  "\<exists>w'. SendCoinsCase_SendCoins (store_sendCoinsCase demo_auth) background 1 ''bob'' 1000
      (demo_world []) = (None, w') \<and> accounts (bank_of (durable w')) 1 = Some 0 \<and>
    accounts (bank_of (durable w')) 2 = Some 2000"
proof -
  obtain w' where run: "SendCoinsCase_SendCoins (store_sendCoinsCase demo_auth) background 1
      ''bob'' 1000 (demo_world []) = (None, w')"
    by (simp add: run_defs)
  have "accounts (bank_of demo_db) 1 = Some 1000" "accounts (bank_of demo_db) 2 = Some 1000"
    by (simp_all add: bank_of_def demo_db_def)
  with SendCoins_bounds [OF wf_demo _ run] run show ?thesis by (auto simp: demo_auth_def Let_def)
qed

end
