(* ===== verification/Store_Outcomes.thy ===== *)
theory Store_Outcomes
  imports Store_Service
begin

text \<open>
  The store on a healthy connection (\<open>calm\<close>: no fault is scheduled): each repository call in
  closed form, and from these the exact outcome of the two use cases, error values included.
  Together with the theorems of \<open>Store_Service\<close>, which hold under every schedule of failures,
  this says that a purchase or a transfer is refused for the reasons of \<open>Bank_Spec\<close> and for no
  other reason.
\<close>

section \<open>The driver without faults\<close>

lemma reopen [simp]: "tx_state w = TxOpen d \<Longrightarrow> w\<lparr>tx_state := TxOpen d\<rparr> = w"
  by (cases w) simp

lemma keeps_tx_state [simp]: "\<exists>ts. w = w\<lparr>tx_state := ts\<rparr>"
  by (rule exI [of _ "tx_state w"]) simp

lemma pool_QueryRow_calm:
  assumes "calm w" "\<not> cancelled ctx"
  shows "pool_QueryRow store_sem ctx q args w =
    (case store_query q args (durable w) of Inl e \<Rightarrow> (Inl e, w) | Inr (rs, d) \<Rightarrow> (first_row rs, w))"
  using assms store_query_pure
  by (fastforce simp: pool_QueryRow_def split: sum.splits)

lemma pool_Query_calm:
  assumes "calm w" "\<not> cancelled ctx"
  shows "pool_Query store_sem ctx q args w =
    (case store_query q args (durable w) of Inl e \<Rightarrow> (Inl e, w)
     | Inr (rs, d) \<Rightarrow> (Inr \<lparr>rows_data = rs, rows_Err = None\<rparr>, w))"
  using assms store_query_pure
  by (fastforce simp: pool_Query_def split: sum.splits)

lemma tx_QueryRow_calm:
  assumes "calm w" "\<not> cancelled ctx" "tx_state w = TxOpen d"
    and "store_query q args d = Inr (rs, d')"
  shows "tx_QueryRow store_sem ctx q args w = (first_row rs, w)"
  using assms store_query_pure [OF assms(4)] by (simp add: tx_QueryRow_def tx_run_calm)

lemma tx_Exec_calm:
  assumes "calm w" "\<not> cancelled ctx" "tx_state w = TxOpen d"
  shows "tx_Exec store_sem ctx q args w =
    (case store_exec q args d of Inl e \<Rightarrow> (Inl e, w\<lparr>tx_state := TxFailed\<rparr>)
     | Inr (n, d') \<Rightarrow> (Inr n, w\<lparr>tx_state := TxOpen d'\<rparr>))"
  using assms by (simp add: tx_Exec_def tx_run_calm)

lemma within_calm_committed:
  assumes "calm w" "\<not> cancelled ctx"
    and "txFn ctx store_tx (w\<lparr>tx_state := TxOpen (durable w)\<rparr>) = (None, w\<lparr>tx_state := TxOpen d\<rparr>)"
  shows "WithinTransaction store_txManager ctx txFn w =
    (None, w\<lparr>durable := d, tx_state := TxClosed\<rparr>)"
  using assms
  by (simp add: store_txManager_def DelegateTxManager_WithinTransaction_def
      NewDelegateTxManager_def pool_BeginTx_def tx_Commit_def deferred_rollback_def tx_Rollback_def)

lemma within_calm_failed:
  assumes "calm w" "\<not> cancelled ctx" "ts \<noteq> TxClosed"
    and "txFn ctx store_tx (w\<lparr>tx_state := TxOpen (durable w)\<rparr>) = (Some err, w\<lparr>tx_state := ts\<rparr>)"
  shows "WithinTransaction store_txManager ctx txFn w =
    (Some (WrapError ''failed to execute logic within transaction'' err), w\<lparr>tx_state := TxClosed\<rparr>)"
  using assms
  by (cases ts)
    (simp_all add: store_txManager_def DelegateTxManager_WithinTransaction_def
      NewDelegateTxManager_def pool_BeginTx_def deferred_rollback_def tx_Rollback_def)

section \<open>The repositories without faults\<close>

definition good_info_of :: "good_row \<Rightarrow> GoodInfo" where
  "good_info_of g =
     \<lparr>gi_Id = word_of_int (good_id g), gi_Name = good_name g, gi_Price = word_of_int (good_price g)\<rparr>"

lemma GetGoodInfo_calm:
  assumes "calm w" "\<not> cancelled ctx" "wf_db (durable w)" "audit (bank_of (durable w))"
  shows "GoodsRepository_GetGoodInfo (NewGoodsRepository (pool store_sem)) ctx n w =
    (case find_good (durable w) n of
       None \<Rightarrow> (Inl (StoreError (GoodNotFoundError (''good '' @ n @ '' not found''))), w)
     | Some g \<Rightarrow> (Inr (good_info_of g), w))"
proof (cases "find_good (durable w) n")
  case None
  with assms show ?thesis
    by (simp add: GoodsRepository_GetGoodInfo_def NewGoodsRepository_def pool_QueryRow_calm
        store_query_cases sql_good_rows_eq first_row_def)
next
  case (Some g)
  then have "prices (bank_of (durable w)) n = Some (good_price g)"
    by (simp add: prices_bank_of)
  then have "0 \<le> good_price g" using auditD(5) [OF assms(4)] by blast
  with Some assms find_good_range [OF assms(3) Some] show ?thesis
    by (simp add: GoodsRepository_GetGoodInfo_def NewGoodsRepository_def pool_QueryRow_calm
        store_query_cases sql_good_rows_eq first_row_def scan_uint32_int_cell good_info_of_def)
qed

lemma Lock_calm:
  assumes "calm w" "\<not> cancelled ctx" "tx_state w = TxOpen d" "wf_db d" "int4_range (sint u)"
  shows "BalancesRepository_LockAndGetUserBalance br ctx store_tx u w =
    (case map_of (balances d) (sint u) of
       None \<Rightarrow> (Inl (StoreError (UserNotFoundError
                 (''user with id '' @ show_int (sint u) @ '' not found''))), w)
     | Some v \<Rightarrow> (Inr (word_of_int v), w))"
  using assms wf_db_balance [OF assms(4), of "sint u"]
  by (simp add: BalancesRepository_LockAndGetUserBalance_def tx_QueryRow_calm store_query_cases
      sql_balance_rows_eq first_row_def scan_uint32_int_cell split: option.split)

lemma Ensure_calm:
  assumes "calm w" "\<not> cancelled ctx" "int4_range (sint u)"
  shows "\<exists>d. BalancesRepository_EnsureBalanceCreated store_balances ctx u StartBalance w =
      (None, w\<lparr>durable := d\<rparr>) \<and> (\<exists>n. sql_ensure_balance (sint u) 1000 (durable w) = Inr (n, d))"
  using assms
  by (auto simp: BalancesRepository_EnsureBalanceCreated_def NewBalancesRepository_def pool_Exec_def
      store_exec_cases StartBalance_def int4_range_def sql_ensure_balance_start)

section \<open>Buying\<close>

text \<open>How the store reports the refusals of \<open>bank_buy\<close>.\<close>

definition in_transaction :: "error \<Rightarrow> error" where
  "in_transaction err = WrapError ''failed to execute logic within transaction'' err"

fun buy_refusal :: "goint \<Rightarrow> string \<Rightarrow> refusal \<Rightarrow> error" where
  "buy_refusal u item NoSuchItem =
     WrapError ''failed to get good info''
       (StoreError (GoodNotFoundError (''good '' @ item @ '' not found'')))"
| "buy_refusal u item NoAccount =
     in_transaction (WrapError ''failed to lock and get user balance''
       (StoreError (UserNotFoundError (''user with id '' @ show_int (sint u) @ '' not found''))))"
| "buy_refusal u item _ =
     in_transaction (StoreError (InsufficientBalanceError ''insufficient balance''))"

lemma buy_item_tx_calm:
  assumes w: "calm w" "\<not> cancelled ctx" "tx_state w = TxOpen d"
    and wf: "wf_db d" and u: "int4_range (sint u)"
    and g: "find_good d item = Some g" "0 \<le> good_price g"
  shows "case bank_buy (sint u) item (bank_of d) of
      Inl r \<Rightarrow> buy_item_tx store_purchaseCase u (good_info_of g) ctx store_tx w =
        (case buy_refusal u item r of WrapError s e \<Rightarrow> (Some e, w))
    | Inr b \<Rightarrow> \<exists>d'. buy_item_tx store_purchaseCase u (good_info_of g) ctx store_tx w =
        (None, w\<lparr>tx_state := TxOpen d'\<rparr>) \<and> bank_of d' = b \<and> wf_db d'"
proof (cases "map_of (balances d) (sint u)")
  case None
  with assms show ?thesis
    by (simp add: bank_buy_def prices_bank_of accounts_bank_of buy_item_tx_def store_purchaseCase_def
        NewPurchaseCase_def interface_simps Lock_calm in_transaction_def)
next
  case (Some v)
  note rng = wf_db_balance [OF wf Some] find_good_range [OF wf g(1)]
  show ?thesis
  proof (cases "v < good_price g")
    case True
    with Some assms rng show ?thesis
      by (simp add: bank_buy_def prices_bank_of accounts_bank_of buy_item_tx_def
          store_purchaseCase_def NewPurchaseCase_def interface_simps Lock_calm in_transaction_def
          good_info_of_def word_less_def uint_uint32_of_int4)
  next
    case False
    define d1 where "d1 = d\<lparr>balances :=
      update_rows (sint u) (\<lambda>_. True) (\<lambda>b. b - good_price g) (balances d)\<rparr>"
    have s1: "sql_update_balance (sint u) (\<lambda>_. True) (\<lambda>b. b - good_price g) d = Inr (1, d1)"
      using Some False rng g(2) by (simp add: sql_update_balance_eq [OF wf] d1_def int4_range_def)
    obtain d2 where s2: "sql_insert_purchase (sint u) (good_id g) d1 = Inr (1, d2)"
      using Some rng by (simp add: sql_insert_purchase_def d1_def) (simp add: has_account_def)
    have b: "bank_buy (sint u) item (bank_of d) = Inr (bank_of d2)" "wf_db d2"
      using purchase_refines [OF wf g(1) Some _ s1 s2] False by simp_all
    have "buy_item_tx store_purchaseCase u (good_info_of g) ctx store_tx w =
        (None, w\<lparr>tx_state := TxOpen d2\<rparr>)"
      using Some False assms rng s1 s2
      by (simp add: buy_item_tx_def store_purchaseCase_def NewPurchaseCase_def interface_simps
          Lock_calm good_info_of_def word_less_def uint_uint32_of_int4 sint_goint_of_int4
          PurchaseHandler_ProcessPurchase_def tx_Exec_calm store_exec_cases)
    with b show ?thesis by auto
  qed
qed


lemma BuyItem_calm:
  assumes w: "calm w" "\<not> cancelled ctx" and wf: "wf_db (durable w)"
    and au: "audit (bank_of (durable w))" and u: "int4_range (sint u)"
  shows "case bank_buy (sint u) item (bank_of (durable w)) of
      Inl r \<Rightarrow> \<exists>ts. PurchaseCase_BuyItem store_purchaseCase ctx u item w =
        (Some (buy_refusal u item r), w\<lparr>tx_state := ts\<rparr>)
    | Inr b \<Rightarrow> \<exists>d. PurchaseCase_BuyItem store_purchaseCase ctx u item w =
        (None, w\<lparr>durable := d, tx_state := TxClosed\<rparr>) \<and> bank_of d = b \<and> wf_db d"
proof (cases "find_good (durable w) item")
  case None
  with w wf au have "PurchaseCase_BuyItem store_purchaseCase ctx u item w =
      (Some (buy_refusal u item NoSuchItem), w\<lparr>tx_state := tx_state w\<rparr>)"
    by (simp add: PurchaseCase_BuyItem_def store_purchaseCase_def NewPurchaseCase_def
        interface_simps GetGoodInfo_calm)
  with None show ?thesis by (auto simp: bank_buy_def prices_bank_of)
next
  case (Some g)
  then have "prices (bank_of (durable w)) item = Some (good_price g)" by (simp add: prices_bank_of)
  then have "0 \<le> good_price g" using auditD(5) [OF au] by blast
  note tx = buy_item_tx_calm [of "w\<lparr>tx_state := TxOpen (durable w)\<rparr>", simplified,
      OF w refl wf u Some this]
  have buy: "PurchaseCase_BuyItem store_purchaseCase ctx u item w =
      WithinTransaction store_txManager ctx (buy_item_tx store_purchaseCase u (good_info_of g)) w"
    using Some w wf au
    by (simp add: PurchaseCase_BuyItem_def GetGoodInfo_calm)
      (simp add: store_purchaseCase_def NewPurchaseCase_def interface_simps GetGoodInfo_calm)
  show ?thesis
  proof (cases "bank_buy (sint u) item (bank_of (durable w))")
    case (Inr b)
    with tx obtain d' where "buy_item_tx store_purchaseCase u (good_info_of g) ctx store_tx
        (w\<lparr>tx_state := TxOpen (durable w)\<rparr>) = (None, w\<lparr>tx_state := TxOpen d'\<rparr>)"
      "bank_of d' = b" "wf_db d'" by auto
    with within_calm_committed [where txFn = "buy_item_tx store_purchaseCase u (good_info_of g)",
        OF w this(1)] Inr buy show ?thesis by auto
  next
    case (Inl r)
    with Some have "r \<noteq> NoSuchItem"
      by (auto simp: bank_buy_def prices_bank_of split: option.splits if_splits)
    with within_calm_failed [OF w, of "TxOpen (durable w)"] Inl tx buy show ?thesis
      by (cases r) (simp_all add: in_transaction_def, blast+)
  qed
qed

text \<open>
  C7. The exact outcome of a purchase on a healthy connection. The code's answer, with its error
  value, and the committed state are those of the abstract purchase: it succeeds exactly when
  the item exists, the user has an account and the price is covered, and each refusal is
  reported as the corresponding domain error and changes nothing.
\<close>

theorem BuyItem_outcome:
  assumes "calm w" "\<not> cancelled ctx" "wf_db (durable w)" "audit (bank_of (durable w))"
    "int4_range (sint u)"
  shows "\<exists>w'. PurchaseCase_BuyItem store_purchaseCase ctx u item w =
      (case bank_buy (sint u) item (bank_of (durable w)) of
         Inl r \<Rightarrow> Some (buy_refusal u item r) | Inr b \<Rightarrow> None, w') \<and>
    bank_of (durable w') =
      (case bank_buy (sint u) item (bank_of (durable w)) of
         Inl r \<Rightarrow> bank_of (durable w) | Inr b \<Rightarrow> b) \<and>
    calm w' \<and> logs w' = logs w"
  using BuyItem_calm [OF assms, of item] assms(1) by (auto split: sum.splits)

theorem BuyItem_outcome_witness:
  "\<exists>w'. PurchaseCase_BuyItem store_purchaseCase background 2 ''pink-hoody'' (demo_world []) =
      (None, w') \<and> accounts (bank_of (durable w')) 2 = Some 500"
proof -
  have "bank_buy 2 ''pink-hoody'' (bank_of demo_db) = Inr ((bank_of demo_db)
      \<lparr>accounts := (accounts (bank_of demo_db))(2 \<mapsto> 500), bought := [(2, ''pink-hoody'')]\<rparr>)"
    by (simp add: bank_buy_def bank_of_def demo_db_def migrated_db_def seed_goods_def)
  with BuyItem_outcome [of "demo_world []" background 2 "''pink-hoody''"] show ?thesis
    by (auto simp: background_def int4_range_def)
qed

section \<open>Sending coins\<close>

text \<open>
  The abstract operation: coins can be sent to anyone but oneself, and the receiver's account
  is opened first. It is the refused operation's state that is new here: a refused transfer
  leaves the receiver's account open.
\<close>

definition bank_send :: "int \<Rightarrow> int \<Rightarrow> int \<Rightarrow> bank \<Rightarrow> refusal option \<times> bank" where
  "bank_send f t a b =
     (if f = t then (Some SelfTransfer, b)
      else (case bank_transfer f t a (bank_open t b) of
        Inl r \<Rightarrow> (Some r, bank_open t b) | Inr b' \<Rightarrow> (None, b')))"

fun send_refusal :: "goint \<Rightarrow> refusal \<Rightarrow> error" where
  "send_refusal f SelfTransfer =
     StoreError (InvalidArgumentsError ''from_user must differ from to_user'')"
| "send_refusal f NoAccount =
     in_transaction (WrapError (''failed to lock and get balance for user '' @ show_int (sint f))
       (StoreError (UserNotFoundError (''user with id '' @ show_int (sint f) @ '' not found''))))"
| "send_refusal f TooMuch =
     in_transaction (WrapError ''failed to proceed transaction''
       (WrapError ''failed to update balance for toUser'' out_of_range))"
| "send_refusal f _ =
     in_transaction (StoreError (InsufficientBalanceError
       (''user '' @ show_int (sint f) @ '' has insufficient balance'')))"

lemma int4_le: "int4_range v \<Longrightarrow> 0 \<le> a \<Longrightarrow> a \<le> v \<Longrightarrow> int4_range a \<and> int4_range (v - a)"
  by (auto simp: int4_range_def)

text \<open>The debit, the credit and the ledger entry, once the guard has been passed.\<close>

lemma ProceedTransaction_calm:
  assumes w: "calm w" "\<not> cancelled ctx" "tx_state w = TxOpen d"
    and wf: "wf_db d" and f: "int4_range (sint f)" and ne: "t \<noteq> f" and t: "int4_range (sint t)"
    and v: "map_of (balances d) (sint f) = Some v" "uint a \<le> v"
    and r: "map_of (balances d) (sint t) = Some r"
  shows "case bank_transfer (sint f) (sint t) (uint a) (bank_of d) of
      Inl e \<Rightarrow> e = TooMuch \<and> TransactionProceeder_ProceedTransaction ctx store_tx a f t w =
        (Some (WrapError ''failed to update balance for toUser'' out_of_range),
         w\<lparr>tx_state := TxFailed\<rparr>)
    | Inr b \<Rightarrow> \<exists>d'. TransactionProceeder_ProceedTransaction ctx store_tx a f t w =
        (None, w\<lparr>tx_state := TxOpen d'\<rparr>) \<and> bank_of d' = b \<and> wf_db d'"
proof -
  have ne': "sint f \<noteq> sint t" using ne sint_goint_inject by blast
  have a: "int4_range (uint a)" "int4_range (v - uint a)"
    using v(2) int4_le [OF wf_db_balance(3) [OF wf v(1)]] by simp_all
  define d1 where "d1 = d\<lparr>balances :=
    update_rows (sint f) (\<lambda>b. uint a \<le> b) (\<lambda>b. b - uint a) (balances d)\<rparr>"
  have s1: "sql_update_balance (sint f) (\<lambda>b. uint a \<le> b) (\<lambda>b. b - uint a) d = Inr (1, d1)"
    using v a by (simp add: sql_update_balance_eq [OF wf] d1_def)
  have wf1: "wf_db d1" using wf s1 by (rule wf_db_update_balance)
  have r1: "map_of (balances d1) (sint t) = Some r"
    using v r ne' by (simp add: d1_def map_of_update_rows_fun)
  note rng = wf_db_balance [OF wf r]
  note run = TransactionProceeder_ProceedTransaction_def tx_Exec_calm store_exec_cases
  show ?thesis
  proof (cases "r + uint a \<le> coin_limit")
    case False
    then have "sql_update_balance (sint t) (\<lambda>_. True) (\<lambda>b. b + uint a) d1 = Inl out_of_range"
      using r1 by (simp add: sql_update_balance_eq [OF wf1] int4_range_def coin_limit_def)
    moreover have "bank_transfer (sint f) (sint t) (uint a) (bank_of d) = Inl TooMuch"
      using False v r ne' by (simp add: bank_transfer_def accounts_bank_of)
    ultimately show ?thesis using w f t a s1 by (simp add: run)
  next
    case True
    define d2 where "d2 = d1\<lparr>balances :=
      update_rows (sint t) (\<lambda>_. True) (\<lambda>b. b + uint a) (balances d1)\<rparr>"
    have "0 \<le> r + uint a" using rng(2) by simp
    with True have s2: "sql_update_balance (sint t) (\<lambda>_. True) (\<lambda>b. b + uint a) d1 = Inr (1, d2)"
      using r1 by (simp add: sql_update_balance_eq [OF wf1] d2_def int4_range_def coin_limit_def)
    have "has_account d2 = has_account d"
      unfolding d2_def has_account_update_rows unfolding d1_def has_account_update_rows ..
    then have "has_account d2 (sint f)" "has_account d2 (sint t)"
      using v r by (simp_all add: has_account_def)
    then obtain d3 where s3: "sql_insert_transaction (sint f) (sint t) (uint a) d2 = Inr (1, d3)"
      by (simp add: sql_insert_transaction_def)
    from transfer_refines [OF wf ne' a(1) s1 _ s2 s3]
    have b: "bank_transfer (sint f) (sint t) (uint a) (bank_of d) = Inr (bank_of d3)" "wf_db d3"
      by simp_all
    have "TransactionProceeder_ProceedTransaction ctx store_tx a f t w =
        (None, w\<lparr>tx_state := TxOpen d3\<rparr>)"
      using w f t a s1 s2 s3 by (simp add: run)
    with b show ?thesis by auto
  qed
qed

lemma send_coins_tx_calm:
  assumes w: "calm w" "\<not> cancelled ctx" "tx_state w = TxOpen d"
    and wf: "wf_db d" and f: "int4_range (sint f)" and ne: "t \<noteq> f"
    and t: "int4_range (sint t)" "has_account d (sint t)"
  shows "case bank_transfer (sint f) (sint t) (uint a) (bank_of d) of
      Inl r \<Rightarrow> \<exists>ts. ts \<noteq> TxClosed \<and> send_coins_tx (store_sendCoinsCase client) f t a ctx store_tx w =
        (case send_refusal f r of WrapError s e \<Rightarrow> (Some e, w\<lparr>tx_state := ts\<rparr>)) \<and> r \<noteq> SelfTransfer
    | Inr b \<Rightarrow> \<exists>d'. send_coins_tx (store_sendCoinsCase client) f t a ctx store_tx w =
        (None, w\<lparr>tx_state := TxOpen d'\<rparr>) \<and> bank_of d' = b \<and> wf_db d'"
proof -
  have ne': "sint f \<noteq> sint t" using ne sint_goint_inject by blast
  note unf = send_coins_tx_def store_sendCoinsCase_def NewSendCoinsCase_def interface_simps
  obtain r where r: "map_of (balances d) (sint t) = Some r" using t by (auto simp: has_account_def)
  show ?thesis
  proof (cases "map_of (balances d) (sint f)")
    case None
    with w wf f ne' have "send_coins_tx (store_sendCoinsCase client) f t a ctx store_tx w =
        (case send_refusal f NoAccount of WrapError s e \<Rightarrow> (Some e, w\<lparr>tx_state := TxOpen d\<rparr>))"
      by (simp add: unf Lock_calm in_transaction_def)
    moreover have "bank_transfer (sint f) (sint t) (uint a) (bank_of d) = Inl NoAccount"
      using None ne' by (simp add: bank_transfer_def accounts_bank_of)
    ultimately show ?thesis by (auto simp del: send_refusal.simps intro: exI [of _ "TxOpen d"])
  next
    case (Some v)
    note rng = wf_db_balance [OF wf Some]
    have v: "uint (word_of_int v :: uint32) = v" using rng by (simp add: uint_uint32_of_int4)
    show ?thesis
    proof (cases "v < uint a")
      case True
      with w wf f ne' Some v have "send_coins_tx (store_sendCoinsCase client) f t a ctx store_tx w =
          (case send_refusal f Insufficient of WrapError s e \<Rightarrow> (Some e, w\<lparr>tx_state := TxOpen d\<rparr>))"
        by (simp add: unf Lock_calm in_transaction_def word_less_def)
      moreover have "bank_transfer (sint f) (sint t) (uint a) (bank_of d) = Inl Insufficient"
        using Some True ne' r by (simp add: bank_transfer_def accounts_bank_of)
      ultimately show ?thesis by (auto simp del: send_refusal.simps intro: exI [of _ "TxOpen d"])
    next
      case False
      then have le: "uint a \<le> v" by simp
      have "send_coins_tx (store_sendCoinsCase client) f t a ctx store_tx w =
          (case TransactionProceeder_ProceedTransaction ctx store_tx a f t w of
             (Some err, w) \<Rightarrow> (Some (WrapError ''failed to proceed transaction'' err), w)
           | (None, w) \<Rightarrow> (None, w))"
        using w wf f Some v False by (simp add: unf Lock_calm word_less_def)
      with ProceedTransaction_calm [OF w wf f ne t(1) Some le r] show ?thesis
        by (auto simp: in_transaction_def split: sum.splits intro: exI [of _ TxFailed])
    qed
  qed
qed

lemma SendCoins_calm:
  assumes w: "calm w" "\<not> cancelled ctx" and wf: "wf_db (durable w)"
    and f: "int4_range (sint f)"
    and auth: "asc_GetUserID client (WithTimeout ctx store_contextTimeLimit)
        \<lparr>uidq_Username = name\<rparr> (remote w) = (Inr resp, r')"
  shows "\<exists>w'. SendCoinsCase_SendCoins (store_sendCoinsCase client) ctx f name a w =
      (map_option (send_refusal f)
         (fst (bank_send (sint f) (sint (uidr_UserID resp)) (uint a) (bank_of (durable w)))), w') \<and>
    bank_of (durable w') =
      snd (bank_send (sint f) (sint (uidr_UserID resp)) (uint a) (bank_of (durable w))) \<and>
    wf_db (durable w') \<and> calm w' \<and> logs w' = logs w \<and> remote w' = r'"
proof -
  define t where "t = int_of_int32 (uidr_UserID resp)"
  have t: "int4_range (sint t)" by (simp add: t_def sint_int32_range)
  define w0 where "w0 = w\<lparr>remote := r'\<rparr>"
  have w0: "calm w0" "durable w0 = durable w" "logs w0 = logs w" "remote w0 = r'"
    using w by (simp_all add: w0_def calm_def)
  have fetch: "AuthAdapter_FetchUserID (NewAuthAdapter (remote_AuthServiceClient client)) ctx name w =
      (Inr t, w0)"
    using auth by (simp add: AuthAdapter_FetchUserID_def NewAuthAdapter_def t_def w0_def
        remote_AuthServiceClient_def remote_call_def)
  have case_eq: "sc_userIDFetcher (store_sendCoinsCase client) =
      AuthAdapter_UserIDFetcher (NewAuthAdapter (remote_AuthServiceClient client))"
    "sc_balanceCreator (store_sendCoinsCase client) = BalancesRepository_BalanceEnsurer store_balances"
    "sc_txManager (store_sendCoinsCase client) = store_txManager"
    by (simp_all add: store_sendCoinsCase_def NewSendCoinsCase_def)
  note unf = SendCoinsCase_SendCoins_def case_eq AuthAdapter_UserIDFetcher_def
    BalancesRepository_BalanceEnsurer_def
  show ?thesis
  proof (cases "t = f")
    case True
    then have "sint f = sint (uidr_UserID resp)" by (auto simp: t_def)
    with True fetch w0 wf show ?thesis by (simp add: unf bank_send_def)
  next
    case False
    then have ne: "sint f \<noteq> sint t" using sint_goint_inject by metis
    obtain d n where e: "BalancesRepository_EnsureBalanceCreated store_balances ctx t StartBalance w0 =
        (None, w0\<lparr>durable := d\<rparr>)" and d: "sql_ensure_balance (sint t) 1000 (durable w) = Inr (n, d)"
      using Ensure_calm [OF w0(1) w(2) t] w0(2) by auto
    define w1 where "w1 = w0\<lparr>durable := d\<rparr>"
    have w1: "calm w1" "durable w1 = d" "logs w1 = logs w" "remote w1 = r'"
      using w0 by (simp_all add: w1_def)
    have wfd: "wf_db d" using wf_db_ensure [OF wf t d] .
    have bd: "bank_of d = bank_open (sint t) (bank_of (durable w))" using bank_of_ensure [OF d] .
    have run: "SendCoinsCase_SendCoins (store_sendCoinsCase client) ctx f name a w =
        WithinTransaction store_txManager ctx (send_coins_tx (store_sendCoinsCase client) f t a) w1"
      using fetch e False by (simp add: unf w1_def)
    note tx = send_coins_tx_calm [of "w1\<lparr>tx_state := TxOpen d\<rparr>", simplified,
        OF w1(1) w(2) refl wfd f False t has_account_ensure [OF d], where a = a and client = client]
    note send = bank_send_def [of "sint f" "sint (uidr_UserID resp)"]
    show ?thesis
    proof (cases "bank_transfer (sint f) (sint t) (uint a) (bank_of d)")
      case (Inr b)
      with tx obtain d' where "send_coins_tx (store_sendCoinsCase client) f t a ctx store_tx
          (w1\<lparr>tx_state := TxOpen (durable w1)\<rparr>) = (None, w1\<lparr>tx_state := TxOpen d'\<rparr>)"
        and d': "bank_of d' = b" "wf_db d'" using w1(2) by auto
      with within_calm_committed [where txFn = "send_coins_tx (store_sendCoinsCase client) f t a",
          OF w1(1) w(2) this(1)] Inr run ne bd w1 show ?thesis
        by (simp add: send t_def)
    next
      case (Inl r)
      with tx have "r \<noteq> SelfTransfer" by auto
      then obtain e where e: "send_refusal f r = in_transaction e"
        by (cases r) auto
      with tx Inl w1(2) obtain ts where ts: "ts \<noteq> TxClosed"
        and x: "send_coins_tx (store_sendCoinsCase client) f t a ctx store_tx
          (w1\<lparr>tx_state := TxOpen (durable w1)\<rparr>) = (Some e, w1\<lparr>tx_state := ts\<rparr>)"
        by (auto simp: in_transaction_def)
      from within_calm_failed [where txFn = "send_coins_tx (store_sendCoinsCase client) f t a",
          OF w1(1) w(2) ts x] e Inl run ne bd w1 wfd show ?thesis
        by (simp add: send in_transaction_def t_def)
    qed
  qed
qed

text \<open>
  C8. The exact outcome of a transfer on a healthy connection, once the auth service has
  answered with the receiver's id. The code's answer and the committed state are those of the
  abstract operation: the receiver's account is opened if needed, and the coins move exactly
  when sender and receiver differ, the sender has an account that covers the amount, and the
  receiver's balance stays within the column's range.
\<close>

theorem SendCoins_outcome:
  assumes w: "calm w" "\<not> cancelled ctx" and wf: "wf_db (durable w)"
    and f: "int4_range (sint f)"
    and auth: "asc_GetUserID client (WithTimeout ctx store_contextTimeLimit)
        \<lparr>uidq_Username = name\<rparr> (remote w) = (Inr resp, r')"
  shows "\<exists>w'. SendCoinsCase_SendCoins (store_sendCoinsCase client) ctx f name a w =
      (map_option (send_refusal f)
         (fst (bank_send (sint f) (sint (uidr_UserID resp)) (uint a) (bank_of (durable w)))), w') \<and>
    bank_of (durable w') =
      snd (bank_send (sint f) (sint (uidr_UserID resp)) (uint a) (bank_of (durable w))) \<and>
    wf_db (durable w') \<and> calm w' \<and> logs w' = logs w \<and> remote w' = r'"
  using assms by (rule SendCoins_calm)

theorem SendCoins_outcome_witness:
  "\<exists>w'. SendCoinsCase_SendCoins (store_sendCoinsCase demo_auth) background 1 ''bob'' 1001
      (demo_world []) = (Some (send_refusal 1 Insufficient), w') \<and>
    bank_of (durable w') = bank_of demo_db"
proof -
  have "bank_send 1 2 1001 (bank_of demo_db) = (Some Insufficient, bank_of demo_db)"
    by (simp add: bank_send_def bank_open_def bank_transfer_def bank_of_def demo_db_def)
  with SendCoins_outcome [of "demo_world []" background 1 demo_auth "''bob''" "\<lparr>uidr_UserID = 2\<rparr>"
      "()" 1001]
  show ?thesis by (auto simp: demo_auth_def background_def int4_range_def)
qed

end
