(* ===== verification/Go_Group.thy ===== *)
theory Go_Group
  imports Go_Context
begin

text \<open>
  Goroutines and \<open>golang.org/x/sync/errgroup\<close>. A goroutine is a resumption: it has returned, or
  it is about to make its next call to the outside, with the variables it shares with the other
  goroutines. A group runs its goroutines interleaved as a schedule says; the first error
  is kept and cancels the group's context; \<open>Wait\<close> returns once all have returned.
\<close>

section \<open>Goroutines\<close>

datatype ('s, 'w) goroutine =
    Returned "error option"
  | Calling "go_context \<Rightarrow> 's \<Rightarrow> 'w \<Rightarrow> ('s, 'w) goroutine \<times> 's \<times> 'w"

record ('s, 'w) group =
  tasks :: "('s, 'w) goroutine list"
  first_err :: "error option"
  shared :: 's

text \<open>\<open>errgroup.WithContext\<close>: the context the goroutines see.\<close>

definition group_ctx :: "go_context \<Rightarrow> ('s, 'w) group \<Rightarrow> go_context" where
  "group_ctx ctx g = ctx\<lparr>cancelled := cancelled ctx \<or> first_err g \<noteq> None\<rparr>"

fun returned_error :: "('s, 'w) goroutine \<Rightarrow> error option" where
  "returned_error (Returned e) = e"
| "returned_error (Calling _) = None"

text \<open>Goroutine \<open>i\<close> makes its next call; nothing happens when it has already returned.\<close>

definition group_step ::
  "go_context \<Rightarrow> nat \<Rightarrow> ('s, 'w) group \<times> 'w \<Rightarrow> ('s, 'w) group \<times> 'w" where
  "group_step ctx i gw =
     (case gw of (g, w) \<Rightarrow>
        if i < length (tasks g) then
          (case tasks g ! i of
             Returned _ \<Rightarrow> (g, w)
           | Calling f \<Rightarrow>
               (case f (group_ctx ctx g) (shared g) w of (t, s, w) \<Rightarrow>
                  (\<lparr>tasks = (tasks g)[i := t],
                    first_err = (case first_err g of Some e \<Rightarrow> Some e | None \<Rightarrow> returned_error t),
                    shared = s\<rparr>, w)))
        else (g, w))"

fun group_run ::
  "go_context \<Rightarrow> nat list \<Rightarrow> ('s, 'w) group \<times> 'w \<Rightarrow> ('s, 'w) group \<times> 'w" where
  "group_run ctx [] gw = gw"
| "group_run ctx (i # is) gw = group_run ctx is (group_step ctx i gw)"

definition group_start :: "'s \<Rightarrow> ('s, 'w) goroutine list \<Rightarrow> ('s, 'w) group" where
  "group_start s ts = \<lparr>tasks = ts, first_err = None, shared = s\<rparr>"

lemma group_run_append: "group_run ctx (is @ js) gw = group_run ctx js (group_run ctx is gw)"
  by (induction "is" arbitrary: gw) auto

text \<open>Invariants of the step are invariants of the run.\<close>

lemma group_run_invariant:
  assumes "\<And>i g w g' w'. P g w \<Longrightarrow> group_step ctx i (g, w) = (g', w') \<Longrightarrow> P g' w'"
    and "P g w" "group_run ctx is (g, w) = (g', w')"
  shows "P g' w'"
  using assms(2,3)
proof (induction "is" arbitrary: g w)
  case (Cons i "is")
  then show ?case by (cases "group_step ctx i (g, w)") (auto intro: assms(1))
qed simp

lemma group_step_cases [consumes 1, case_names idle call]:
  assumes "group_step ctx i (g, w) = (g', w')"
  obtains "g' = g" "w' = w" "i < length (tasks g) \<Longrightarrow> \<exists>e. tasks g ! i = Returned e"
    | f t s where "i < length (tasks g)" "tasks g ! i = Calling f"
      "f (group_ctx ctx g) (shared g) w = (t, s, w')"
      "g' = \<lparr>tasks = (tasks g)[i := t],
             first_err = (case first_err g of Some e \<Rightarrow> Some e | None \<Rightarrow> returned_error t),
             shared = s\<rparr>"
  using assms
  by (auto simp: group_step_def split: if_splits goroutine.splits prod.splits)

text \<open>As long as the group has no error, no goroutine has returned one.\<close>

definition errors_kept :: "('s, 'w) group \<Rightarrow> bool" where
  "errors_kept g \<longleftrightarrow> (first_err g = None \<longrightarrow> (\<forall>t \<in> set (tasks g). returned_error t = None))"

lemma group_step_errors_kept:
  assumes "errors_kept g" "group_step ctx i (g, w) = (g', w')"
  shows "errors_kept g'"
  using assms(2)
proof (cases rule: group_step_cases)
  case (call f t s)
  have "x = t \<or> x \<in> set (tasks g)" if "x \<in> set ((tasks g)[i := t])" for x
    using that set_update_subset_insert [of "tasks g" i t] by blast
  with assms(1) call(4) show ?thesis by (auto simp: errors_kept_def split: option.splits)
qed (use assms(1) in simp)

lemma group_ctx_no_error [simp]: "first_err g = None \<Longrightarrow> group_ctx ctx g = ctx"
  by (simp add: group_ctx_def)

section \<open>Waiting for a group\<close>

text \<open>The goroutine returns within \<open>n\<close> calls, whatever the calls answer.\<close>

fun returns_within :: "nat \<Rightarrow> ('s, 'w) goroutine \<Rightarrow> bool" where
  "returns_within n (Returned e) = True"
| "returns_within 0 (Calling f) = False"
| "returns_within (Suc n) (Calling f) = (\<forall>c s w. returns_within n (fst (f c s w)))"

lemma returns_within_Suc: "returns_within n t \<Longrightarrow> returns_within (Suc n) t"
  by (induction n t rule: returns_within.induct) auto

lemma returns_within_mono: "returns_within n t \<Longrightarrow> n \<le> m \<Longrightarrow> returns_within m t"
  by (induction m) (auto simp: le_Suc_eq intro: returns_within_Suc)

lemma returns_within_0: "returns_within 0 t \<longleftrightarrow> (\<exists>e. t = Returned e)"
  by (cases t) auto

lemma group_step_within:
  assumes "group_step ctx i (g, w) = (g', w')" "j < length (tasks g)"
    and "returns_within ((if i = j then 1 else 0) + n) (tasks g ! j)"
  shows "length (tasks g') = length (tasks g) \<and> returns_within n (tasks g' ! j)"
  using assms(1)
proof (cases rule: group_step_cases)
  case idle
  have "returns_within n (tasks g ! j)"
  proof (cases "i = j")
    case True
    with idle(3) assms(2) show ?thesis by auto
  next
    case False
    with assms(3) show ?thesis by simp
  qed
  with idle show ?thesis by simp
next
  case (call f t s)
  with assms(3) have "i = j \<Longrightarrow> returns_within n t" by (auto dest: spec) (metis fst_conv)
  with call assms show ?thesis by (auto simp: nth_list_update)
qed

lemma group_run_within:
  assumes "\<And>j. j < length (tasks g) \<Longrightarrow> returns_within (count_list is j) (tasks g ! j)"
    and "group_run ctx is (g, w) = (g', w')"
  shows "length (tasks g') = length (tasks g) \<and> (\<forall>t \<in> set (tasks g'). \<exists>e. t = Returned e)"
  using assms
proof (induction "is" arbitrary: g w)
  case Nil
  then show ?case by (auto simp: returns_within_0 in_set_conv_nth)
next
  case (Cons i "is")
  obtain g1 w1 where s: "group_step ctx i (g, w) = (g1, w1)" by fastforce
  have len: "length (tasks g1) = length (tasks g)"
    using s by (cases rule: group_step_cases) auto
  have "returns_within (count_list is j) (tasks g1 ! j)" if "j < length (tasks g1)" for j
    using group_step_within [OF s, of j "count_list is j"] Cons.prems(1) [of j] that len
    by (simp split: if_splits)
  with Cons.IH [of g1 w1] Cons.prems(2) s len show ?case by simp
qed

end
