(* ===== verification/Store_UserInfo.thy ===== *)
theory Store_UserInfo
  imports Store_Domain Go_Group
begin

text \<open>
  \<open>internal/store/application/user_info_case.go\<close>: the use case behind \<open>/api/info\<close>. Three
  goroutines of one error group fetch the name and balance, the purchases and the transfers.
  The schedule of the goroutines and the order in which a map is visited are parameters.
\<close>

section \<open>Conversions\<close>

text \<open>\<open>extractUserIDs\<close>: the keys of a set, in the order the map is visited.\<close>

fun collect_ids :: "DirectTransfer list \<Rightarrow> (goint, unit) gomap \<Rightarrow> (goint, unit) gomap" where
  "collect_ids [] userIDSet = userIDSet"
| "collect_ids (transfer # rest) userIDSet =
     collect_ids rest (AList.update (dt_TargetID transfer) () userIDSet)"

definition extractUserIDs ::
  "((goint \<times> unit) list \<Rightarrow> (goint \<times> unit) list) \<Rightarrow> TransferHistory \<Rightarrow> goint list" where
  "extractUserIDs rng tf =
     (let userIDSet = collect_ids (th_OutcomingTransfers tf)
            (collect_ids (th_IncomingTransfers tf) [])
      in map fst (rng userIDSet))"

definition name_transfer :: "(goint, string) gomap \<Rightarrow> DirectTransfer \<Rightarrow> NamedDirectTransfer" where
  "name_transfer usernames transfer =
     \<lparr>ndt_TargetUsername = gomap_get [] usernames (dt_TargetID transfer),
      ndt_Amount = dt_Amount transfer\<rparr>"

definition convertToNamedTransferHistory ::
  "((goint \<times> unit) list \<Rightarrow> (goint \<times> unit) list) \<Rightarrow> go_context \<Rightarrow> TransferHistory \<Rightarrow>
   'w UsernameGetter \<Rightarrow> 'w \<Rightarrow> (error + NamedTransferHistory) \<times> 'w" where
  "convertToNamedTransferHistory rng ctx tf usernameGetter w =
     (case GetUsernames usernameGetter ctx (extractUserIDs rng tf) w of
        (Inl err, w) \<Rightarrow> (Inl err, w)
      | (Inr usernames, w) \<Rightarrow>
          (Inr \<lparr>nth_IncomingTransfers = map (name_transfer usernames) (th_IncomingTransfers tf),
                nth_OutcomingTransfers = map (name_transfer usernames) (th_OutcomingTransfers tf)\<rparr>,
           w))"

section \<open>The use case\<close>

record 'w UserInfoCase =
  uic_userRepository :: "'w UserInfoRepository"
  uic_usernameGetter :: "'w UsernameGetter"
  uic_logger :: "'w Logger"

definition NewUserInfoCase ::
  "'w UserInfoRepository \<Rightarrow> 'w UsernameGetter \<Rightarrow> 'w Logger \<Rightarrow> 'w UserInfoCase" where
  "NewUserInfoCase userRepository usernameGetter logger =
     \<lparr>uic_userRepository = userRepository, uic_usernameGetter = usernameGetter,
      uic_logger = logger\<rparr>"

text \<open>The variables that \<open>GetUserInfo\<close> shares with its goroutines.\<close>

record info_vars =
  v_mainInfo :: MainUserInfo
  v_purchases :: "(Good, uint32) gomap"
  v_transfers :: NamedTransferHistory

definition zero_info_vars :: info_vars where
  "zero_info_vars = \<lparr>v_mainInfo = zero_MainUserInfo, v_purchases = [],
     v_transfers = zero_NamedTransferHistory\<rparr>"

definition balance_task ::
  "'w UserInfoCase \<Rightarrow> goint \<Rightarrow> string \<Rightarrow> (info_vars, 'w) goroutine" where
  "balance_task uic userId username = Calling (\<lambda>groupCtx v w.
     (case FetchUserBalance (uic_userRepository uic) groupCtx userId w of
        (Inl err, w) \<Rightarrow> (Returned (Some err), v, w)
      | (Inr balance, w) \<Rightarrow>
          (Returned None,
           v\<lparr>v_mainInfo := \<lparr>mi_Username = username, mi_Balance = balance\<rparr>\<rparr>, w)))"

definition main_task :: "'w UserInfoCase \<Rightarrow> goint \<Rightarrow> (info_vars, 'w) goroutine" where
  "main_task uic userId = Calling (\<lambda>groupCtx v w.
     (case GetUsername (uic_usernameGetter uic) groupCtx userId w of
        (Inl err, w) \<Rightarrow> (Returned (Some err), v, w)
      | (Inr username, w) \<Rightarrow> (balance_task uic userId username, v, w)))"

definition purchases_task :: "'w UserInfoCase \<Rightarrow> goint \<Rightarrow> (info_vars, 'w) goroutine" where
  "purchases_task uic userId = Calling (\<lambda>groupCtx v w.
     (case FetchUserPurchases (uic_userRepository uic) groupCtx userId w of
        (Inl err, w) \<Rightarrow> (Returned (Some err), v\<lparr>v_purchases := []\<rparr>, w)
      | (Inr purchases, w) \<Rightarrow> (Returned None, v\<lparr>v_purchases := purchases\<rparr>, w)))"

definition naming_task ::
  "((goint \<times> unit) list \<Rightarrow> (goint \<times> unit) list) \<Rightarrow> 'w UserInfoCase \<Rightarrow> TransferHistory \<Rightarrow>
   (info_vars, 'w) goroutine" where
  "naming_task rng uic rawTransfers = Calling (\<lambda>groupCtx v w.
     (case convertToNamedTransferHistory rng groupCtx rawTransfers (uic_usernameGetter uic) w of
        (Inl err, w) \<Rightarrow> (Returned (Some err), v\<lparr>v_transfers := zero_NamedTransferHistory\<rparr>, w)
      | (Inr transfers, w) \<Rightarrow> (Returned None, v\<lparr>v_transfers := transfers\<rparr>, w)))"

definition transfers_task ::
  "((goint \<times> unit) list \<Rightarrow> (goint \<times> unit) list) \<Rightarrow> 'w UserInfoCase \<Rightarrow> goint \<Rightarrow>
   (info_vars, 'w) goroutine" where
  "transfers_task rng uic userId = Calling (\<lambda>groupCtx v w.
     (case FetchUserCoinTransfers (uic_userRepository uic) groupCtx userId w of
        (Inl err, w) \<Rightarrow> (Returned (Some err), v, w)
      | (Inr rawTransfers, w) \<Rightarrow> (naming_task rng uic rawTransfers, v, w)))"

text \<open>
  The schedule \<open>sched\<close> says which goroutine makes the next call; whatever it leaves undone runs
  to the end afterwards (\<open>remaining_calls\<close> covers the calls of each goroutine).
\<close>

definition remaining_calls :: "nat list" where
  "remaining_calls = [0, 0, 1, 2, 2]"

definition UserInfoCase_GetUserInfo ::
  "nat list \<Rightarrow> ((goint \<times> unit) list \<Rightarrow> (goint \<times> unit) list) \<Rightarrow> 'w UserInfoCase \<Rightarrow>
   go_context \<Rightarrow> goint \<Rightarrow> 'w \<Rightarrow> (error + TotalUserInfo) \<times> 'w" where
  "UserInfoCase_GetUserInfo sched rng uic ctx userId w =
     (case group_run ctx (sched @ remaining_calls)
             (group_start zero_info_vars
                [main_task uic userId, purchases_task uic userId, transfers_task rng uic userId], w) of
        (g, w) \<Rightarrow>
          (case first_err g of
             Some err \<Rightarrow> (Inl err, w)
           | None \<Rightarrow>
               (Inr \<lparr>tui_Username = mi_Username (v_mainInfo (shared g)),
                     tui_Balance = mi_Balance (v_mainInfo (shared g)),
                     tui_Goods = v_purchases (shared g),
                     tui_CoinTransferHistory = v_transfers (shared g)\<rparr>, w)))"

end
