(* ===== verification/Store_UserInfo_Facts.thy ===== *)
theory Store_UserInfo_Facts
  imports Store_UserInfo Bank_Spec
begin

text \<open>
  The user info use case from the contracts of its two interfaces: whatever the schedule of the
  goroutines and the failures on the way, every part of an answer is one that the repository
  found; on healthy connections there is an answer, and it is complete.
\<close>

section \<open>What an answer says about the bank\<close>

definition incoming_of :: "bank \<Rightarrow> int \<Rightarrow> (int \<times> int) list" where
  "incoming_of b u = map (\<lambda>(f, t, a). (f, a)) (filter (\<lambda>(f, t, a). t = u) (ledger b))"

definition outcoming_of :: "bank \<Rightarrow> int \<Rightarrow> (int \<times> int) list" where
  "outcoming_of b u = map (\<lambda>(f, t, a). (t, a)) (filter (\<lambda>(f, t, a). f = u) (ledger b))"

text \<open>The quantity shown for an item, and what it should be (modulo the 32 bits of the reply).\<close>

definition shown_quantity :: "(Good, uint32) gomap \<Rightarrow> string \<Rightarrow> uint32" where
  "shown_quantity goods item = gomap_get 0 goods \<lparr>g_Name = item\<rparr>"

definition owned :: "bank \<Rightarrow> int \<Rightarrow> string \<Rightarrow> uint32" where
  "owned b u item = of_nat (count_list (bought b) (u, item))"

definition goods_partial :: "bank \<Rightarrow> int \<Rightarrow> (Good, uint32) gomap \<Rightarrow> bool" where
  "goods_partial b u p \<longleftrightarrow> distinct (map fst p) \<and>
     (\<forall>item. shown_quantity p item = 0 \<or> shown_quantity p item = owned b u item)"

definition goods_exact :: "bank \<Rightarrow> int \<Rightarrow> (Good, uint32) gomap \<Rightarrow> bool" where
  "goods_exact b u p \<longleftrightarrow> distinct (map fst p) \<and> (\<forall>item. shown_quantity p item = owned b u item)"

definition raw_pairs :: "DirectTransfer list \<Rightarrow> (int \<times> int) list" where
  "raw_pairs ts = map (\<lambda>t. (sint (dt_TargetID t), uint (dt_Amount t))) ts"

definition named_pairs :: "NamedDirectTransfer list \<Rightarrow> (string \<times> int) list" where
  "named_pairs ts = map (\<lambda>t. (ndt_TargetUsername t, uint (ndt_Amount t))) ts"

definition history_exact :: "(int \<Rightarrow> string) \<Rightarrow> bank \<Rightarrow> int \<Rightarrow> NamedTransferHistory \<Rightarrow> bool" where
  "history_exact name b u h \<longleftrightarrow>
     named_pairs (nth_IncomingTransfers h) = map (\<lambda>(i, a). (name i, a)) (incoming_of b u) \<and>
     named_pairs (nth_OutcomingTransfers h) = map (\<lambda>(i, a). (name i, a)) (outcoming_of b u)"

definition main_exact :: "(int \<Rightarrow> string) \<Rightarrow> bank \<Rightarrow> int \<Rightarrow> string \<Rightarrow> uint32 \<Rightarrow> bool" where
  "main_exact name b u username balance \<longleftrightarrow>
     username = name u \<and> accounts b u = Some (uint balance)"

text \<open>Facts that every state of the store has: amounts are never negative, ids fit the column.\<close>

definition ledger_ok :: "bank \<Rightarrow> bool" where
  "ledger_ok b \<longleftrightarrow> (\<forall>(f, t, a) \<in> set (ledger b). int4_range f \<and> int4_range t \<and> 0 \<le> a)"

section \<open>Extracting the user ids\<close>

lemma collect_ids_keys:
  "distinct (map fst m) \<Longrightarrow> distinct (map fst (collect_ids ts m))"
  "fst ` set (collect_ids ts m) = dt_TargetID ` set ts \<union> fst ` set m"
  by (induction ts m rule: collect_ids.induct) (auto simp: distinct_update dom_update)

lemma set_extractUserIDs:
  assumes "range_order rng"
  shows "set (extractUserIDs rng tf) =
    dt_TargetID ` (set (th_IncomingTransfers tf) \<union> set (th_OutcomingTransfers tf))"
  using assms
  by (auto simp: extractUserIDs_def Let_def range_order_set collect_ids_keys image_Un)

lemma distinct_extractUserIDs:
  assumes "range_order rng"
  shows "distinct (extractUserIDs rng tf)"
proof -
  define m where "m = collect_ids (th_OutcomingTransfers tf) (collect_ids (th_IncomingTransfers tf) [])"
  have "distinct (map fst m)" by (simp add: m_def collect_ids_keys)
  moreover have "mset (map fst (rng m)) = mset (map fst m)"
    using assms by (simp add: range_order_mset)
  ultimately have "distinct (map fst (rng m))" by (metis mset_eq_imp_distinct_iff)
  then show ?thesis by (simp add: extractUserIDs_def Let_def m_def)
qed

section \<open>Contracts\<close>

text \<open>
  \<open>domain.UserInfoRepository\<close> and \<open>domain.UsernameGetter\<close>: all their calls only read. What a
  lookup may answer is stated by relations that hold in all worlds of \<open>inv\<close>: \<open>balance_is u v\<close>,
  \<open>goods_are u goods\<close> and \<open>history_is u incoming outcoming\<close>. When nothing else happens they are
  about one committed state; when others commit in between, about the states of the meantime.
  \<open>name\<close> is what the auth service calls the users.
\<close>

locale user_info_repository =
  fixes inv :: "'w \<Rightarrow> bool"
    and balance_is :: "int \<Rightarrow> int \<Rightarrow> bool"
    and goods_are :: "int \<Rightarrow> (Good, uint32) gomap \<Rightarrow> bool"
    and history_is :: "int \<Rightarrow> (int \<times> int) list \<Rightarrow> (int \<times> int) list \<Rightarrow> bool"
    and repo :: "'w UserInfoRepository"
  assumes balance_keeps: "inv w \<Longrightarrow> FetchUserBalance repo ctx u w = (rb, w') \<Longrightarrow> inv w'"
    and purchases_keeps: "inv w \<Longrightarrow> FetchUserPurchases repo ctx u w = (rp, w') \<Longrightarrow> inv w'"
    and transfers_keeps: "inv w \<Longrightarrow> FetchUserCoinTransfers repo ctx u w = (rt, w') \<Longrightarrow> inv w'"
    and balance_found: "inv w \<Longrightarrow> FetchUserBalance repo ctx u w = (Inr v, w') \<Longrightarrow>
       balance_is (sint u) (uint v)"
    and purchases_found: "inv w \<Longrightarrow> FetchUserPurchases repo ctx u w = (Inr p, w') \<Longrightarrow>
       goods_are (sint u) p"
    and transfers_found: "inv w \<Longrightarrow> FetchUserCoinTransfers repo ctx u w = (Inr h, w') \<Longrightarrow>
       history_is (sint u) (raw_pairs (th_IncomingTransfers h)) (raw_pairs (th_OutcomingTransfers h))"
    and history_ids: "history_is n incoming outcoming \<Longrightarrow>
       (i, a) \<in> set incoming \<union> set outcoming \<Longrightarrow> int4_range i"

locale username_getter =
  fixes inv :: "'w \<Rightarrow> bool"
    and name :: "int \<Rightarrow> string"
    and getter :: "'w UsernameGetter"
  assumes username_keeps: "inv w \<Longrightarrow> GetUsername getter ctx u w = (r1, w') \<Longrightarrow> inv w'"
    and usernames_keeps: "inv w \<Longrightarrow> GetUsernames getter ctx us w = (r, w') \<Longrightarrow> inv w'"
    and username_found: "inv w \<Longrightarrow> int4_range (sint u) \<Longrightarrow>
       GetUsername getter ctx u w = (Inr n, w') \<Longrightarrow> n = name (sint u)"
    and usernames_found: "inv w \<Longrightarrow> GetUsernames getter ctx us w = (Inr m, w') \<Longrightarrow> i \<in> set us \<Longrightarrow>
       int4_range (sint i) \<Longrightarrow> gomap_get [] m i = name (sint i)"

locale user_info_ports =
  user_info_repository inv balance_is goods_are history_is repo + username_getter inv name getter
  for inv :: "'w \<Rightarrow> bool" and balance_is goods_are history_is repo name getter +
  fixes rng :: "(goint \<times> unit) list \<Rightarrow> (goint \<times> unit) list"
    and logger :: "'w Logger"
  assumes rng: "range_order rng"
begin

abbreviation info_case :: "'w UserInfoCase" where
  "info_case \<equiv> NewUserInfoCase repo getter logger"

lemma info_case_simps [simp]:
  "uic_userRepository info_case = repo" "uic_usernameGetter info_case = getter"
  by (simp_all add: NewUserInfoCase_def)

lemma name_transfers:
  assumes "\<And>i. i \<in> dt_TargetID ` set ts \<Longrightarrow> gomap_get [] m i = nm (sint i)"
  shows "named_pairs (map (name_transfer m) ts) = map (\<lambda>(i, a). (nm i, a)) (raw_pairs ts)"
  using assms by (simp add: named_pairs_def raw_pairs_def name_transfer_def)

lemma convert_keeps:
  "inv w \<Longrightarrow> convertToNamedTransferHistory rng ctx tf getter w = (r, w') \<Longrightarrow> inv w'"
  by (auto simp: convertToNamedTransferHistory_def dest: usernames_keeps
      split: prod.splits sum.splits)

text \<open>The histories shown are those found, with the names put in.\<close>

definition history_shown :: "int \<Rightarrow> NamedTransferHistory \<Rightarrow> bool" where
  "history_shown u h \<longleftrightarrow>
     (\<exists>incoming outcoming. history_is u incoming outcoming \<and>
        named_pairs (nth_IncomingTransfers h) = map (\<lambda>(i, a). (name i, a)) incoming \<and>
        named_pairs (nth_OutcomingTransfers h) = map (\<lambda>(i, a). (name i, a)) outcoming)"

lemma convert_shown:
  assumes w: "inv w"
    and raw: "history_is u (raw_pairs (th_IncomingTransfers tf)) (raw_pairs (th_OutcomingTransfers tf))"
    and r: "convertToNamedTransferHistory rng ctx tf getter w = (Inr h, w')"
  shows "history_shown u h"
proof -
  from r obtain m w1 where m: "GetUsernames getter ctx (extractUserIDs rng tf) w = (Inr m, w1)"
    and h: "nth_IncomingTransfers h = map (name_transfer m) (th_IncomingTransfers tf)"
      "nth_OutcomingTransfers h = map (name_transfer m) (th_OutcomingTransfers tf)"
    by (auto simp: convertToNamedTransferHistory_def split: prod.splits sum.splits)
  have rng_ok: "int4_range (sint (dt_TargetID t))"
    if "t \<in> set (th_IncomingTransfers tf) \<union> set (th_OutcomingTransfers tf)" for t
    using that by (intro history_ids [OF raw, of _ "uint (dt_Amount t)"]) (auto simp: raw_pairs_def)
  have "gomap_get [] m i = name (sint i)"
    if "i \<in> dt_TargetID ` (set (th_IncomingTransfers tf) \<union> set (th_OutcomingTransfers tf))" for i
    using usernames_found [OF w m] that rng_ok by (auto simp: set_extractUserIDs [OF rng])
  with raw show ?thesis
    unfolding history_shown_def h by (intro exI conjI) (assumption, simp_all add: name_transfers image_Un)
qed

section \<open>Every answer is right\<close>

definition main_inv :: "goint \<Rightarrow> (info_vars, 'w) goroutine \<Rightarrow> info_vars \<Rightarrow> bool" where
  "main_inv u t v \<longleftrightarrow>
     t = main_task info_case u \<or> t = balance_task info_case u (name (sint u)) \<or>
     (\<exists>e. t = Returned (Some e)) \<or>
     t = Returned None \<and> mi_Username (v_mainInfo v) = name (sint u) \<and>
       balance_is (sint u) (uint (mi_Balance (v_mainInfo v)))"

definition purchases_inv :: "goint \<Rightarrow> (info_vars, 'w) goroutine \<Rightarrow> info_vars \<Rightarrow> bool" where
  "purchases_inv u t v \<longleftrightarrow>
     t = purchases_task info_case u \<or> (\<exists>e. t = Returned (Some e)) \<or>
     t = Returned None \<and> goods_are (sint u) (v_purchases v)"

definition transfers_inv :: "goint \<Rightarrow> (info_vars, 'w) goroutine \<Rightarrow> info_vars \<Rightarrow> bool" where
  "transfers_inv u t v \<longleftrightarrow>
     t = transfers_task rng info_case u \<or>
     (\<exists>h. t = naming_task rng info_case h \<and>
        history_is (sint u) (raw_pairs (th_IncomingTransfers h)) (raw_pairs (th_OutcomingTransfers h))) \<or>
     (\<exists>e. t = Returned (Some e)) \<or>
     t = Returned None \<and> history_shown (sint u) (v_transfers v)"

definition info_inv :: "goint \<Rightarrow> (info_vars, 'w) group \<Rightarrow> 'w \<Rightarrow> bool" where
  "info_inv u g w \<longleftrightarrow>
     inv w \<and>
     (\<exists>t0 t1 t2. tasks g = [t0, t1, t2] \<and> main_inv u t0 (shared g) \<and>
        purchases_inv u t1 (shared g) \<and> transfers_inv u t2 (shared g)) \<and>
     errors_kept g"

lemma inv_cong:
  "v_mainInfo v' = v_mainInfo v \<Longrightarrow> main_inv u t v' = main_inv u t v"
  "v_purchases v' = v_purchases v \<Longrightarrow> purchases_inv u t v' = purchases_inv u t v"
  "v_transfers v' = v_transfers v \<Longrightarrow> transfers_inv u t v' = transfers_inv u t v"
  by (simp_all add: main_inv_def purchases_inv_def transfers_inv_def)

lemma main_step:
  assumes w: "inv w" and u: "int4_range (sint u)"
    and inv: "main_inv u (Calling f) v" and r: "f c v w = (t, v', w')"
  shows "main_inv u t v' \<and> inv w' \<and> v_purchases v' = v_purchases v \<and> v_transfers v' = v_transfers v"
proof -
  from inv consider "Calling f = main_task info_case u" |
      "Calling f = balance_task info_case u (name (sint u))"
    by (auto simp: main_inv_def)
  then show ?thesis
  proof cases
    case 1
    with r w u show ?thesis
      by (auto simp: main_task_def main_inv_def dest: username_keeps username_found
          split: prod.splits sum.splits)
  next
    case 2
    with r w show ?thesis
      by (auto simp: balance_task_def main_inv_def dest: balance_keeps balance_found
          split: prod.splits sum.splits)
  qed
qed

lemma purchases_step:
  assumes w: "inv w" and inv: "purchases_inv u (Calling f) v" and r: "f c v w = (t, v', w')"
  shows "purchases_inv u t v' \<and> inv w' \<and> v_mainInfo v' = v_mainInfo v \<and> v_transfers v' = v_transfers v"
proof -
  from inv have "Calling f = purchases_task info_case u" by (auto simp: purchases_inv_def)
  with r w show ?thesis
    by (auto simp: purchases_task_def purchases_inv_def dest: purchases_keeps purchases_found
        split: prod.splits sum.splits)
qed

lemma transfers_step:
  assumes w: "inv w" and inv: "transfers_inv u (Calling f) v" and r: "f c v w = (t, v', w')"
  shows "transfers_inv u t v' \<and> inv w' \<and> v_mainInfo v' = v_mainInfo v \<and> v_purchases v' = v_purchases v"
proof -
  from inv consider "Calling f = transfers_task rng info_case u" |
      h where "Calling f = naming_task rng info_case h"
        "history_is (sint u) (raw_pairs (th_IncomingTransfers h)) (raw_pairs (th_OutcomingTransfers h))"
    by (auto simp: transfers_inv_def)
  then show ?thesis
  proof cases
    case 1
    with r w show ?thesis
      by (auto simp: transfers_task_def transfers_inv_def dest: transfers_keeps transfers_found
          split: prod.splits sum.splits)
  next
    case 2
    with r w show ?thesis
      by (auto simp: naming_task_def transfers_inv_def dest: convert_keeps convert_shown
          split: prod.splits sum.splits)
  qed
qed

lemma info_inv_step:
  assumes u: "int4_range (sint u)"
    and inv: "info_inv u g w" and step: "group_step ctx i (g, w) = (g', w')"
  shows "info_inv u g' w'"
  using step
proof (cases rule: group_step_cases)
  case idle
  with inv show ?thesis by simp
next
  case (call f t v)
  from inv obtain t0 t1 t2 where ts: "tasks g = [t0, t1, t2]"
    and i0: "main_inv u t0 (shared g)" and i1: "purchases_inv u t1 (shared g)"
    and i2: "transfers_inv u t2 (shared g)" and w: "inv w"
    by (auto simp: info_inv_def)
  note cong = inv_cong [of v "shared g"]
  have err: "errors_kept g'"
    using inv step by (auto simp: info_inv_def intro: group_step_errors_kept)
  from call(1) ts consider "i = 0" | "i = 1" | "i = 2" by fastforce
  then show ?thesis
  proof cases
    case 1
    then have i: "main_inv u (Calling f) (shared g)" using i0 call(2) ts by simp
    from main_step [OF w u i call(3)] i1 i2 call 1 ts err show ?thesis
      by (simp add: info_inv_def cong)
  next
    case 2
    then have i: "purchases_inv u (Calling f) (shared g)" using i1 call(2) ts by simp
    from purchases_step [OF w i call(3)] i0 i2 call 2 ts err show ?thesis
      by (simp add: info_inv_def cong)
  next
    case 3
    then have i: "transfers_inv u (Calling f) (shared g)" using i2 call(2) ts by simp
    from transfers_step [OF w i call(3)] i0 i1 call 3 ts err show ?thesis
      by (simp add: info_inv_def cong)
  qed
qed

end

text \<open>Every goroutine of the use case returns, whatever its calls answer.\<close>

lemma info_tasks_within:
  "returns_within 2 (main_task uic u)" "returns_within 1 (purchases_task uic u)"
  "returns_within 2 (transfers_task rng uic u)"
  by (auto simp: numeral_2_eq_2 main_task_def balance_task_def purchases_task_def
      transfers_task_def naming_task_def split: prod.splits sum.splits)

lemma info_group_returns:
  assumes "group_run ctx (sched @ remaining_calls)
    (group_start v [main_task uic u, purchases_task uic u, transfers_task rng uic u], w) = (g, w')"
  shows "length (tasks g) = 3 \<and> (\<forall>t \<in> set (tasks g). \<exists>e. t = Returned e)"
proof -
  let ?g = "group_start v [main_task uic u, purchases_task uic u, transfers_task rng uic u]"
  have "returns_within (count_list (sched @ remaining_calls) j) (tasks ?g ! j)"
    if "j < length (tasks ?g)" for j
  proof -
    from that consider "j = 0" | "j = 1" | "j = 2" by (fastforce simp: group_start_def)
    then show ?thesis
      by cases (simp_all add: group_start_def remaining_calls_def
          returns_within_mono [OF info_tasks_within(1)] returns_within_mono [OF info_tasks_within(2)]
          returns_within_mono [OF info_tasks_within(3)])
  qed
  from group_run_within [OF this assms] show ?thesis by (simp add: group_start_def)
qed

context user_info_ports
begin

lemma info_inv_run:
  assumes w: "inv w" and u: "int4_range (sint u)"
    and run: "group_run ctx sched (group_start v
      [main_task info_case u, purchases_task info_case u, transfers_task rng info_case u], w) = (g, w')"
  shows "info_inv u g w'"
  by (rule group_run_invariant [OF _ _ run, where P = "info_inv u"])
    (rule info_inv_step [OF u], assumption+,
     simp add: w info_inv_def main_inv_def purchases_inv_def transfers_inv_def errors_kept_def
       group_start_def main_task_def purchases_task_def transfers_task_def)

text \<open>The world keeps its invariant, and every part of an answer is one that was found.\<close>

lemma GetUserInfo_sound:
  assumes w: "inv w" and u: "int4_range (sint u)"
    and r: "UserInfoCase_GetUserInfo sched rng info_case ctx u w = (res, w')"
  shows "inv w' \<and>
    (\<forall>info. res = Inr info \<longrightarrow>
       tui_Username info = name (sint u) \<and> balance_is (sint u) (uint (tui_Balance info)) \<and>
       goods_are (sint u) (tui_Goods info) \<and> history_shown (sint u) (tui_CoinTransferHistory info))"
proof -
  let ?run = "group_run ctx (sched @ remaining_calls) (group_start zero_info_vars
    [main_task info_case u, purchases_task info_case u, transfers_task rng info_case u], w)"
  obtain g where run: "?run = (g, w')"
    using r by (auto simp: UserInfoCase_GetUserInfo_def split: prod.splits option.splits)
  from info_inv_run [OF w u run] obtain t0 t1 t2 where ts: "tasks g = [t0, t1, t2]"
    and inv: "main_inv u t0 (shared g)" "purchases_inv u t1 (shared g)" "transfers_inv u t2 (shared g)"
    and w': "inv w'" and err: "errors_kept g"
    by (auto simp: info_inv_def)
  show ?thesis
  proof (cases "first_err g")
    case (Some e)
    with r run w' show ?thesis by (auto simp: UserInfoCase_GetUserInfo_def)
  next
    case None
    with info_group_returns [OF run] ts err
    have "t0 = Returned None" "t1 = Returned None" "t2 = Returned None"
      by (auto simp: errors_kept_def)
    with inv r run w' None show ?thesis
      by (auto simp: UserInfoCase_GetUserInfo_def main_inv_def purchases_inv_def transfers_inv_def
          main_task_def balance_task_def purchases_task_def transfers_task_def naming_task_def)
  qed
qed

end

section \<open>Healthy connections answer\<close>

text \<open>
  \<open>healthy ctx w\<close>: calls under the context \<open>ctx\<close> succeed in the world \<open>w\<close> for the users of
  \<open>known\<close>, and it stays so; the purchases are then complete (\<open>goods_full\<close>).
\<close>

locale healthy_user_info =
  user_info_ports inv balance_is goods_are history_is repo name getter rng logger
  for inv :: "'w \<Rightarrow> bool" and balance_is goods_are history_is repo name getter rng logger +
  fixes healthy :: "go_context \<Rightarrow> 'w \<Rightarrow> bool"
    and known :: "int \<Rightarrow> bool"
    and goods_full :: "int \<Rightarrow> (Good, uint32) gomap \<Rightarrow> bool"
  assumes balance_healthy:
    "healthy ctx w \<Longrightarrow> inv w \<Longrightarrow> int4_range (sint u) \<Longrightarrow> known (sint u) \<Longrightarrow>
     \<exists>v w'. FetchUserBalance repo ctx u w = (Inr v, w') \<and> healthy ctx w'"
    and purchases_healthy:
    "healthy ctx w \<Longrightarrow> inv w \<Longrightarrow> int4_range (sint u) \<Longrightarrow>
     \<exists>p w'. FetchUserPurchases repo ctx u w = (Inr p, w') \<and> healthy ctx w' \<and> goods_full (sint u) p"
    and transfers_healthy:
    "healthy ctx w \<Longrightarrow> inv w \<Longrightarrow> int4_range (sint u) \<Longrightarrow>
     \<exists>h w'. FetchUserCoinTransfers repo ctx u w = (Inr h, w') \<and> healthy ctx w'"
    and username_healthy:
    "healthy ctx w \<Longrightarrow> \<exists>n w'. GetUsername getter ctx u w = (Inr n, w') \<and> healthy ctx w'"
    and usernames_healthy:
    "healthy ctx w \<Longrightarrow> \<exists>m w'. GetUsernames getter ctx us w = (Inr m, w') \<and> healthy ctx w'"
begin

lemma convert_healthy:
  "healthy ctx w \<Longrightarrow> \<exists>h w'. convertToNamedTransferHistory rng ctx tf getter w = (Inr h, w') \<and>
     healthy ctx w'"
  using usernames_healthy [of ctx w "extractUserIDs rng tf"]
  by (auto simp: convertToNamedTransferHistory_def)

definition healthy_inv :: "go_context \<Rightarrow> goint \<Rightarrow> (info_vars, 'w) group \<Rightarrow> 'w \<Rightarrow> bool" where
  "healthy_inv ctx u g w \<longleftrightarrow>
     info_inv u g w \<and> first_err g = None \<and> healthy ctx w \<and>
     (tasks g ! 1 = purchases_task info_case u \<or> goods_full (sint u) (v_purchases (shared g)))"

lemma healthy_call:
  assumes inv: "info_inv u g w" and h: "healthy ctx w"
    and u: "int4_range (sint u)" "known (sint u)"
    and f: "i < length (tasks g)" "tasks g ! i = Calling f" and r: "f ctx v w = (t, v', w')"
  shows "returned_error t = None \<and> healthy ctx w' \<and>
    (if i = 1 then goods_full (sint u) (v_purchases v') else v_purchases v' = v_purchases v)"
proof -
  from inv obtain t0 t1 t2 where w: "inv w" and ts: "tasks g = [t0, t1, t2]"
    and t: "main_inv u t0 (shared g)" "purchases_inv u t1 (shared g)"
      "transfers_inv u t2 (shared g)" by (auto simp: info_inv_def)
  from f ts have "i = 0 \<and> t0 = Calling f \<or> i = 1 \<and> t1 = Calling f \<or> i = 2 \<and> t2 = Calling f"
    by (auto simp: less_Suc_eq)
  then consider "i = 0" "Calling f = main_task info_case u"
    | n where "i = 0" "Calling f = balance_task info_case u n"
    | "i = 1" "Calling f = purchases_task info_case u"
    | "i = 2" "Calling f = transfers_task rng info_case u"
    | tf where "i = 2" "Calling f = naming_task rng info_case tf"
    using t unfolding main_inv_def purchases_inv_def transfers_inv_def by (metis goroutine.distinct(1))
  then show ?thesis
  proof cases
    case 1
    with r username_healthy [OF h, of u] show ?thesis
      by (auto simp: main_task_def balance_task_def)
  next
    case 2
    with r balance_healthy [OF h w u] show ?thesis by (auto simp: balance_task_def)
  next
    case 3
    with r purchases_healthy [OF h w u(1)] show ?thesis by (auto simp: purchases_task_def)
  next
    case 4
    with r transfers_healthy [OF h w u(1)] show ?thesis
      by (auto simp: transfers_task_def naming_task_def)
  next
    case 5
    with r convert_healthy [OF h, of tf] show ?thesis by (auto simp: naming_task_def)
  qed
qed

lemma healthy_inv_step:
  assumes u: "int4_range (sint u)" "known (sint u)"
    and inv: "healthy_inv ctx u g w" and step: "group_step ctx i (g, w) = (g', w')"
  shows "healthy_inv ctx u g' w'"
proof -
  have i: "info_inv u g' w'"
    using info_inv_step [OF u(1) _ step] inv by (simp add: healthy_inv_def)
  from step show ?thesis
  proof (cases rule: group_step_cases)
    case idle
    with inv show ?thesis by simp
  next
    case (call f t v)
    from inv have "first_err g = None" "healthy ctx w" "info_inv u g w"
      by (simp_all add: healthy_inv_def)
    with healthy_call [OF this(3,2) u call(1,2)] call
    have "returned_error t = None" "healthy ctx w'" and
      p: "if i = 1 then goods_full (sint u) (v_purchases v)
        else v_purchases v = v_purchases (shared g)"
      by simp_all
    with inv i call show ?thesis
      by (cases "i = 1") (auto simp: healthy_inv_def nth_list_update)
  qed
qed

lemma GetUserInfo_healthy:
  assumes w: "inv w" and u: "int4_range (sint u)" "known (sint u)" and h: "healthy ctx w"
  shows "\<exists>info w'. UserInfoCase_GetUserInfo sched rng info_case ctx u w = (Inr info, w') \<and>
    healthy ctx w' \<and> goods_full (sint u) (tui_Goods info)"
proof -
  obtain g w' where run: "group_run ctx (sched @ remaining_calls) (group_start zero_info_vars
    [main_task info_case u, purchases_task info_case u, transfers_task rng info_case u], w) = (g, w')"
    by fastforce
  have "healthy_inv ctx u g w'"
    by (rule group_run_invariant [OF _ _ run, where P = "healthy_inv ctx u"])
      (rule healthy_inv_step [OF u], assumption+,
       use w h in \<open>simp add: healthy_inv_def info_inv_def main_inv_def purchases_inv_def
         transfers_inv_def errors_kept_def group_start_def main_task_def purchases_task_def
         transfers_task_def\<close>)
  moreover from info_group_returns [OF run] have "\<exists>e. tasks g ! 1 = Returned e" by simp
  then have "tasks g ! 1 \<noteq> purchases_task info_case u" by (auto simp: purchases_task_def)
  ultimately show ?thesis
    using run by (auto simp: healthy_inv_def UserInfoCase_GetUserInfo_def)
qed

end

end
