(* ===== verification/Store_Info_Service.thy ===== *)
theory Store_Info_Service
  imports Store_Outcomes Store_UserInfo_Facts
begin

text \<open>
  The user info use case wired as \<open>StoreApp.Run\<close> wires it: the PostgreSQL repository and the
  auth adapter keep the contracts of \<open>Store_UserInfo_Facts\<close>, given what the auth service
  promises about the names it returns (\<open>auth_directory\<close>). The states that the lookups may find are a
  set \<open>D\<close>: one state when nothing else runs, the committed states of the meantime otherwise.
\<close>

section \<open>Reading keeps the world\<close>

lemma pool_QueryRow_remote:
  fixes w :: "(store_db, 'r, 'z) node_scheme"
  assumes "pool_QueryRow store_sem ctx q args w = (r, w')"
  shows "remote w' = remote w"
  using assms
  by (auto simp: pool_QueryRow_def next_outcome_def split: if_splits list.splits outcome.splits sum.splits)

lemma pool_Query_remote:
  fixes w :: "(store_db, 'r, 'z) node_scheme"
  assumes "pool_Query store_sem ctx q args w = (r, w')"
  shows "remote w' = remote w"
  using assms
  by (auto simp: pool_Query_def next_outcome_def split: if_splits list.splits outcome.splits sum.splits)

text \<open>What a result set can be: all rows of the query, or a prefix of them with an error.\<close>

lemma pool_Query_Inr:
  assumes "pool_Query S ctx q args w = (Inr rows, w')"
  shows "\<exists>rs d. run_query S q args (durable w) = Inr (rs, d) \<and>
    (rows_data rows = rs \<or> (\<exists>n e. rows_data rows = take n rs \<and> rows_Err rows = Some e))"
  using assms
  by (auto simp: pool_Query_def dest!: next_outcome_keeps
      split: if_splits prod.splits outcome.splits sum.splits)

section \<open>Purchases\<close>

abbreviation store_info :: "(store_db, 'z) pg_scheme PgUserInfoRepository" where
  "store_info \<equiv> NewUserInfoRepository (pool store_sem) StdoutLogger"

lemma purchased_names_eq:
  assumes "wf_db db"
  shows "purchased_names u db =
    map (\<lambda>p. good_name_of db (p_good p)) (filter (\<lambda>p. p_user p = u) (purchases db))"
proof -
  have d: "distinct (map good_id (goods db))" using assms by (simp add: wf_db_def)
  have "map good_name (filter (\<lambda>g. good_id g = p_good p) (goods db)) = [good_name_of db (p_good p)]"
    if "p \<in> set (purchases db)" for p
  proof -
    have "has_good db (p_good p)" using assms that by (auto simp: wf_db_def)
    then have "find (\<lambda>g. good_id g = p_good p) (goods db) \<noteq> None"
      by (auto simp: has_good_def find_None_iff)
    then show ?thesis
      by (auto simp: filter_distinct_find [OF d] good_name_of_def)
  qed
  then have "map (\<lambda>p. map good_name (filter (\<lambda>g. good_id g = p_good p) (goods db)))
      (filter (\<lambda>p. p_user p = u) (purchases db)) =
    map (\<lambda>p. [good_name_of db (p_good p)]) (filter (\<lambda>p. p_user p = u) (purchases db))"
    by (intro map_cong) auto
  then show ?thesis unfolding purchased_names_def by (simp only: concat_map_singleton)
qed

lemma count_purchased_names:
  assumes "wf_db db"
  shows "count_list (purchased_names u db) item = count_list (bought (bank_of db)) (u, item)"
proof -
  have "count_list (map f (filter (\<lambda>p. p_user p = u) ps)) item =
      count_list (map (\<lambda>p. (p_user p, f p)) ps) (u, item)" for f ps
    by (induction ps) auto
  then show ?thesis by (simp add: purchased_names_eq [OF assms] bank_of_def)
qed

lemma uint32_of_word_of_int: "uint32_of_int (word_of_int i) = word_of_int i"
  unfolding uint32_of_int_def by (transfer; simp add: take_bit_take_bit)

lemma purchases_loop_counts:
  "\<exists>p. purchases_loop (map (\<lambda>n. [text_cell n, int_cell (c n)]) ns) acc = Inr p \<and>
     (\<forall>item. shown_quantity p item =
        (if item \<in> set ns then word_of_int (c item) else shown_quantity acc item))"
proof (induction ns arbitrary: acc)
  case (Cons n ns)
  have "shown_quantity (AList.update \<lparr>g_Name = n\<rparr> x acc) item =
      (if item = n then x else shown_quantity acc item)" for x item
    by (simp add: shown_quantity_def gomap_get_def update_conv')
  with Cons.IH [of "AList.update \<lparr>g_Name = n\<rparr> (word_of_int (c n)) acc"] show ?case
    by (auto simp: uint32_of_word_of_int)
qed simp

lemma purchases_loop_distinct:
  "purchases_loop rows acc = Inr p \<Longrightarrow> distinct (map fst acc) \<Longrightarrow> distinct (map fst p)"
  by (induction rows acc rule: purchases_loop.induct) (auto simp: distinct_update split: sum.splits)

lemma purchases_loop_keys: "purchases_loop rows [] = Inr p \<Longrightarrow> distinct (map fst p)"
  by (simp add: purchases_loop_distinct)

lemma purchases_loop_prefix:
  assumes wf: "wf_db db"
  shows "\<exists>p. purchases_loop (take k (sql_purchase_counts u db)) [] = Inr p \<and>
    (\<forall>item. shown_quantity p item = (if item \<in> set (take k (remdups (purchased_names u db)))
       then owned (bank_of db) u item else 0))"
proof -
  have "shown_quantity [] item = 0" for item by (simp add: shown_quantity_def gomap_get_def)
  moreover have "owned (bank_of db) u item = word_of_int (int (count_list (purchased_names u db) item))"
    for item by (simp add: owned_def count_purchased_names [OF wf])
  moreover obtain p where "purchases_loop (take k (sql_purchase_counts u db)) [] = Inr p"
    "\<And>item. shown_quantity p item = (if item \<in> set (take k (remdups (purchased_names u db)))
       then word_of_int (int (count_list (purchased_names u db) item)) else shown_quantity [] item)"
    using purchases_loop_counts [of "\<lambda>n. int (count_list (purchased_names u db) n)"
      "take k (remdups (purchased_names u db))" "[]"]
    unfolding sql_purchase_counts_def Let_def take_map by blast
  ultimately show ?thesis by simp
qed

lemma purchases_loop_all:
  assumes wf: "wf_db db"
  shows "\<exists>p. purchases_loop (sql_purchase_counts u db) [] = Inr p \<and> goods_exact (bank_of db) u p"
proof -
  have "owned (bank_of db) u item = 0" if "item \<notin> set (purchased_names u db)" for item
    using that count_purchased_names [OF wf, of u item] by (simp add: owned_def count_list_0_iff)
  with purchases_loop_prefix [OF wf, of "length (sql_purchase_counts u db)" u] show ?thesis
    by (auto simp: goods_exact_def sql_purchase_counts_def Let_def dest: purchases_loop_keys)
qed

lemma FetchUserPurchases_found:
  assumes wf: "wf_db (durable w)"
    and r: "UserInfoRepository_FetchUserPurchases store_info ctx u w = (Inr p, w')"
  shows "goods_partial (bank_of (durable w)) (sint u) p"
proof -
  from r obtain rows where q: "pool_Query store_sem ctx SqlPurchaseCounts [AInt u] w = (Inr rows, w')"
    and l: "purchases_loop (rows_data rows) [] = Inr p"
    by (auto simp: UserInfoRepository_FetchUserPurchases_def NewUserInfoRepository_def
        split: prod.splits sum.splits)
  from pool_Query_Inr [OF q] obtain k where
    "rows_data rows = take k (sql_purchase_counts (sint u) (durable w))"
    by (auto simp: store_query_cases split: if_splits)
       (metis take_all order_refl)
  with purchases_loop_prefix [OF wf, of k "sint u"] l show ?thesis
    by (auto simp: goods_partial_def dest: purchases_loop_keys)
qed

section \<open>Balance and transfers\<close>

lemma FetchUserBalance_found:
  assumes wf: "wf_db (durable w)"
    and r: "UserInfoRepository_FetchUserBalance store_info ctx u w = (Inr v, w')"
  shows "accounts (bank_of (durable w)) (sint u) = Some (uint v)"
proof -
  from r obtain c where q: "pool_QueryRow store_sem ctx SqlSelectBalance [AInt u] w = (Inr [c], w')"
    and c: "scan_uint32 c = Inr v"
    by (auto simp: UserInfoRepository_FetchUserBalance_def NewUserInfoRepository_def Scan1_Inr
        split: prod.splits sum.splits if_splits)
  from pool_QueryRow_ok [OF q] obtain x where
    x: "map_of (balances (durable w)) (sint u) = Some x" "c = int_cell x"
    by (auto simp: store_query_cases sql_balance_rows_eq [OF wf] split: if_splits option.splits)
  from wf_db_balance [OF wf x(1)] x c show ?thesis
    by (simp add: accounts_bank_of scan_uint32_int_cell_Inr uint_uint32_of_int4)
qed

lemma process_loop_cells:
  "process_loop (map transaction_cells ts) target acc =
     Inr (acc @ map (\<lambda>t. \<lparr>dt_TargetID = target \<lparr>tr_fromUserID = word_of_int (t_from t),
         tr_toUserID = word_of_int (t_to t), tr_amount = word_of_int (t_amount t)\<rparr>,
       dt_Amount = word_of_int (t_amount t)\<rparr>) ts)"
  by (induction ts arbitrary: acc)
    (simp_all add: transaction_cells_def Let_def uint32_of_word_of_int)

lemma wf_db_transaction:
  assumes "wf_db db" "t \<in> set (transactions db)"
  shows "int4_range (t_from t)" "int4_range (t_to t)" "int4_range (t_amount t)"
  using assms wf_db_balance(1) [OF assms(1)] by (auto simp: wf_db_def has_account_def)

lemma raw_pairs_transactions:
  assumes wf: "wf_db db" and ok: "ledger_ok (bank_of db)" and sub: "set ts \<subseteq> set (transactions db)"
  shows "raw_pairs (map (\<lambda>t. \<lparr>dt_TargetID = word_of_int (t_to t), dt_Amount = word_of_int (t_amount t)\<rparr>) ts)
      = map (\<lambda>t. (t_to t, t_amount t)) ts"
    and "raw_pairs (map (\<lambda>t. \<lparr>dt_TargetID = word_of_int (t_from t), dt_Amount = word_of_int (t_amount t)\<rparr>) ts)
      = map (\<lambda>t. (t_from t, t_amount t)) ts"
proof -
  have "0 \<le> t_amount t" if "t \<in> set ts" for t
    using ok sub that by (auto simp: ledger_ok_def bank_of_def)
  then show "raw_pairs (map (\<lambda>t. \<lparr>dt_TargetID = word_of_int (t_to t), dt_Amount = word_of_int (t_amount t)\<rparr>) ts)
      = map (\<lambda>t. (t_to t, t_amount t)) ts"
    and "raw_pairs (map (\<lambda>t. \<lparr>dt_TargetID = word_of_int (t_from t), dt_Amount = word_of_int (t_amount t)\<rparr>) ts)
      = map (\<lambda>t. (t_from t, t_amount t)) ts"
    using wf_db_transaction [OF wf] sub
    by (auto simp: raw_pairs_def sint_goint_of_int4 uint_uint32_of_int4)
qed

lemma ledger_bank_of: "ledger (bank_of db) = map (\<lambda>t. (t_from t, t_to t, t_amount t)) (transactions db)"
  by (simp add: bank_of_def)

lemma transfers_of_bank:
  "outcoming_of (bank_of db) u = map (\<lambda>t. (t_to t, t_amount t)) (filter (\<lambda>t. t_from t = u) (transactions db))"
  "incoming_of (bank_of db) u = map (\<lambda>t. (t_from t, t_amount t)) (filter (\<lambda>t. t_to t = u) (transactions db))"
  by (simp_all add: outcoming_of_def incoming_of_def ledger_bank_of filter_map o_def)

lemma processRows_idle:
  "(\<And>rows w. RowsClose e rows w = w) \<Longrightarrow> processRows e rows target w = (processed_rows rows target, w)"
  by (simp add: processRows_def)

lemma processRows_pool [simp]: "processRows (pool S) rows target w = (processed_rows rows target, w)"
  by (rule processRows_idle) simp

lemma processed_rows_Inr:
  assumes "processed_rows rows target = Inr ts"
    and "rows_data rows = rs \<or> (\<exists>n e. rows_data rows = take n rs \<and> rows_Err rows = Some e)"
  shows "process_loop rs target [] = Inr ts"
  using assms by (auto simp: processed_rows_def split: sum.splits option.splits)

lemma outcoming_found:
  assumes wf: "wf_db (durable w)" "ledger_ok (bank_of (durable w))"
    and q: "pool_Query store_sem ctx SqlOutcoming [AInt u] w = (Inr rows, w')"
    and p: "processed_rows rows tr_toUserID = Inr ts"
  shows "raw_pairs ts = outcoming_of (bank_of (durable w)) (sint u)"
proof -
  from pool_Query_Inr [OF q] processed_rows_Inr [OF p] have
    "process_loop (map transaction_cells (filter (\<lambda>t. t_from t = sint u) (transactions (durable w))))
      tr_toUserID [] = Inr ts"
    by (auto simp: store_query_cases split: if_splits)
  then have "ts = map (\<lambda>t. \<lparr>dt_TargetID = word_of_int (t_to t), dt_Amount = word_of_int (t_amount t)\<rparr>)
      (filter (\<lambda>t. t_from t = sint u) (transactions (durable w)))"
    by (simp add: process_loop_cells)
  then show ?thesis
    unfolding transfers_of_bank by (simp only:) (intro raw_pairs_transactions [OF wf]; auto)
qed

lemma incoming_found:
  assumes wf: "wf_db (durable w)" "ledger_ok (bank_of (durable w))"
    and q: "pool_Query store_sem ctx SqlIncoming [AInt u] w = (Inr rows, w')"
    and p: "processed_rows rows tr_fromUserID = Inr ts"
  shows "raw_pairs ts = incoming_of (bank_of (durable w)) (sint u)"
proof -
  from pool_Query_Inr [OF q] processed_rows_Inr [OF p] have
    "process_loop (map transaction_cells (filter (\<lambda>t. t_to t = sint u) (transactions (durable w))))
      tr_fromUserID [] = Inr ts"
    by (auto simp: store_query_cases split: if_splits)
  then have "ts = map (\<lambda>t. \<lparr>dt_TargetID = word_of_int (t_from t), dt_Amount = word_of_int (t_amount t)\<rparr>)
      (filter (\<lambda>t. t_to t = sint u) (transactions (durable w)))"
    by (simp add: process_loop_cells)
  then show ?thesis
    unfolding transfers_of_bank by (simp only:) (intro raw_pairs_transactions [OF wf]; auto)
qed

lemma FetchUserCoinTransfers_Inr:
  assumes "UserInfoRepository_FetchUserCoinTransfers uif ctx u w = (Inr h, w')"
    and idle: "\<And>rows w. RowsClose (uif_queryExecuter uif) rows w = w"
  obtains outs ins w1 where
    "Query (uif_queryExecuter uif) ctx SqlOutcoming [AInt u] w = (Inr outs, w1)"
    "Query (uif_queryExecuter uif) ctx SqlIncoming [AInt u] w1 = (Inr ins, w')"
    "processed_rows outs tr_toUserID = Inr (th_OutcomingTransfers h)"
    "processed_rows ins tr_fromUserID = Inr (th_IncomingTransfers h)"
  using assms(1)
  by (auto simp: UserInfoRepository_FetchUserCoinTransfers_def processRows_idle idle
      split: prod.splits sum.splits)

lemma FetchUserCoinTransfers_found:
  assumes wf: "wf_db (durable w)" "ledger_ok (bank_of (durable w))"
    and r: "UserInfoRepository_FetchUserCoinTransfers store_info ctx u w = (Inr h, w')"
  shows "raw_pairs (th_IncomingTransfers h) = incoming_of (bank_of (durable w)) (sint u) \<and>
    raw_pairs (th_OutcomingTransfers h) = outcoming_of (bank_of (durable w)) (sint u)"
proof -
  from r obtain outs ins w1 where
      q1: "pool_Query store_sem ctx SqlOutcoming [AInt u] w = (Inr outs, w1)"
      and q2: "pool_Query store_sem ctx SqlIncoming [AInt u] w1 = (Inr ins, w')"
      and p: "processed_rows outs tr_toUserID = Inr (th_OutcomingTransfers h)"
        "processed_rows ins tr_fromUserID = Inr (th_IncomingTransfers h)"
    by (auto elim!: FetchUserCoinTransfers_Inr simp: NewUserInfoRepository_def)
  from outcoming_found [OF wf q1 p(1)] incoming_found [OF _ _ q2 p(2)] wf pool_Query_durable [OF q1]
  show ?thesis by simp
qed

lemmas info_repository_defs =
  UserInfoRepository_FetchUserBalance_def UserInfoRepository_FetchUserPurchases_def
  UserInfoRepository_FetchUserCoinTransfers_def NewUserInfoRepository_def

definition node_keeps ::
  "(store_db, 'r, 'z) node_scheme \<Rightarrow> (store_db, 'r, 'z) node_scheme \<Rightarrow> bool" where
  "node_keeps w w' \<longleftrightarrow> durable w' = durable w \<and> remote w' = remote w"

lemma node_keeps_trans: "node_keeps w w1 \<Longrightarrow> node_keeps w1 w2 \<Longrightarrow> node_keeps w w2"
  by (simp add: node_keeps_def)

lemma pool_keeps:
  "pool_QueryRow store_sem ctx q args w = (r, w') \<Longrightarrow> node_keeps w w'"
  "pool_Query store_sem ctx q args w = (rs, w') \<Longrightarrow> node_keeps w w'"
  by (simp_all add: node_keeps_def pool_QueryRow_durable pool_Query_durable pool_QueryRow_remote
      pool_Query_remote)

lemma FetchUserBalance_keeps:
  assumes "UserInfoRepository_FetchUserBalance store_info ctx u w = (r, w')"
  shows "node_keeps w w'"
proof -
  obtain row w1 where q: "pool_QueryRow store_sem ctx SqlSelectBalance [AInt u] w = (row, w1)"
    by fastforce
  with assms have "w' = w1" by (auto simp: info_repository_defs split: sum.splits if_splits)
  with pool_keeps(1) [OF q] show ?thesis by simp
qed

lemma FetchUserPurchases_keeps:
  assumes "UserInfoRepository_FetchUserPurchases store_info ctx u w = (r, w')"
  shows "node_keeps w w'"
proof -
  obtain rows w1 where q: "pool_Query store_sem ctx SqlPurchaseCounts [AInt u] w = (rows, w1)"
    by fastforce
  with assms have "w' = w1" by (auto simp: info_repository_defs split: sum.splits)
  with pool_keeps(2) [OF q] show ?thesis by simp
qed

lemma FetchUserCoinTransfers_keeps:
  assumes "UserInfoRepository_FetchUserCoinTransfers store_info ctx u w = (r, w')"
  shows "node_keeps w w'"
proof -
  obtain outs w1 where q1: "pool_Query store_sem ctx SqlOutcoming [AInt u] w = (outs, w1)"
    by fastforce
  obtain ins w2 where q2: "pool_Query store_sem ctx SqlIncoming [AInt u] w1 = (ins, w2)"
    by fastforce
  from assms q1 q2 have "w' = w1 \<or> w' = w2"
    by (cases outs; cases ins) (auto simp: info_repository_defs split: sum.splits)
  with pool_keeps(2) [OF q1] pool_keeps(2) [OF q2] show ?thesis by (auto dest: node_keeps_trans)
qed

lemmas info_repository_keeps =
  FetchUserBalance_keeps FetchUserPurchases_keeps FetchUserCoinTransfers_keeps

text \<open>What the lookups may answer when each of them sees a state of \<open>D\<close>.\<close>

definition balance_in :: "store_db set \<Rightarrow> int \<Rightarrow> int \<Rightarrow> bool" where
  "balance_in D u v \<longleftrightarrow> (\<exists>d \<in> D. accounts (bank_of d) u = Some v)"

definition goods_in :: "store_db set \<Rightarrow> int \<Rightarrow> (Good, uint32) gomap \<Rightarrow> bool" where
  "goods_in D u p \<longleftrightarrow> (\<exists>d \<in> D. goods_partial (bank_of d) u p)"

definition goods_full_in :: "store_db set \<Rightarrow> int \<Rightarrow> (Good, uint32) gomap \<Rightarrow> bool" where
  "goods_full_in D u p \<longleftrightarrow> (\<exists>d \<in> D. goods_exact (bank_of d) u p)"

definition history_in :: "store_db set \<Rightarrow> int \<Rightarrow> (int \<times> int) list \<Rightarrow> (int \<times> int) list \<Rightarrow> bool" where
  "history_in D u incoming outcoming \<longleftrightarrow>
     (\<exists>d \<in> D. ledger_ok (bank_of d) \<and> incoming = incoming_of (bank_of d) u) \<and>
     (\<exists>d \<in> D. ledger_ok (bank_of d) \<and> outcoming = outcoming_of (bank_of d) u)"

lemmas lookup_in_defs = balance_in_def goods_in_def goods_full_in_def history_in_def

lemma history_in_ids:
  "history_in D u incoming outcoming \<Longrightarrow> (i, a) \<in> set incoming \<union> set outcoming \<Longrightarrow> int4_range i"
  by (fastforce simp: history_in_def incoming_of_def outcoming_of_def ledger_ok_def)

definition sound_states :: "store_db set \<Rightarrow> bool" where
  "sound_states D \<longleftrightarrow> (\<forall>d \<in> D. wf_db d \<and> ledger_ok (bank_of d))"

definition reads_in ::
  "store_db set \<Rightarrow> ('r \<Rightarrow> int \<Rightarrow> string) \<Rightarrow> (int \<Rightarrow> string) \<Rightarrow> (store_db, 'r, 'z) node_scheme \<Rightarrow> bool" where
  "reads_in D nm name w \<longleftrightarrow> sound_states D \<and> durable w \<in> D \<and> nm (remote w) = name"

lemma reads_in_keeps: "reads_in D nm name w \<Longrightarrow> node_keeps w w' \<Longrightarrow> reads_in D nm name w'"
  by (simp add: reads_in_def node_keeps_def)

lemma reads_in_state:
  "reads_in D nm name w \<Longrightarrow> wf_db (durable w) \<and> ledger_ok (bank_of (durable w)) \<and> durable w \<in> D"
  by (auto simp: reads_in_def sound_states_def)

lemma FetchUserBalance_in:
  "reads_in D nm name w \<Longrightarrow> UserInfoRepository_FetchUserBalance store_info ctx u w = (Inr v, w') \<Longrightarrow>
   balance_in D (sint u) (uint v)"
  using FetchUserBalance_found [of w ctx u v w'] by (auto simp: balance_in_def dest: reads_in_state)

lemma FetchUserPurchases_in:
  "reads_in D nm name w \<Longrightarrow> UserInfoRepository_FetchUserPurchases store_info ctx u w = (Inr p, w') \<Longrightarrow>
   goods_in D (sint u) p"
  using FetchUserPurchases_found [of w ctx u p w'] by (auto simp: goods_in_def dest: reads_in_state)

lemma FetchUserCoinTransfers_in:
  "reads_in D nm name w \<Longrightarrow>
   UserInfoRepository_FetchUserCoinTransfers store_info ctx u w = (Inr h, w') \<Longrightarrow>
   history_in D (sint u) (raw_pairs (th_IncomingTransfers h)) (raw_pairs (th_OutcomingTransfers h))"
  using FetchUserCoinTransfers_found [of w ctx u h w'] by (auto simp: history_in_def dest: reads_in_state)

interpretation pg_info: user_info_repository
    "reads_in D nm name :: 'r store_node \<Rightarrow> bool" "balance_in D" "goods_in D" "history_in D"
    "PgUserInfoRepository_UserInfoRepository store_info"
  for D and nm :: "'r \<Rightarrow> int \<Rightarrow> string" and name
  by unfold_locales
    (auto simp: PgUserInfoRepository_UserInfoRepository_def
      dest: info_repository_keeps FetchUserBalance_in FetchUserPurchases_in FetchUserCoinTransfers_in
      intro: reads_in_keeps history_in_ids)

section \<open>Names from the auth service\<close>

text \<open>
  What the store relies on: a reply to \<open>GetUsernames\<close> holds the right name of every id that was
  asked for (the empty name for an unknown id), and asking changes no name. The order in which
  the reply's map is visited is open (\<open>visit\<close>).
\<close>

locale auth_directory =
  fixes client :: "'r AuthServiceClient"
    and nm :: "'r \<Rightarrow> int \<Rightarrow> string"
    and visit :: "(int32 \<times> string) list \<Rightarrow> (int32 \<times> string) list"
  assumes directory_keeps: "asc_GetUsernames client ctx req r = (x, r') \<Longrightarrow> nm r' = nm r"
    and directory_keys: "asc_GetUsernames client ctx req r = (Inr resp, r') \<Longrightarrow>
      distinct (map fst (unr_Usernames resp))"
    and directory_right: "asc_GetUsernames client ctx req r = (Inr resp, r') \<Longrightarrow>
      i \<in> set (unq_UserIDs req) \<Longrightarrow> gomap_get [] (unr_Usernames resp) i = nm r (sint i)"
    and visit: "range_order visit"
begin

abbreviation name_adapter :: "(store_db, 'r, 'z) node_scheme AuthAdapter" where
  "name_adapter \<equiv> NewAuthAdapter (remote_AuthServiceClient client)"

lemma GetUsernames_call:
  assumes "AuthAdapter_GetUsernames visit name_adapter ctx us w = (x, w')"
  shows "\<exists>r r'. asc_GetUsernames client (WithTimeout ctx store_contextTimeLimit)
      \<lparr>unq_UserIDs = map int32_of_int us\<rparr> (remote w) = (r, r') \<and> w' = w\<lparr>remote := r'\<rparr> \<and>
    x = (case r of Inl e \<Rightarrow> Inl e | Inr resp \<Rightarrow> Inr (convert_usernames (visit (unr_Usernames resp)) []))"
  using assms
  by (auto simp: AuthAdapter_GetUsernames_def Let_def NewAuthAdapter_def
      remote_AuthServiceClient_def remote_call_def split: prod.splits sum.splits)

lemma GetUsernames_right:
  assumes "AuthAdapter_GetUsernames visit name_adapter ctx us w = (Inr m, w')"
    and i: "i \<in> set us" "int4_range (sint i)"
  shows "gomap_get [] m i = nm (remote w) (sint i)"
proof -
  from GetUsernames_call [OF assms(1)] obtain r r' where
      r: "asc_GetUsernames client (WithTimeout ctx store_contextTimeLimit)
        \<lparr>unq_UserIDs = map int32_of_int us\<rparr> (remote w) = (r, r')"
      "Inr m = (case r of Inl e \<Rightarrow> Inl e | Inr resp \<Rightarrow> Inr (convert_usernames (visit (unr_Usernames resp)) []))"
    by blast
  then obtain resp where c: "asc_GetUsernames client (WithTimeout ctx store_contextTimeLimit)
        \<lparr>unq_UserIDs = map int32_of_int us\<rparr> (remote w) = (Inr resp, r')"
      and m: "m = convert_usernames (visit (unr_Usernames resp)) []"
    by (cases r) auto
  note v = map_of_range_order [OF visit directory_keys [OF c]]
  have "map_of m (int_of_int32 (int32_of_int i)) = map_of (unr_Usernames resp) (int32_of_int i)"
    unfolding m map_of_convert_usernames [OF v(2)] map_of_map_int32 v(1) by (simp split: option.split)
  then have "map_of m i = map_of (unr_Usernames resp) (int32_of_int i)"
    by (simp add: int_of_int32_of_int [OF i(2)])
  moreover have "gomap_get [] (unr_Usernames resp) (int32_of_int i) = nm (remote w) (sint i)"
    using directory_right [OF c, of "int32_of_int i"] i by (simp add: sint_int32_in_range)
  ultimately show ?thesis by (simp add: gomap_get_def)
qed

lemma GetUsernames_keeps:
  assumes "AuthAdapter_GetUsernames visit name_adapter ctx us w = (x, w')"
  shows "durable w' = durable w \<and> nm (remote w') = nm (remote w)"
  using GetUsernames_call [OF assms] directory_keeps by fastforce

lemma GetUsername_call:
  assumes "GetUsername (AuthAdapter_UsernameGetter visit name_adapter) ctx u w = (x, w')"
  shows "\<exists>y. AuthAdapter_GetUsernames visit name_adapter ctx [u] w = (y, w') \<and>
    x = (case y of Inl e \<Rightarrow> Inl e | Inr m \<Rightarrow> Inr (gomap_get [] m u))"
  using assms
  by (auto simp: AuthAdapter_UsernameGetter_def AuthAdapter_GetUsername_def
      split: prod.splits sum.splits)

text \<open>The laws of a name getter, for any world with this peer whose invariant keeps the names.\<close>

lemma name_getter:
  fixes inv :: "(store_db, 'r, 'z) node_scheme \<Rightarrow> bool"
  assumes name: "\<And>w. inv w \<Longrightarrow> nm (remote w) = name"
    and kept: "\<And>w r'. inv w \<Longrightarrow> nm r' = nm (remote w) \<Longrightarrow> inv (w\<lparr>remote := r'\<rparr>)"
  shows "username_getter inv name (AuthAdapter_UsernameGetter visit name_adapter)"
proof -
  have keeps: "inv w'"
    if "inv w" "AuthAdapter_GetUsernames visit name_adapter ctx us w = (x, w')" for ctx us w x w'
    using GetUsernames_call [OF that(2)] directory_keeps kept [OF that(1)] by fastforce
  have getter: "GetUsernames (AuthAdapter_UsernameGetter visit name_adapter) =
      AuthAdapter_GetUsernames visit (name_adapter :: (store_db, 'r, 'z) node_scheme AuthAdapter)"
    by (simp add: AuthAdapter_UsernameGetter_def)
  show ?thesis
  proof
    fix w ctx u r1 w'
    assume "inv w" "GetUsername (AuthAdapter_UsernameGetter visit name_adapter) ctx u w = (r1, w')"
    then show "inv w'" using GetUsername_call keeps by blast
  next
    fix w u ctx n w'
    assume w: "inv w" and u: "int4_range (sint u)"
      and r: "GetUsername (AuthAdapter_UsernameGetter visit name_adapter) ctx u w = (Inr n, w')"
    from GetUsername_call [OF r] obtain y where
      y: "AuthAdapter_GetUsernames visit name_adapter ctx [u] w = (y, w')"
      "Inr n = (case y of Inl e \<Rightarrow> Inl e | Inr m \<Rightarrow> Inr (gomap_get [] m u))" by blast
    then obtain m where
      "AuthAdapter_GetUsernames visit name_adapter ctx [u] w = (Inr m, w')" "n = gomap_get [] m u"
      by (cases y) auto
    with GetUsernames_right [OF this(1), of u] u name [OF w] show "n = name (sint u)" by simp
  next
    fix w ctx us r w'
    assume "inv w" "GetUsernames (AuthAdapter_UsernameGetter visit name_adapter) ctx us w = (r, w')"
    then show "inv w'" using keeps by (auto simp: getter)
  next
    fix w ctx us m w' i
    assume "inv w" "GetUsernames (AuthAdapter_UsernameGetter visit name_adapter) ctx us w = (Inr m, w')"
      "i \<in> set us" "int4_range (sint i)"
    then show "gomap_get [] m i = name (sint i)"
      using GetUsernames_right [of ctx us w m w' i] name [of w] by (simp add: getter)
  qed
qed

end

sublocale auth_directory \<subseteq> names: username_getter
    "reads_in D nm name :: 'r store_node \<Rightarrow> bool" name "AuthAdapter_UsernameGetter visit name_adapter"
  for D name
  by (rule name_getter) (simp_all add: reads_in_def)

text \<open>The use case as it is wired, over two orders of visiting a map.\<close>

definition store_userInfoCase ::
  "((int32 \<times> string) list \<Rightarrow> (int32 \<times> string) list) \<Rightarrow> 'r AuthServiceClient \<Rightarrow>
   'r store_node UserInfoCase" where
  "store_userInfoCase visit client =
     NewUserInfoCase
       (PgUserInfoRepository_UserInfoRepository (NewUserInfoRepository (pool store_sem) StdoutLogger))
       (AuthAdapter_UsernameGetter visit (NewAuthAdapter (remote_AuthServiceClient client)))
       StdoutLogger"

locale info_directory = auth_directory client nm visit
  for client :: "'r AuthServiceClient" and nm visit +
  fixes rng :: "(goint \<times> unit) list \<Rightarrow> (goint \<times> unit) list"
  assumes rng: "range_order rng"

sublocale info_directory \<subseteq> ports: user_info_ports
    "reads_in D nm name :: 'r store_node \<Rightarrow> bool" "balance_in D" "goods_in D" "history_in D"
    "PgUserInfoRepository_UserInfoRepository store_info" name
    "AuthAdapter_UsernameGetter visit name_adapter" rng StdoutLogger
  for D name
  by unfold_locales (rule rng)

text \<open>When nothing else happens, all parts of an answer come from the one state there is.\<close>

lemma history_in_one:
  "ledger_ok (bank_of d) \<Longrightarrow>
   (\<exists>incoming outcoming. history_in {d} u incoming outcoming \<and>
      named_pairs (nth_IncomingTransfers h) = map (\<lambda>(i, a). (name i, a)) incoming \<and>
      named_pairs (nth_OutcomingTransfers h) = map (\<lambda>(i, a). (name i, a)) outcoming) \<longleftrightarrow>
   history_exact name (bank_of d) u h"
  by (auto simp: history_in_def history_exact_def)

context info_directory
begin

lemma GetUserInfo_sound:
  fixes w :: "'r store_node"
  assumes d: "wf_db (durable w)" "ledger_ok (bank_of (durable w))" and u: "int4_range (sint u)"
    and r: "UserInfoCase_GetUserInfo sched rng (store_userInfoCase visit client) ctx u w = (res, w')"
  shows "durable w' = durable w \<and> nm (remote w') = nm (remote w) \<and>
    (\<forall>info. res = Inr info \<longrightarrow>
       main_exact (nm (remote w)) (bank_of (durable w)) (sint u) (tui_Username info) (tui_Balance info) \<and>
       goods_partial (bank_of (durable w)) (sint u) (tui_Goods info) \<and>
       history_exact (nm (remote w)) (bank_of (durable w)) (sint u) (tui_CoinTransferHistory info))"
proof -
  have "reads_in {durable w} nm (nm (remote w)) w" using d by (simp add: reads_in_def sound_states_def)
  from ports.GetUserInfo_sound [OF this u r [unfolded store_userInfoCase_def]] show ?thesis
    unfolding ports.history_shown_def history_in_one [OF d(2)]
    by (auto simp: reads_in_def balance_in_def goods_in_def main_exact_def)
qed

end

section \<open>While the auth service answers, the store answers\<close>

lemma FetchUserBalance_calm:
  assumes "calm w" "\<not> cancelled ctx" "wf_db (durable w)" "int4_range (sint u)"
    and "map_of (balances (durable w)) (sint u) = Some v"
  shows "UserInfoRepository_FetchUserBalance store_info ctx u w = (Inr (word_of_int v), w)"
  using assms wf_db_balance [OF assms(3,5)]
  by (simp add: info_repository_defs pool_QueryRow_calm store_query_cases sql_balance_rows_eq
      first_row_def scan_uint32_int_cell)

lemma FetchUserPurchases_calm:
  assumes "calm w" "\<not> cancelled ctx" "wf_db (durable w)" "int4_range (sint u)"
  shows "\<exists>p. UserInfoRepository_FetchUserPurchases store_info ctx u w = (Inr p, w) \<and>
    goods_exact (bank_of (durable w)) (sint u) p"
  using assms purchases_loop_all [OF assms(3), of "sint u"]
  by (auto simp: info_repository_defs pool_Query_calm store_query_cases)

lemma FetchUserCoinTransfers_calm:
  assumes "calm w" "\<not> cancelled ctx" "int4_range (sint u)"
  shows "\<exists>h. UserInfoRepository_FetchUserCoinTransfers store_info ctx u w = (Inr h, w)"
  using assms
  by (simp add: info_repository_defs pool_Query_calm store_query_cases processed_rows_def
      process_loop_cells)

locale info_directory_up = info_directory client nm visit rng
  for client :: "'r AuthServiceClient" and nm visit rng +
  fixes up :: "'r \<Rightarrow> bool"
  assumes directory_up: "up r \<Longrightarrow> \<not> cancelled ctx \<Longrightarrow>
    \<exists>resp r'. asc_GetUsernames client ctx req r = (Inr resp, r') \<and> up r'"
begin

lemma GetUsernames_up:
  assumes "up (remote w)" "\<not> cancelled ctx"
  shows "\<exists>m r'. AuthAdapter_GetUsernames visit name_adapter ctx us w = (Inr m, w\<lparr>remote := r'\<rparr>) \<and> up r'"
proof -
  have "\<not> cancelled (WithTimeout ctx store_contextTimeLimit)"
    using assms(2) by (simp add: WithTimeout_def)
  from directory_up [OF assms(1) this, of "\<lparr>unq_UserIDs = map int32_of_int us\<rparr>"] show ?thesis
    by (auto simp: AuthAdapter_GetUsernames_def Let_def NewAuthAdapter_def
        remote_AuthServiceClient_def remote_call_def)
qed

lemma healthy_getter:
  assumes "calm w" "\<not> cancelled ctx" "up (remote w)"
  shows "\<exists>m w'. GetUsernames (AuthAdapter_UsernameGetter visit name_adapter) ctx us w = (Inr m, w') \<and>
      calm w' \<and> up (remote w')"
    and "\<exists>n w'. GetUsername (AuthAdapter_UsernameGetter visit name_adapter) ctx u w = (Inr n, w') \<and>
      calm w' \<and> up (remote w')"
  using assms(1) GetUsernames_up [OF assms(3,2), of us] GetUsernames_up [OF assms(3,2), of "[u]"]
  by (auto simp: AuthAdapter_UsernameGetter_def AuthAdapter_GetUsername_def calm_def)

end

sublocale info_directory_up \<subseteq> healthy: healthy_user_info
    "reads_in D nm name :: 'r store_node \<Rightarrow> bool" "balance_in D" "goods_in D" "history_in D"
    "PgUserInfoRepository_UserInfoRepository store_info" name
    "AuthAdapter_UsernameGetter visit name_adapter" rng StdoutLogger
    "\<lambda>ctx w. calm w \<and> \<not> cancelled ctx \<and> up (remote w)"
    "\<lambda>u. \<forall>d \<in> D. accounts (bank_of d) u \<noteq> None" "goods_full_in D"
  for D name
proof unfold_locales
  fix ctx :: go_context and u :: goint and w :: "'r store_node"
  assume h: "calm w \<and> \<not> cancelled ctx \<and> up (remote w)" and inv: "reads_in D nm name w"
    and u: "int4_range (sint u)"
  note wf = reads_in_state [OF inv]
  show "\<forall>d \<in> D. accounts (bank_of d) (sint u) \<noteq> None \<Longrightarrow>
    \<exists>v w'. FetchUserBalance (PgUserInfoRepository_UserInfoRepository store_info) ctx u w = (Inr v, w') \<and>
      calm w' \<and> \<not> cancelled ctx \<and> up (remote w')"
    using h wf u by (fastforce simp: PgUserInfoRepository_UserInfoRepository_def accounts_bank_of
        FetchUserBalance_calm)
  show "\<exists>p w'. FetchUserPurchases (PgUserInfoRepository_UserInfoRepository store_info) ctx u w =
      (Inr p, w') \<and> (calm w' \<and> \<not> cancelled ctx \<and> up (remote w')) \<and> goods_full_in D (sint u) p"
    using h wf u FetchUserPurchases_calm [of w ctx u]
    by (auto simp: PgUserInfoRepository_UserInfoRepository_def goods_full_in_def)
  show "\<exists>h w'. FetchUserCoinTransfers (PgUserInfoRepository_UserInfoRepository store_info) ctx u w =
      (Inr h, w') \<and> calm w' \<and> \<not> cancelled ctx \<and> up (remote w')"
    using h wf u FetchUserCoinTransfers_calm [of w ctx u]
    by (auto simp: PgUserInfoRepository_UserInfoRepository_def)
qed (auto dest: healthy_getter)

context info_directory_up
begin

lemma GetUserInfo_healthy:
  fixes w :: "'r store_node"
  assumes d: "wf_db (durable w)" "ledger_ok (bank_of (durable w))"
    and u: "int4_range (sint u)" "accounts (bank_of (durable w)) (sint u) \<noteq> None"
    and h: "calm w" "\<not> cancelled ctx" "up (remote w)"
  shows "\<exists>info w'. UserInfoCase_GetUserInfo sched rng (store_userInfoCase visit client) ctx u w =
      (Inr info, w') \<and> goods_exact (bank_of (durable w)) (sint u) (tui_Goods info)"
proof -
  have "reads_in {durable w} nm (nm (remote w)) w" using d by (simp add: reads_in_def sound_states_def)
  from healthy.GetUserInfo_healthy [OF this u(1), of ctx sched] u(2) h show ?thesis
    by (auto simp: store_userInfoCase_def goods_full_in_def)
qed

end

section \<open>A result that breaks off\<close>

lemma nth_notin_take: "distinct xs \<Longrightarrow> n < length xs \<Longrightarrow> xs ! n \<notin> set (take n xs)"
  by (auto simp: in_set_conv_nth nth_eq_iff_index_eq)

text \<open>
  C34. A flaw of \<open>FetchUserPurchases\<close>: it never asks \<open>rows.Err()\<close>. When the connection breaks
  after some of the rows, the function returns without an error, and an item that the user
  owns is missing from the answer; the transfers of the same user, read by \<open>processRows\<close>, are
  reported as failed in the same situation.
\<close>

theorem FetchUserPurchases_truncated:
  assumes wf: "wf_db (durable w)" and c: "\<not> cancelled ctx" and u: "int4_range (sint u)"
    and cut: "faults w = Cut n e # fs"
    and n: "n < card {item. (sint u, item) \<in> set (bought (bank_of (durable w)))}"
  shows "\<exists>p w' item. UserInfoRepository_FetchUserPurchases store_info ctx u w = (Inr p, w') \<and>
      (sint u, item) \<in> set (bought (bank_of (durable w))) \<and> shown_quantity p item = 0 \<and>
    (\<exists>w'. UserInfoRepository_FetchUserCoinTransfers store_info ctx u (w\<lparr>faults := [Cut n e]\<rparr>) =
      (Inl (OpaqueError e), w'))"
proof -
  let ?names = "purchased_names (sint u) (durable w)"
  have set: "set ?names = {item. (sint u, item) \<in> set (bought (bank_of (durable w)))}"
  proof -
    have "item \<in> set ?names \<longleftrightarrow> (sint u, item) \<in> set (bought (bank_of (durable w)))" for item
      using count_purchased_names [OF wf, of "sint u" item] by (metis count_list_0_iff)
    then show ?thesis by blast
  qed
  then have n: "n < length (remdups ?names)" using n by (simp add: length_remdups_card_conv)
  then have item: "remdups ?names ! n \<in> set ?names" "remdups ?names ! n \<notin> set (take n (remdups ?names))"
    using nth_mem [OF n] nth_notin_take [OF distinct_remdups n] by simp_all
  obtain p where p: "purchases_loop (take n (sql_purchase_counts (sint u) (durable w))) [] = Inr p"
    "shown_quantity p (remdups ?names ! n) = 0"
    using purchases_loop_prefix [OF wf, of n "sint u"] item(2) by auto
  have "\<exists>w'. UserInfoRepository_FetchUserPurchases store_info ctx u w = (Inr p, w')"
    using c u cut p(1)
    by (simp add: info_repository_defs pool_Query_def next_outcome_def store_query_cases)
  moreover have "\<exists>w'. UserInfoRepository_FetchUserCoinTransfers store_info ctx u
      (w\<lparr>faults := [Cut n e]\<rparr>) = (Inl (OpaqueError e), w')"
    using c u by (simp add: info_repository_defs pool_Query_def next_outcome_def store_query_cases
        processed_rows_def process_loop_cells take_map)
  ultimately show ?thesis using p(2) item(1) set by blast
qed

definition demo_purchases :: "unit store_node" where
  "demo_purchases = (demo_world [Cut 1 ''unexpected EOF''])
     \<lparr>durable := demo_db\<lparr>purchases := [\<lparr>p_user = 1, p_good = 2\<rparr>, \<lparr>p_user = 1, p_good = 4\<rparr>]\<rparr>\<rparr>"

theorem FetchUserPurchases_truncated_witness:
  "\<exists>p w' item. UserInfoRepository_FetchUserPurchases store_info background 1 demo_purchases =
      (Inr p, w') \<and> (1, item) \<in> set (bought (bank_of (durable demo_purchases))) \<and>
    shown_quantity p item = 0"
proof -
  have "wf_db (durable demo_purchases)"
    by (simp add: demo_purchases_def demo_db_def wf_db_def migrated_db_def seed_goods_def
        int4_range_def has_account_def has_good_def)
  moreover have b: "bought (bank_of (durable demo_purchases)) = [(1, ''cup''), (1, ''pen'')]"
    by (simp add: demo_purchases_def demo_db_def bank_of_def migrated_db_def seed_goods_def
        good_name_of_def)
  moreover have "{item. item = ''cup'' \<or> item = ''pen''} = {''cup'', ''pen''}" by auto
  moreover have "faults demo_purchases = Cut 1 ''unexpected EOF'' # []"
    by (simp add: demo_purchases_def demo_world_def)
  ultimately show ?thesis
    using FetchUserPurchases_truncated [of demo_purchases background 1 1 _ "[]"]
    by (auto simp: background_def int4_range_def)
qed

end
