(* ===== verification/Auth_Service.thy ===== *)
theory Auth_Service
  imports Auth_Domain Store_Info_Service
begin

text \<open>
  The auth service's correctness: the contract of its users repository, login proved from the
  contract, the interpretation on the PostgreSQL repository, and what the service promises the
  store about ids and names.
\<close>

section \<open>Contract of the repository\<close>

text \<open>
  \<open>known d\<close> is the user stored under each name. A call of \<open>CreateUser\<close> that fails may have
  created the user nevertheless.
\<close>

locale users_repository =
  fixes durable :: "'w \<Rightarrow> 'd"
    and wf :: "'d \<Rightarrow> bool"
    and known :: "'d \<Rightarrow> string \<Rightarrow> UserInfo option"
    and repo :: "'w UsersRepository"
  assumes try_keeps: "TryGetUserInfo repo ctx n w = (r, w') \<Longrightarrow> durable w' = durable w"
    and try_found: "wf (durable w) \<Longrightarrow> TryGetUserInfo repo ctx n w = (Inr found, w') \<Longrightarrow>
      found = known (durable w) n"
    and created: "wf (durable w) \<Longrightarrow> CreateUser repo ctx n h w = (Inr u, w') \<Longrightarrow>
      known (durable w) n = None \<and> known (durable w') = (known (durable w))(n \<mapsto> u) \<and>
      usr_Username u = n \<and> usr_PasswordHash u = h \<and> wf (durable w')"
    and create_failed: "wf (durable w) \<Longrightarrow> CreateUser repo ctx n h w = (Inl e, w') \<Longrightarrow>
      durable w' = durable w \<or>
      (\<exists>u. known (durable w) n = None \<and> known (durable w') = (known (durable w))(n \<mapsto> u) \<and>
         usr_Username u = n \<and> usr_PasswordHash u = h \<and> wf (durable w'))"

text \<open>
  \<open>domain.PasswordHasher\<close>: hashing does not touch the database. \<open>made p h\<close> says that the hash
  \<open>h\<close> has been made from the password \<open>p\<close>.
\<close>

locale password_hasher =
  fixes durable :: "'w \<Rightarrow> 'd"
    and hasher :: "'w PasswordHasher"
    and made :: "string \<Rightarrow> string \<Rightarrow> bool"
  assumes hash_keeps: "HashPassword hasher p w = (rh, w') \<Longrightarrow> durable w' = durable w"
    and hashed: "HashPassword hasher p w = (Inr h, w') \<Longrightarrow> made p h"

locale login = users_repository durable wf known repo + password_hasher durable hasher made
  for durable :: "'w \<Rightarrow> 'd" and wf known repo hasher made +
  fixes issuer :: TokenIssuer
    and secret :: string
begin

abbreviation auth_case :: "'w Authenticator" where
  "auth_case \<equiv> NewAuthenticator repo hasher issuer secret"

lemma auth_case_simps [simp]:
  "ac_usersRepository auth_case = repo" "ac_passwordHasher auth_case = hasher"
  "ac_tokenIssuer auth_case = issuer" "ac_secretKey auth_case = secret"
  by (simp_all add: NewAuthenticator_def)

text \<open>
  A token is only ever issued for the user of that name: for a user who was known, against the
  stored hash; otherwise after registering the name with the given password.
\<close>

lemma Authenticate_token:
  assumes wf: "wf (durable w)"
    and r: "Authenticator_Authenticate auth_case ctx n p w = (Inr tok, w')"
  shows "\<exists>u. known (durable w') n = Some u \<and>
    IssueToken issuer secret (usr_ID u) (usr_Username u) tokenTimeLimit = Inr tok \<and>
    (known (durable w) n = Some u \<and> durable w' = durable w \<and>
       VerifyPassword hasher p (usr_PasswordHash u) = Inr True \<or>
     known (durable w) n = None \<and> known (durable w') = (known (durable w))(n \<mapsto> u) \<and>
       made p (usr_PasswordHash u) \<and> wf (durable w'))"
proof -
  obtain r0 w0 where t: "TryGetUserInfo repo ctx n w = (r0, w0)" by fastforce
  have d0: "durable w0 = durable w" using t by (rule try_keeps)
  from r t obtain k where k: "r0 = Inr k"
    by (cases r0) (auto simp: Authenticator_Authenticate_def)
  have known: "known (durable w) n = k" using try_found [OF wf] t k by simp
  show ?thesis
  proof (cases k)
    case (Some u)
    with r t k known d0 show ?thesis
      by (auto simp: Authenticator_Authenticate_def split: sum.splits if_splits)
  next
    case None
    with r t k obtain h w1 u where h: "HashPassword hasher p w0 = (Inr h, w1)"
      and c: "CreateUser repo ctx n h w1 = (Inr u, w')"
      and i: "IssueToken issuer secret (usr_ID u) (usr_Username u) tokenTimeLimit = Inr tok"
      by (auto simp: Authenticator_Authenticate_def split: sum.splits prod.splits)
    have d1: "durable w1 = durable w" using hash_keeps [OF h] d0 by simp
    from created [OF _ c] wf d1 hashed [OF h] None known i
    show ?thesis by auto
  qed
qed

text \<open>Whatever happens, existing users stay as they are, and at most this name is registered.\<close>

lemma Authenticate_steps:
  assumes wf: "wf (durable w)"
    and r: "Authenticator_Authenticate auth_case ctx n p w = (res, w')"
  shows "wf (durable w') \<and> (known (durable w') = known (durable w) \<or>
    (\<exists>u. known (durable w) n = None \<and> known (durable w') = (known (durable w))(n \<mapsto> u) \<and>
       usr_Username u = n \<and> made p (usr_PasswordHash u)))"
proof -
  obtain r0 w0 where t: "TryGetUserInfo repo ctx n w = (r0, w0)" by fastforce
  have d0: "durable w0 = durable w" using t by (rule try_keeps)
  show ?thesis
  proof (cases "r0 = Inr None")
    case False
    with r t have "w' = w0"
      by (cases r0) (auto simp: Authenticator_Authenticate_def split: option.splits sum.splits if_splits)
    with d0 wf show ?thesis by simp
  next
    case True
    obtain rh w1 where h: "HashPassword hasher p w0 = (rh, w1)" by fastforce
    have d1: "durable w1 = durable w" using hash_keeps [OF h] d0 by simp
    show ?thesis
    proof (cases rh)
      case (Inl e)
      with r t True h d1 wf show ?thesis by (simp add: Authenticator_Authenticate_def)
    next
      case (Inr hash)
      note made = hashed [OF h [unfolded Inr]]
      obtain rc w2 where c: "CreateUser repo ctx n hash w1 = (rc, w2)" by fastforce
      with r t True h Inr have w': "w' = w2"
        by (cases rc) (simp_all add: Authenticator_Authenticate_def)
      show ?thesis
      proof (cases rc)
        case (Inl e)
        from create_failed [OF _ c [unfolded Inl]] wf d1 w' made show ?thesis by auto
      next
        case (Inr u)
        from created [OF _ c [unfolded Inr]] wf d1 w' made show ?thesis by auto
      qed
    qed
  qed
qed

end

section \<open>The PostgreSQL repository keeps the contract\<close>

definition row_info :: "user_row \<Rightarrow> UserInfo" where
  "row_info u = \<lparr>usr_ID = word_of_int (u_id u), usr_Username = u_name u, usr_PasswordHash = u_hash u\<rparr>"

definition auth_known :: "auth_db \<Rightarrow> string \<Rightarrow> UserInfo option" where
  "auth_known db n = map_option row_info (find_user db n)"

abbreviation auth_users :: "(auth_db, 'z) pg_scheme PgUsersRepository" where
  "auth_users \<equiv> NewUsersRepository (pool auth_sem) StdoutLogger"

lemma scan_auth_cells [simp]:
  "scan_int (serial_cell i) = Inr (word_of_int i)" "scan_string (varchar_cell s) = Inr s"
  by (simp_all add: serial_cell_def varchar_cell_def)

lemma user_info_cells [simp]:
  "Scan3 scan_int scan_string scan_string (Inr (user_cells u)) =
     Inr (word_of_int (u_id u), u_name u, u_hash u)"
  "user_info (word_of_int (u_id u), u_name u, u_hash u) = row_info u"
  by (simp_all add: user_cells_def user_info_def row_info_def)

lemma auth_query_opaque: "auth_query q args db = Inl e \<Longrightarrow> \<exists>s. e = OpaqueError s"
  by (auto simp: auth_query_def sql_create_user_def Let_def auth_bad_argument_def value_too_long_def
      unique_violation_def sequence_exhausted_def
      split: auth_sql.splits list.splits arg.splits if_splits)

text \<open>A row query either reports a failure of its own kind, or has run and returned its first row.\<close>

lemma auth_pool_QueryRow:
  assumes "pool_QueryRow auth_sem ctx q args w = (row, w')"
  shows "(\<exists>s. row = Inl (OpaqueError s)) \<and>
      (durable w' = durable w \<or> (\<exists>rs. auth_query q args (durable w) = Inr (rs, durable w'))) \<or>
    (\<exists>rs. auth_query q args (durable w) = Inr (rs, durable w') \<and> row = first_row rs)"
  using assms
  by (auto simp: pool_QueryRow_def context_canceled_def dest!: next_outcome_keeps auth_query_opaque
      split: if_splits prod.splits outcome.splits sum.splits)

lemma TryGetUserInfo_run:
  assumes wf: "wf_auth (durable w)"
    and r: "UsersRepository_TryGetUserInfo auth_users ctx n w = (res, w')"
  shows "durable w' = durable w \<and> (\<forall>found. res = Inr found \<longrightarrow> found = auth_known (durable w) n)"
proof -
  obtain row w1 where q: "pool_QueryRow auth_sem ctx SqlSelectUser [AString n] w = (row, w1)"
    by fastforce
  from r q have w': "w' = w1"
    by (auto simp: UsersRepository_TryGetUserInfo_def NewUsersRepository_def split: sum.splits if_splits)
  from auth_pool_QueryRow [OF q] r q w' show ?thesis
    by (auto simp: UsersRepository_TryGetUserInfo_def NewUsersRepository_def auth_query_cases
        select_user_rows [OF wf] auth_known_def first_row_def split: option.splits)
qed

lemma TryGetUserInfo_keeps:
  assumes r: "UsersRepository_TryGetUserInfo auth_users ctx n w = (res, w')"
  shows "durable w' = durable w"
proof -
  obtain row w1 where q: "pool_QueryRow auth_sem ctx SqlSelectUser [AString n] w = (row, w1)"
    by fastforce
  from r q have w': "w' = w1"
    by (auto simp: UsersRepository_TryGetUserInfo_def NewUsersRepository_def split: sum.splits if_splits)
  with auth_pool_QueryRow [OF q] show ?thesis by (auto simp: auth_query_cases)
qed

lemma sql_create_user_known:
  assumes wf: "wf_auth db" and c: "sql_create_user n h db = Inr (rs, db')"
  shows "\<exists>u. rs = [user_cells u] \<and> auth_known db n = None \<and>
    auth_known db' = (auth_known db)(n \<mapsto> row_info u) \<and> u_name u = n \<and> u_hash u = h \<and> wf_auth db'"
  using sql_create_user_Inr [OF c] wf_auth_create [OF wf c]
  by (auto simp: auth_known_def fun_eq_iff)

lemma CreateUser_run:
  assumes wf: "wf_auth (durable w)"
    and r: "UsersRepository_CreateUser auth_users ctx n h w = (res, w')"
  shows "(\<exists>e. res = Inl e) \<and> durable w' = durable w \<or>
    (\<exists>u. auth_known (durable w) n = None \<and> auth_known (durable w') = (auth_known (durable w))(n \<mapsto> u) \<and>
       usr_Username u = n \<and> usr_PasswordHash u = h \<and> wf_auth (durable w') \<and>
       (\<forall>u'. res = Inr u' \<longrightarrow> u' = u))"
proof -
  obtain row w1 where q: "pool_QueryRow auth_sem ctx SqlCreateUser [AString n, AString h] w = (row, w1)"
    by fastforce
  from r q have w': "w' = w1"
    by (auto simp: UsersRepository_CreateUser_def NewUsersRepository_def split: sum.splits)
  have res: "res = (case Scan3 scan_int scan_string scan_string row of
      Inl e \<Rightarrow> Inl e | Inr u \<Rightarrow> Inr (user_info u))"
    using r q by (auto simp: UsersRepository_CreateUser_def NewUsersRepository_def split: sum.splits)
  have new: "\<exists>u. rs = [user_cells u] \<and> auth_known (durable w) n = None \<and>
      auth_known (durable w1) = (auth_known (durable w))(n \<mapsto> row_info u) \<and> u_name u = n \<and>
      u_hash u = h \<and> wf_auth (durable w1)"
    if "sql_create_user n h (durable w) = Inr (rs, durable w1)" for rs
    using sql_create_user_known [OF wf that] .
  consider (same) s where "row = Inl (OpaqueError s)" "durable w1 = durable w"
    | (late) s rs where "row = Inl (OpaqueError s)" "sql_create_user n h (durable w) = Inr (rs, durable w1)"
    | (run) rs where "row = first_row rs" "sql_create_user n h (durable w) = Inr (rs, durable w1)"
    using auth_pool_QueryRow [OF q, unfolded auth_query_cases] by blast
  then show ?thesis
  proof cases
    case same
    then show ?thesis by (simp add: w' res)
  next
    case late
    from new [OF late(2)] obtain u where "auth_known (durable w) n = None"
      "auth_known (durable w1) = (auth_known (durable w))(n \<mapsto> row_info u)"
      "usr_Username (row_info u) = n" "usr_PasswordHash (row_info u) = h" "wf_auth (durable w1)"
      by (auto simp: row_info_def)
    moreover have "\<forall>u'. res \<noteq> Inr u'" by (simp add: res late(1))
    ultimately show ?thesis unfolding w' by blast
  next
    case run
    from new [OF run(2)] obtain u where u: "rs = [user_cells u]" "auth_known (durable w) n = None"
      "auth_known (durable w1) = (auth_known (durable w))(n \<mapsto> row_info u)"
      "usr_Username (row_info u) = n" "usr_PasswordHash (row_info u) = h" "wf_auth (durable w1)"
      by (auto simp: row_info_def)
    then have "res = Inr (row_info u)" by (simp add: res run(1) first_row_def)
    with u show ?thesis unfolding w' by blast
  qed
qed

interpretation pg_users: users_repository durable wf_auth auth_known
    "PgUsersRepository_UsersRepository auth_users"
proof unfold_locales
  fix ctx n w ro w'
  assume "TryGetUserInfo (PgUsersRepository_UsersRepository auth_users) ctx n w = (ro, w')"
  then show "durable w' = durable w"
    by (simp add: PgUsersRepository_UsersRepository_def TryGetUserInfo_keeps)
next
  fix w ctx n found w'
  assume "wf_auth (durable w)"
    "TryGetUserInfo (PgUsersRepository_UsersRepository auth_users) ctx n w = (Inr found, w')"
  then show "found = auth_known (durable w) n"
    using TryGetUserInfo_run by (fastforce simp: PgUsersRepository_UsersRepository_def)
next
  fix w ctx n h u w'
  assume "wf_auth (durable w)"
    "CreateUser (PgUsersRepository_UsersRepository auth_users) ctx n h w = (Inr u, w')"
  then show "auth_known (durable w) n = None \<and>
      auth_known (durable w') = (auth_known (durable w))(n \<mapsto> u) \<and>
      usr_Username u = n \<and> usr_PasswordHash u = h \<and> wf_auth (durable w')"
    using CreateUser_run by (fastforce simp: PgUsersRepository_UsersRepository_def)
next
  fix w ctx n h e w'
  assume "wf_auth (durable w)"
    "CreateUser (PgUsersRepository_UsersRepository auth_users) ctx n h w = (Inl e, w')"
  then show "durable w' = durable w \<or> (\<exists>u. auth_known (durable w) n = None \<and>
      auth_known (durable w') = (auth_known (durable w))(n \<mapsto> u) \<and>
      usr_Username u = n \<and> usr_PasswordHash u = h \<and> wf_auth (durable w'))"
    using CreateUser_run by (fastforce simp: PgUsersRepository_UsersRepository_def)
qed

text \<open>The argon2id hasher, whatever the package does.\<close>

definition argon_made :: "'e argon_lib \<Rightarrow> string \<Rightarrow> string \<Rightarrow> bool" where
  "argon_made lib p h \<longleftrightarrow> (\<exists>ps e e'. lib_CreateHash lib p ps e = (Inr h, e'))"

lemma argon_verify:
  "argon_ok lib \<Longrightarrow> argon_made lib q h \<Longrightarrow> lib_ComparePasswordAndHash lib p h = Inr (p = q)"
  unfolding argon_ok_def argon_made_def by blast

interpretation argon: password_hasher durable
    "ArgonPasswordHasher_PasswordHasher (NewArgonPasswordHasher lib)" "argon_made lib"
  for lib :: "'e argon_lib"
proof unfold_locales
  fix p and w w' :: "('d, 'e) node" and rh
  assume "HashPassword (ArgonPasswordHasher_PasswordHasher (NewArgonPasswordHasher lib)) p w = (rh, w')"
  then show "durable w' = durable w"
    by (simp add: ArgonPasswordHasher_PasswordHasher_def ArgonPasswordHasher_HashPassword_def
        remote_call_keeps)
next
  fix p and w w' :: "('d, 'e) node" and h
  assume "HashPassword (ArgonPasswordHasher_PasswordHasher (NewArgonPasswordHasher lib)) p w = (Inr h, w')"
  then show "argon_made lib p h"
    by (auto simp: ArgonPasswordHasher_PasswordHasher_def ArgonPasswordHasher_HashPassword_def
        NewArgonPasswordHasher_def remote_call_def argon_made_def split: prod.splits)
qed

interpretation auth_login: login durable wf_auth auth_known
    "PgUsersRepository_UsersRepository auth_users"
    "ArgonPasswordHasher_PasswordHasher (NewArgonPasswordHasher lib)" "argon_made lib" issuer secret
  for lib :: "'e argon_lib" and issuer secret
  by unfold_locales

section \<open>The service as it is wired\<close>

type_synonym 'e auth_node = "(auth_db, 'e) node"

definition auth_authenticator ::
  "'e argon_lib \<Rightarrow> TokenIssuer \<Rightarrow> string \<Rightarrow> 'e auth_node Authenticator" where
  "auth_authenticator lib issuer secret =
     NewAuthenticator (PgUsersRepository_UsersRepository auth_users)
       (ArgonPasswordHasher_PasswordHasher (NewArgonPasswordHasher lib)) issuer secret"

definition auth_server ::
  "'e argon_lib \<Rightarrow> TokenIssuer \<Rightarrow> string \<Rightarrow> 'e auth_node AuthServerGRPC" where
  "auth_server lib issuer secret =
     NewAuthServerGRPC (Authenticator_iface_of (auth_authenticator lib issuer secret))
       (PgUsersRepository_UsersRepository auth_users) StdoutLogger"

text \<open>The service seen through its generated client: a call runs the handler.\<close>

definition auth_client ::
  "((goint \<times> string) list \<Rightarrow> (goint \<times> string) list) \<Rightarrow> 'w AuthServerGRPC \<Rightarrow> 'w AuthServiceClient"
  where
  "auth_client rng s =
     \<lparr>asc_Authenticate = AuthServerGRPC_Authenticate s, asc_GetUserID = AuthServerGRPC_GetUserID s,
      asc_GetUsernames = AuthServerGRPC_GetUsernames rng s\<rparr>"

section \<open>Names and ids\<close>

definition auth_name :: "auth_db \<Rightarrow> int \<Rightarrow> string" where
  "auth_name db i = gomap_get [] (rev (map (\<lambda>u. (u_id u, u_name u)) (users db))) i"

lemma usernames_loop_rows:
  "\<exists>m. usernames_loop (map (\<lambda>u. [serial_cell (u_id u), varchar_cell (u_name u)]) us) acc = Inr m \<and>
     (distinct (map fst acc) \<longrightarrow> distinct (map fst m)) \<and>
     fst ` set m = (\<lambda>u. word_of_int (u_id u)) ` set us \<union> fst ` set acc \<and>
     map_of m k = (case map_of (rev (map (\<lambda>u. (word_of_int (u_id u), u_name u)) us)) k of
       Some n \<Rightarrow> Some n | None \<Rightarrow> map_of acc k)"
proof (induction us arbitrary: acc)
  case (Cons u us)
  from Cons [of "AList.update (word_of_int (u_id u)) (u_name u) acc"] show ?case
    by (auto simp: distinct_update dom_update update_conv' map_add_def split: option.splits)
qed simp

lemma map_of_narrow:
  assumes "distinct (map fst m)" "\<forall>i \<in> fst ` set m. int4_range (sint i)"
  shows "map_of (narrow_usernames m acc) j =
    (case map_of m (int_of_int32 j) of None \<Rightarrow> map_of acc j | Some n \<Rightarrow> Some n)"
  using assms
proof (induction m acc rule: narrow_usernames.induct)
  case (2 i n rest acc)
  have i: "int_of_int32 (int32_of_int i) = i" using 2(3) by (simp add: int_of_int32_of_int)
  have "j = int32_of_int i \<longleftrightarrow> int_of_int32 j = i"
    using int_of_int32_inject [of j "int32_of_int i"] unfolding i by blast
  moreover have "map_of rest i = None" using 2(2) by (auto simp: map_of_eq_None_iff)
  moreover have "map_of (narrow_usernames rest (AList.update (int32_of_int i) n acc)) j =
    (case map_of rest (int_of_int32 j) of
       None \<Rightarrow> map_of (AList.update (int32_of_int i) n acc) j | Some n \<Rightarrow> Some n)"
    using 2 by simp
  ultimately show ?case by (simp add: update_conv' split: option.split)
qed simp

lemma distinct_narrow:
  "distinct (map fst acc) \<Longrightarrow> distinct (map fst (narrow_usernames m acc))"
  by (induction m acc rule: narrow_usernames.induct) (auto simp: distinct_update)

lemma selected_names:
  assumes "j \<in> set ids"
  shows "map_of (rev (map (\<lambda>u. (word_of_int (u_id u), u_name u))
      (filter (\<lambda>u. list_ex (\<lambda>i. sint i = u_id u) (map int_of_int32 ids)) us))) (int_of_int32 j) =
    map_of (rev (map (\<lambda>u. (u_id u, u_name u)) us)) (sint j)"
proof (induction us)
  case (Cons u us)
  let ?chosen = "list_ex (\<lambda>i. sint i = u_id u) (map int_of_int32 ids)"
  have word: "word_of_int (sint i) = int_of_int32 i" for i :: int32
    by (simp add: int_of_int32_def)
  have key: "word_of_int (u_id u) = int_of_int32 j \<longleftrightarrow> u_id u = sint j" if chosen: "?chosen"
  proof -
    from chosen obtain i :: int32 where i: "sint i = u_id u" by (auto simp: list_ex_iff)
    show ?thesis unfolding i [symmetric] word by (auto intro: signed_word_eqI)
  qed
  show ?case
  proof (cases ?chosen)
    case True
    with key [OF True] Cons show ?thesis
      by (cases "u_id u = sint j") (auto simp: map_add_def split: option.split)
  next
    case False
    with assms have "u_id u \<noteq> sint j" by (auto simp: list_ex_iff)
    with False Cons show ?thesis by (simp add: map_add_def split: option.split)
  qed
qed simp

lemma GetUsernames_rows:
  assumes "UsersRepository_GetUsernames auth_users ctx ids w = (Inr m, w')"
  shows "durable w' = durable w \<and> usernames_loop
    (map (\<lambda>u. [serial_cell (u_id u), varchar_cell (u_name u)])
      (filter (\<lambda>u. list_ex (\<lambda>i. sint i = u_id u) ids) (users (durable w)))) [] = Inr m"
  using assms
  by (auto simp: UsersRepository_GetUsernames_def NewUsersRepository_def pool_Query_def
      auth_query_cases dest!: next_outcome_keeps
      split: if_splits prod.splits outcome.splits sum.splits option.splits)

lemma GetUsernames_durable:
  assumes "UsersRepository_GetUsernames auth_users ctx ids w = (res, w')"
  shows "durable w' = durable w"
proof -
  obtain rows w1 where q: "pool_Query auth_sem ctx SqlSelectUsernames [AInts ids] w = (rows, w1)"
    by fastforce
  from assms q have "w' = w1"
    by (auto simp: UsersRepository_GetUsernames_def NewUsersRepository_def
        split: sum.splits option.splits)
  moreover from q have "durable w1 = durable w"
    by (auto simp: pool_Query_def auth_query_cases dest!: next_outcome_keeps
        split: if_splits prod.splits outcome.splits sum.splits)
  ultimately show ?thesis by simp
qed

lemma server_GetUsernames_Inr:
  assumes rng: "range_order rng"
    and r: "AuthServerGRPC_GetUsernames rng (auth_server lib issuer secret) ctx req w = (Inr resp, w')"
  shows "distinct (map fst (unr_Usernames resp)) \<and> durable w' = durable w \<and>
    (\<forall>i \<in> set (unq_UserIDs req). gomap_get [] (unr_Usernames resp) i = auth_name (durable w) (sint i))"
proof -
  let ?us = "filter (\<lambda>u. list_ex (\<lambda>i. sint i = u_id u) (map int_of_int32 (unq_UserIDs req)))
    (users (durable w))"
  from r obtain m where m: "UsersRepository_GetUsernames auth_users ctx
      (map int_of_int32 (unq_UserIDs req)) w = (Inr m, w')"
    and resp: "unr_Usernames resp = narrow_usernames (rng m) []"
    by (auto simp: AuthServerGRPC_GetUsernames_def auth_server_def NewAuthServerGRPC_def
        PgUsersRepository_UsersRepository_def Let_def split: prod.splits sum.splits)
  note rows = GetUsernames_rows [OF m]
  have loop: "distinct (map fst m)" "fst ` set m = (\<lambda>u. word_of_int (u_id u)) ` set ?us"
    "map_of m k = map_of (rev (map (\<lambda>u. (word_of_int (u_id u), u_name u)) ?us)) k" for k
    using usernames_loop_rows [of ?us "[]" k] rows by (auto split: option.splits)
  have range: "\<forall>i \<in> fst ` set (rng m). int4_range (sint i)"
  proof -
    have "int4_range (sint (word_of_int (u_id u) :: goint))" if "u \<in> set ?us" for u
    proof -
      from that obtain i :: int32 where "sint i = u_id u" by (auto simp: list_ex_iff)
      then have "int4_range (u_id u)" using sint_int32_range [of i] by simp
      then show ?thesis by (simp add: sint_goint_of_int4)
    qed
    then show ?thesis using loop(2) by (auto simp: range_order_set [OF rng])
  qed
  note ord = map_of_range_order [OF rng loop(1)]
  have same: "map_of (unr_Usernames resp) i = map_of m (int_of_int32 i)" for i
    unfolding resp map_of_narrow [OF ord(2) range] ord(1) by (simp split: option.split)
  have "gomap_get [] (unr_Usernames resp) i = auth_name (durable w) (sint i)"
    if "i \<in> set (unq_UserIDs req)" for i
    unfolding gomap_get_def auth_name_def same loop(3) selected_names [OF that] ..
  moreover have "distinct (map fst (unr_Usernames resp))" by (simp add: resp distinct_narrow)
  ultimately show ?thesis using rows by simp
qed

lemma server_GetUsernames_durable:
  assumes "AuthServerGRPC_GetUsernames rng (auth_server lib issuer secret) ctx req w = (res, w')"
  shows "durable w' = durable w"
  using assms
  by (auto simp: AuthServerGRPC_GetUsernames_def auth_server_def NewAuthServerGRPC_def
      PgUsersRepository_UsersRepository_def Let_def dest: GetUsernames_durable
      split: prod.splits sum.splits)

end
