(* ===== verification/Auth_Login.thy ===== *)
theory Auth_Login
  imports Auth_Service
begin

text \<open>
  The properties of the auth service as it is wired: login under every schedule of failures, its
  exact outcome on a healthy connection, the status codes of its handlers, and ids against
  names. At the end the service is shown to be the directory that the store relies on.
\<close>

lemma auth_authenticator_simps [simp]:
  "ac_usersRepository (auth_authenticator lib issuer secret) = PgUsersRepository_UsersRepository auth_users"
  "ac_tokenIssuer (auth_authenticator lib issuer secret) = issuer"
  "ac_secretKey (auth_authenticator lib issuer secret) = secret"
  "HashPassword (ac_passwordHasher (auth_authenticator lib issuer secret)) p =
     remote_call (lib_CreateHash lib p optimizedParams)"
  "VerifyPassword (ac_passwordHasher (auth_authenticator lib issuer secret)) =
     lib_ComparePasswordAndHash lib"
  by (simp_all add: auth_authenticator_def NewAuthenticator_def NewArgonPasswordHasher_def
      ArgonPasswordHasher_PasswordHasher_def ArgonPasswordHasher_HashPassword_def
      ArgonPasswordHasher_VerifyPassword_def fun_eq_iff)

section \<open>An example\<close>

definition demo_argon :: "unit argon_lib" where
  "demo_argon = \<lparr>lib_CreateHash = (\<lambda>p ps e. (Inr (''h:'' @ p), e)),
     lib_ComparePasswordAndHash = (\<lambda>p h. Inr (h = ''h:'' @ p))\<rparr>"

lemma demo_argon_ok: "argon_ok demo_argon"
  by (auto simp: argon_ok_def demo_argon_def)

lemma demo_argon_made: "argon_made demo_argon p (''h:'' @ p)"
  by (simp add: argon_made_def demo_argon_def)

definition demo_issuer :: TokenIssuer where
  "demo_issuer = \<lparr>IssueToken = (\<lambda>secret i n t. Inr (secret @ ''.'' @ n))\<rparr>"

definition demo_auth_db :: auth_db where
  "demo_auth_db =
     \<lparr>users = [\<lparr>u_id = 1, u_name = ''alice'', u_hash = ''h:pw''\<rparr>,
               \<lparr>u_id = 2, u_name = ''bob'', u_hash = ''h:xy''\<rparr>], next_id = 3\<rparr>"

definition demo_auth_world :: "outcome list \<Rightarrow> unit auth_node" where
  "demo_auth_world fs =
     \<lparr>durable = demo_auth_db, tx_state = TxClosed, faults = fs, logs = [], remote = ()\<rparr>"

lemma wf_demo_auth: "wf_auth (durable (demo_auth_world fs))"
  by (simp add: demo_auth_world_def demo_auth_db_def wf_auth_def int4_range_def)

lemma known_demo_auth:
  "auth_known (durable (demo_auth_world fs)) ''alice'' =
     Some \<lparr>usr_ID = 1, usr_Username = ''alice'', usr_PasswordHash = ''h:pw''\<rparr>"
  "auth_known (durable (demo_auth_world fs)) ''carol'' = None"
  by (simp_all add: demo_auth_world_def demo_auth_db_def auth_known_def find_user_def row_info_def)

lemma calm_demo_auth [simp]: "calm (demo_auth_world [])" "\<not> cancelled background"
  by (simp_all add: calm_def demo_auth_world_def background_def)

section \<open>Login under failures\<close>

lemma Authenticate_run_safe:
  assumes lib: "argon_ok lib" and wf: "wf_auth (durable w)"
    and run: "Authenticator_Authenticate (auth_authenticator lib issuer secret) ctx n p w = (res, w')"
  shows "wf_auth (durable w') \<and>
    (auth_known (durable w') = auth_known (durable w) \<or>
     (\<exists>u. auth_known (durable w) n = None \<and>
        auth_known (durable w') = (auth_known (durable w))(n \<mapsto> u) \<and>
        usr_Username u = n \<and> argon_made lib p (usr_PasswordHash u))) \<and>
    (\<forall>tok. res = Inr tok \<longrightarrow>
       (\<exists>u. auth_known (durable w') n = Some u \<and>
          IssueToken issuer secret (usr_ID u) (usr_Username u) tokenTimeLimit = Inr tok \<and>
          (\<forall>q. argon_made lib q (usr_PasswordHash u) \<longrightarrow> p = q)))"
proof -
  have steps: "wf_auth (durable w') \<and> (auth_known (durable w') = auth_known (durable w) \<or>
    (\<exists>u. auth_known (durable w) n = None \<and> auth_known (durable w') = (auth_known (durable w))(n \<mapsto> u) \<and>
       usr_Username u = n \<and> argon_made lib p (usr_PasswordHash u)))"
    using auth_login.Authenticate_steps [OF wf run [unfolded auth_authenticator_def]] .
  have "\<exists>u. auth_known (durable w') n = Some u \<and>
      IssueToken issuer secret (usr_ID u) (usr_Username u) tokenTimeLimit = Inr tok \<and>
      (\<forall>q. argon_made lib q (usr_PasswordHash u) \<longrightarrow> p = q)" if "res = Inr tok" for tok
  proof -
    from auth_login.Authenticate_token [OF wf run [unfolded auth_authenticator_def that]] obtain u
      where u: "auth_known (durable w') n = Some u"
        "IssueToken issuer secret (usr_ID u) (usr_Username u) tokenTimeLimit = Inr tok"
        and v: "lib_ComparePasswordAndHash lib p (usr_PasswordHash u) = Inr True \<or>
          argon_made lib p (usr_PasswordHash u)"
      by (auto simp: ArgonPasswordHasher_PasswordHasher_def NewArgonPasswordHasher_def
          ArgonPasswordHasher_VerifyPassword_def)
    have "p = q" if "argon_made lib q (usr_PasswordHash u)" for q
      using v argon_verify [OF lib that, of p] argon_verify [OF lib, of p "usr_PasswordHash u" p]
        argon_verify [OF lib that, of p] by auto
    with u show ?thesis by blast
  qed
  with steps show ?thesis by blast
qed

text \<open>
  C19. Login is safe under every schedule of failures. Whatever is answered, the registered users
  stay as they are and at most the given name is added, with a hash of the given password. A
  token is only issued for the registered user of that name; for a user whose stored hash was
  made from a password, only if that password was given.
\<close>

theorem Authenticate_safe:
  assumes lib: "argon_ok lib" and wf: "wf_auth (durable w)"
    and run: "Authenticator_Authenticate (auth_authenticator lib issuer secret) ctx n p w = (res, w')"
  shows "wf_auth (durable w') \<and>
    (auth_known (durable w') = auth_known (durable w) \<or>
     (\<exists>u. auth_known (durable w) n = None \<and>
        auth_known (durable w') = (auth_known (durable w))(n \<mapsto> u) \<and>
        usr_Username u = n \<and> argon_made lib p (usr_PasswordHash u))) \<and>
    (\<forall>tok. res = Inr tok \<longrightarrow>
       (\<exists>u. auth_known (durable w') n = Some u \<and>
          IssueToken issuer secret (usr_ID u) (usr_Username u) tokenTimeLimit = Inr tok \<and>
          (\<forall>q. argon_made lib q (usr_PasswordHash u) \<longrightarrow> p = q)))"
  by (rule Authenticate_run_safe [OF assms])

section \<open>Login on a healthy connection\<close>

lemma auth_QueryRow_calm:
  assumes "calm w" "\<not> cancelled ctx"
  shows "pool_QueryRow auth_sem ctx q args w =
    (case auth_query q args (durable w) of Inl e \<Rightarrow> (Inl e, w)
     | Inr (rs, d) \<Rightarrow> (first_row rs, w\<lparr>durable := d\<rparr>))"
  using assms by (simp add: pool_QueryRow_def)

lemma TryGetUserInfo_calm:
  assumes "calm w" "\<not> cancelled ctx" "wf_auth (durable w)"
  shows "UsersRepository_TryGetUserInfo auth_users ctx n w = (Inr (auth_known (durable w) n), w)"
  using assms
  by (simp add: UsersRepository_TryGetUserInfo_def NewUsersRepository_def auth_QueryRow_calm
      auth_query_cases select_user_rows first_row_def auth_known_def split: option.split)

text \<open>
  C20. The exact outcome of a login on a healthy connection. A known user gets a token exactly when
  the password is the one the stored hash was made from, and a mismatch is reported as such;
  an unknown user is registered, if the name fits the column and ids are left, and gets a token
  for the new id.
\<close>

theorem Authenticate_outcome:
  assumes lib: "argon_ok lib" and wf: "wf_auth (durable w)"
    and w: "calm w" "\<not> cancelled ctx"
    and made: "\<And>u. auth_known (durable w) n = Some u \<Longrightarrow> argon_made lib q (usr_PasswordHash u)"
    and hash: "lib_CreateHash lib p optimizedParams (remote w) = (Inr h, e')"
  shows "\<exists>w'. Authenticator_Authenticate (auth_authenticator lib issuer secret) ctx n p w =
    (case auth_known (durable w) n of
       Some u \<Rightarrow>
         if p = q then IssueToken issuer secret (usr_ID u) (usr_Username u) tokenTimeLimit
         else Inl (AuthError (CredentialsMismatchError ''username or password is incorrect''))
     | None \<Rightarrow>
         (case sql_create_user n h (durable w) of
            Inl err \<Rightarrow> Inl err
          | Inr _ \<Rightarrow> IssueToken issuer secret (word_of_int (next_id (durable w))) n tokenTimeLimit), w') \<and>
    (if auth_known (durable w) n = None \<and> char_length n \<le> 50 \<and> int4_range (next_id (durable w))
     then auth_known (durable w') = (auth_known (durable w))
       (n \<mapsto> \<lparr>usr_ID = word_of_int (next_id (durable w)), usr_Username = n, usr_PasswordHash = h\<rparr>)
     else durable w' = durable w)"
proof (cases "auth_known (durable w) n")
  case (Some u)
  have "lib_ComparePasswordAndHash lib p (usr_PasswordHash u) = Inr (p = q)"
    using argon_verify [OF lib made [OF Some]] .
  with Some w wf show ?thesis
    by (auto simp: Authenticator_Authenticate_def PgUsersRepository_UsersRepository_def
        TryGetUserInfo_calm)
next
  case None
  define w1 where "w1 = w\<lparr>remote := e'\<rparr>"
  have w1: "calm w1" "durable w1 = durable w" using w by (simp_all add: w1_def calm_def)
  have fresh: "find_user (durable w) n = None" using None by (simp add: auth_known_def)
  have run: "Authenticator_Authenticate (auth_authenticator lib issuer secret) ctx n p w =
      (case UsersRepository_CreateUser auth_users ctx n h w1 of
         (Inl err, w) \<Rightarrow> (Inl err, w)
       | (Inr u, w) \<Rightarrow> (IssueToken issuer secret (usr_ID u) (usr_Username u) tokenTimeLimit, w))"
    using None w wf hash
    by (simp add: Authenticator_Authenticate_def PgUsersRepository_UsersRepository_def
        TryGetUserInfo_calm remote_call_def w1_def)
  show ?thesis
  proof (cases "sql_create_user n h (durable w)")
    case (Inl err)
    moreover from Inl fresh have "\<not> (char_length n \<le> 50 \<and> int4_range (next_id (durable w)))"
      by (auto simp: sql_create_user_def find_user_None Let_def split: if_splits)
    ultimately show ?thesis
      using None w w1 run
      by (auto simp: UsersRepository_CreateUser_def NewUsersRepository_def auth_QueryRow_calm
          auth_query_cases)
  next
    case (Inr r)
    obtain rs d where r: "r = (rs, d)" by fastforce
    note c = sql_create_user_Inr [OF Inr [unfolded r]]
    have "UsersRepository_CreateUser auth_users ctx n h w1 =
        (Inr \<lparr>usr_ID = word_of_int (next_id (durable w)), usr_Username = n, usr_PasswordHash = h\<rparr>,
         w1\<lparr>durable := d\<rparr>)"
      using w w1 Inr r c(4)
      by (simp add: UsersRepository_CreateUser_def NewUsersRepository_def auth_QueryRow_calm
          auth_query_cases first_row_def user_info_def)
    moreover have "auth_known d = (auth_known (durable w))
        (n \<mapsto> \<lparr>usr_ID = word_of_int (next_id (durable w)), usr_Username = n, usr_PasswordHash = h\<rparr>)"
      using c(7) by (auto simp: auth_known_def fun_eq_iff row_info_def)
    ultimately show ?thesis using None run Inr c(2,3) by simp
  qed
qed

theorem Authenticate_outcome_witness:
  "\<exists>w'. Authenticator_Authenticate (auth_authenticator demo_argon demo_issuer ''k'') background
      ''alice'' ''guess'' (demo_auth_world []) =
    (Inl (AuthError (CredentialsMismatchError ''username or password is incorrect'')), w')"
proof -
  have "lib_CreateHash demo_argon ''guess'' optimizedParams (remote (demo_auth_world [])) =
      (Inr ''h:guess'', ())"
    by (simp add: demo_argon_def)
  moreover have "argon_made demo_argon ''pw'' (usr_PasswordHash u)"
    if "auth_known (durable (demo_auth_world [])) ''alice'' = Some u" for u
    using that demo_argon_made [of "''pw''"] by (auto simp: known_demo_auth)
  ultimately show ?thesis
    using Authenticate_outcome [OF demo_argon_ok wf_demo_auth calm_demo_auth, of "''alice''" "''pw''"]
    by (fastforce simp: known_demo_auth)
qed

theorem Authenticate_safe_witness:
  "\<exists>tok w'. Authenticator_Authenticate (auth_authenticator demo_argon demo_issuer ''k'') background
      ''alice'' ''pw'' (demo_auth_world []) = (Inr tok, w') \<and>
    auth_known (durable w') ''alice'' \<noteq> None"
proof -
  have "fst (Authenticator_Authenticate (auth_authenticator demo_argon demo_issuer ''k'') background
      ''alice'' ''pw'' (demo_auth_world [])) = Inr ''k.alice''"
    by (simp add: Authenticator_Authenticate_def PgUsersRepository_UsersRepository_def
        TryGetUserInfo_calm wf_demo_auth known_demo_auth)
      (simp add: demo_argon_def demo_issuer_def)
  then obtain w' where run: "Authenticator_Authenticate
      (auth_authenticator demo_argon demo_issuer ''k'') background ''alice'' ''pw''
      (demo_auth_world []) = (Inr ''k.alice'', w')"
    by (metis prod.collapse)
  from Authenticate_safe [OF demo_argon_ok wf_demo_auth run] run show ?thesis by auto
qed

section \<open>Handlers\<close>

lemma auth_server_simps [simp]:
  "Authenticate (as_authenticator (auth_server lib issuer secret)) =
     Authenticator_Authenticate (auth_authenticator lib issuer secret)"
  "as_userRepository (auth_server lib issuer secret) = PgUsersRepository_UsersRepository auth_users"
  "as_logger (auth_server lib issuer secret) = StdoutLogger"
  by (simp_all add: auth_server_def NewAuthServerGRPC_def Authenticator_iface_of_def)

lemma Authenticate_codes:
  "\<exists>r w1 w'. Authenticator_Authenticate (auth_authenticator lib issuer secret) ctx
      (ar_Username req) (ar_Password req) w = (r, w1) \<and>
    AuthServerGRPC_Authenticate (auth_server lib issuer secret) ctx req w =
      (case r of
         Inr token \<Rightarrow> Inr \<lparr>ar_Token = token\<rparr>
       | Inl err \<Rightarrow> Inl (if errors_Is err (AuthError (CredentialsMismatchError []))
           then StatusError Unauthenticated ''mismatched credentials''
           else StatusError Internal ''internal server error''), w') \<and>
    durable w' = durable w1 \<and>
    logs w' = logs w1 @ (case r of Inr _ \<Rightarrow> []
      | Inl err \<Rightarrow> [(LevelError, ''failed to authenticate user'', [(''error'', Error err)])])"
proof -
  obtain r w1 where run: "Authenticator_Authenticate (auth_authenticator lib issuer secret) ctx
      (ar_Username req) (ar_Password req) w = (r, w1)" by fastforce
  then show ?thesis
    by (cases r) (simp_all add: AuthServerGRPC_Authenticate_def Let_def write_log_def)
qed

text \<open>
  The reply of the login handler carries nothing of an internal error: a token, or
  \<open>Unauthenticated\<close> exactly for mismatched credentials, or a plain \<open>Internal\<close>; and every
  error that is not shown to the caller has been logged.
\<close>

theorem auth_Authenticate_codes:
  "\<exists>r w1 w'. Authenticator_Authenticate (auth_authenticator lib issuer secret) ctx
      (ar_Username req) (ar_Password req) w = (r, w1) \<and>
    AuthServerGRPC_Authenticate (auth_server lib issuer secret) ctx req w =
      (case r of
         Inr token \<Rightarrow> Inr \<lparr>ar_Token = token\<rparr>
       | Inl err \<Rightarrow> Inl (if errors_Is err (AuthError (CredentialsMismatchError []))
           then StatusError Unauthenticated ''mismatched credentials''
           else StatusError Internal ''internal server error''), w') \<and>
    durable w' = durable w1 \<and>
    logs w' = logs w1 @ (case r of Inr _ \<Rightarrow> []
      | Inl err \<Rightarrow> [(LevelError, ''failed to authenticate user'', [(''error'', Error err)])])"
  by (rule Authenticate_codes)

lemma visit_order_single: "visit_order rng [x] = [x]"
  by (simp add: visit_order_def)

lemma find_distinct_key:
  "distinct (map f xs) \<Longrightarrow> x \<in> set xs \<Longrightarrow> find (\<lambda>y. f y = f x) xs = Some x"
  by (induction xs) (auto simp: image_iff)

text \<open>
  C24. Ids and names agree: on a healthy connection, a name is resolved to an id exactly when it is
  registered, and asking for the name of that id gives the name back.
\<close>

theorem GetUserID_GetUsernames:
  assumes w: "calm w" "\<not> cancelled ctx" and wf: "wf_auth (durable w)"
  shows "(case find_user (durable w) n of
      None \<Rightarrow> fst (AuthServerGRPC_GetUserID (auth_server lib issuer secret) ctx
        \<lparr>uidq_Username = n\<rparr> w) = Inl (StatusError NotFound ''user not found'')
    | Some u \<Rightarrow> \<exists>i. AuthServerGRPC_GetUserID (auth_server lib issuer secret) ctx
          \<lparr>uidq_Username = n\<rparr> w = (Inr \<lparr>uidr_UserID = i\<rparr>, w) \<and> sint i = u_id u \<and>
        AuthServerGRPC_GetUsernames (visit_order rng) (auth_server lib issuer secret) ctx
          \<lparr>unq_UserIDs = [i]\<rparr> w = (Inr \<lparr>unr_Usernames = [(i, n)]\<rparr>, w))"
proof -
  have upd: "w\<lparr>durable := durable w\<rparr> = w" by simp
  show ?thesis
  proof (cases "find_user (durable w) n")
    case None
    with w wf show ?thesis
      by (simp add: AuthServerGRPC_GetUserID_def PgUsersRepository_UsersRepository_def
          UsersRepository_GetUserID_def NewUsersRepository_def auth_QueryRow_calm auth_query_cases
          select_user_rows first_row_def Let_def)
  next
    case (Some u)
    note u = find_user_SomeD [OF Some]
    have range: "int4_range (u_id u)" using wf u(1) by (auto simp: wf_auth_def)
    define i where "i = int32_of_int (word_of_int (u_id u))"
    have i: "sint i = u_id u" "int_of_int32 i = word_of_int (u_id u)"
      using range by (simp_all add: i_def sint_int32_in_range sint_goint_of_int4 int_of_int32_of_int)
    have one: "filter (\<lambda>v. u_id v = u_id u) (users (durable w)) = [u]"
      using wf u(1) filter_distinct_find [of u_id "users (durable w)" "u_id u"]
      by (simp add: wf_auth_def find_distinct_key)
    have "AuthServerGRPC_GetUserID (auth_server lib issuer secret) ctx \<lparr>uidq_Username = n\<rparr> w =
        (Inr \<lparr>uidr_UserID = i\<rparr>, w)"
      using Some w wf by (simp add: AuthServerGRPC_GetUserID_def PgUsersRepository_UsersRepository_def
          UsersRepository_GetUserID_def NewUsersRepository_def auth_QueryRow_calm auth_query_cases
          select_user_rows first_row_def i_def)
    moreover have "AuthServerGRPC_GetUsernames (visit_order rng) (auth_server lib issuer secret) ctx
        \<lparr>unq_UserIDs = [i]\<rparr> w = (Inr \<lparr>unr_Usernames = [(i, n)]\<rparr>, w)"
      using w i range u(2) one i_def
      by (simp add: AuthServerGRPC_GetUsernames_def PgUsersRepository_UsersRepository_def
          UsersRepository_GetUsernames_def NewUsersRepository_def pool_Query_def auth_query_cases
          sint_goint_of_int4 eq_commute [of "u_id u"] visit_order_single)
    ultimately show ?thesis using Some i by simp
  qed
qed

theorem GetUserID_GetUsernames_witness:
  "AuthServerGRPC_GetUsernames (visit_order rev) (auth_server demo_argon demo_issuer ''k'') background
     \<lparr>unq_UserIDs = [2]\<rparr> (demo_auth_world []) =
   (Inr \<lparr>unr_Usernames = [(2, ''bob'')]\<rparr>, demo_auth_world [])"
proof -
  have "find_user (durable (demo_auth_world [])) ''bob'' =
      Some \<lparr>u_id = 2, u_name = ''bob'', u_hash = ''h:xy''\<rparr>"
    by (simp add: demo_auth_world_def demo_auth_db_def find_user_def)
  moreover have "sint i = 2 \<Longrightarrow> i = 2" for i :: int32
    using signed_word_eqI [of i 2] by simp
  ultimately show ?thesis
    using GetUserID_GetUsernames [OF calm_demo_auth wf_demo_auth, where n = "''bob''" and
      lib = demo_argon and issuer = demo_issuer and secret = "''k''" and rng = rev] by auto
qed

section \<open>The directory of the store\<close>

lemma server_GetUsernames_calm:
  assumes "calm w" "\<not> cancelled ctx"
  shows "\<exists>resp w'. AuthServerGRPC_GetUsernames rng (auth_server lib issuer secret) ctx req w =
    (Inr resp, w') \<and> calm w'"
proof -
  let ?ids = "map int_of_int32 (unq_UserIDs req)"
  have ids: "list_all (\<lambda>i. int4_range (sint i)) ?ids"
    by (auto simp: list_all_iff sint_int32_range)
  obtain m where "usernames_loop (map (\<lambda>u. [serial_cell (u_id u), varchar_cell (u_name u)])
      (filter (\<lambda>u. list_ex (\<lambda>i. sint i = u_id u) ?ids) (users (durable w)))) [] = Inr m"
    using usernames_loop_rows by blast
  then have "UsersRepository_GetUsernames auth_users ctx ?ids w = (Inr m, w)"
    using assms ids by (simp add: UsersRepository_GetUsernames_def NewUsersRepository_def
        pool_Query_def auth_query_cases)
  with assms show ?thesis
    by (simp add: AuthServerGRPC_GetUsernames_def PgUsersRepository_UsersRepository_def Let_def)
qed

interpretation directory: info_directory_up
    "auth_client (visit_order o1) (auth_server lib issuer secret)" "\<lambda>r. auth_name (durable r)"
    "visit_order o2" "visit_order o3" calm
  for lib :: "'e argon_lib" and issuer secret o1 o2 o3
proof unfold_locales
  fix ctx req and r r' :: "'e auth_node" and x
  assume "asc_GetUsernames (auth_client (visit_order o1) (auth_server lib issuer secret)) ctx req r =
    (x, r')"
  then show "auth_name (durable r') = auth_name (durable r)"
    by (simp add: auth_client_def server_GetUsernames_durable)
next
  fix ctx req and r r' :: "'e auth_node" and resp
  assume c: "asc_GetUsernames (auth_client (visit_order o1) (auth_server lib issuer secret)) ctx req r =
    (Inr resp, r')"
  note right = server_GetUsernames_Inr [OF range_order_visit_order, of o1 lib issuer secret ctx req r
      resp r']
  from c right show "distinct (map fst (unr_Usernames resp))" by (simp add: auth_client_def)
  fix i
  assume "i \<in> set (unq_UserIDs req)"
  with c right show "gomap_get [] (unr_Usernames resp) i = auth_name (durable r) (sint i)"
    by (simp add: auth_client_def)
next
  fix r :: "'e auth_node" and ctx :: go_context and req
  assume "calm r" "\<not> cancelled ctx"
  then show "\<exists>resp r'. asc_GetUsernames (auth_client (visit_order o1) (auth_server lib issuer secret))
      ctx req r = (Inr resp, r') \<and> calm r'"
    by (simp add: auth_client_def server_GetUsernames_calm)
qed simp_all

end
