(* ===== verification/Store_Grpc.thy ===== *)
theory Store_Grpc
  imports Store_Info_Service Jwt
begin

text \<open>
  The gRPC layer of the store (\<open>internal/store/grpc\<close>): the interceptors that authenticate a call
  and open the caller's account, the handlers with their status codes, and the server as
  \<open>createGRPCServer\<close> of \<open>internal/store/bootstrap/store_app.go\<close> chains them.
\<close>

section \<open>context.go\<close>

definition userIdContextKey :: ctx_key where
  "userIdContextKey = ContextKey ''user_id''"

type_synonym ('req, 'resp, 'w) UnaryHandler =
  "go_context \<Rightarrow> 'req \<Rightarrow> 'w \<Rightarrow> (error + 'resp) \<times> 'w"

section \<open>auth_interceptor.go\<close>

record 'w AuthInterceptorFabric =
  aif_secretKey :: string
  aif_tokenParser :: TokenParser
  aif_logger :: "'w Logger"

definition NewAuthInterceptorFabric ::
  "string \<Rightarrow> TokenParser \<Rightarrow> 'w Logger \<Rightarrow> 'w AuthInterceptorFabric" where
  "NewAuthInterceptorFabric secretKey tokenParser logger =
     \<lparr>aif_secretKey = secretKey, aif_tokenParser = tokenParser, aif_logger = logger\<rparr>"

definition getUserToken :: "go_context \<Rightarrow> error + string" where
  "getUserToken ctx =
     (case FromIncomingContext ctx of
        None \<Rightarrow> Inl (StatusError Unauthenticated ''metadata is empty'')
      | Some md \<Rightarrow>
          (case md_Get md TokenMetadataKey of
             [] \<Rightarrow> Inl (StatusError Unauthenticated ''authorization token is missing'')
           | token # _ \<Rightarrow> Inr token))"

definition AuthInterceptorFabric_GetInterceptor ::
  "'w AuthInterceptorFabric \<Rightarrow> go_context \<Rightarrow> 'req \<Rightarrow> ('req, 'resp, 'w) UnaryHandler \<Rightarrow> 'w \<Rightarrow>
   (error + 'resp) \<times> 'w" where
  "AuthInterceptorFabric_GetInterceptor i ctx req handler w =
     (case getUserToken ctx of
        Inl err \<Rightarrow>
          (Inl (StatusError Internal ''internal error''),
           log_Error (aif_logger i) ''failed to get user token'' [(''error'', Error err)] w)
      | Inr userToken \<Rightarrow>
          (case ParseToken (aif_tokenParser i) (aif_secretKey i) userToken of
             Inl err \<Rightarrow>
               (Inl (StatusError Unauthenticated ''invalid token''),
                log_Error (aif_logger i) ''failed to parse user token'' [(''error'', Error err)] w)
           | Inr userClaims \<Rightarrow>
               handler (WithValue ctx userIdContextKey (AnyInt (cl_UserID userClaims))) req w))"

section \<open>balance_interceptor.go\<close>

record 'w BalanceInterceptorFabric =
  bif_balanceEnsurer :: "'w BalanceEnsurer"
  bif_logger :: "'w Logger"

definition NewBalanceInterceptorFabric ::
  "'w BalanceEnsurer \<Rightarrow> 'w Logger \<Rightarrow> 'w BalanceInterceptorFabric" where
  "NewBalanceInterceptorFabric balanceEnsurer logger =
     \<lparr>bif_balanceEnsurer = balanceEnsurer, bif_logger = logger\<rparr>"

definition BalanceInterceptorFabric_GetInterceptor ::
  "'w BalanceInterceptorFabric \<Rightarrow> go_context \<Rightarrow> 'req \<Rightarrow> ('req, 'resp, 'w) UnaryHandler \<Rightarrow> 'w \<Rightarrow>
   (error + 'resp) \<times> 'w" where
  "BalanceInterceptorFabric_GetInterceptor i ctx req handler w =
     (case as_int (Value ctx userIdContextKey) of
        None \<Rightarrow> (Inl (StatusError Internal ''user id not found in context''), w)
      | Some userID \<Rightarrow>
          (case EnsureBalanceCreated (bif_balanceEnsurer i) ctx userID StartBalance w of
             (Some err, w) \<Rightarrow>
               (Inl (StatusError Internal ''internal error''),
                log_Error (bif_logger i) ''failed to ensure balance'' [(''error'', Error err)] w)
           | (None, w) \<Rightarrow> handler ctx req w))"

section \<open>store_service.go\<close>

record ('q, 'w) StoreServerGRPC =
  ss_purchaseCase :: "('q, 'w) PurchaseCase"
  ss_sendCoinsCase :: "('q, 'w) SendCoinsCase"
  ss_userInfoCase :: "'w UserInfoCase"
  ss_logger :: "'w Logger"

definition NewStoreServerGRPC ::
  "('q, 'w) PurchaseCase \<Rightarrow> ('q, 'w) SendCoinsCase \<Rightarrow> 'w UserInfoCase \<Rightarrow> 'w Logger \<Rightarrow>
   ('q, 'w) StoreServerGRPC" where
  "NewStoreServerGRPC purchaseCase sendCoinsCase userInfoCase logger =
     \<lparr>ss_purchaseCase = purchaseCase, ss_sendCoinsCase = sendCoinsCase,
      ss_userInfoCase = userInfoCase, ss_logger = logger\<rparr>"

definition retrieveUserID :: "go_context \<Rightarrow> error + goint" where
  "retrieveUserID ctx =
     (case as_int (Value ctx userIdContextKey) of
        None \<Rightarrow> Inl (StatusError Internal ''user id not found in context'')
      | Some userID \<Rightarrow> Inr userID)"

text \<open>The order in which the map of goods is visited is a parameter.\<close>

definition convertToUserInfoResponse ::
  "((Good \<times> uint32) list \<Rightarrow> (Good \<times> uint32) list) \<Rightarrow> TotalUserInfo \<Rightarrow> GetUserInfoResponse" where
  "convertToUserInfoResponse rng userInfo =
     \<lparr>uir_Balance = tui_Balance userInfo,
      uir_Inventory =
        map (\<lambda>(good, quantity). \<lparr>ii_Name = g_Name good, ii_Quantity = quantity\<rparr>)
          (rng (tui_Goods userInfo)),
      uir_CoinHistory = Some
        \<lparr>ch_Received =
           map (\<lambda>t. \<lparr>rci_FromUsername = ndt_TargetUsername t, rci_Amount = ndt_Amount t\<rparr>)
             (nth_IncomingTransfers (tui_CoinTransferHistory userInfo)),
         ch_Sent =
           map (\<lambda>t. \<lparr>sci_ToUsername = ndt_TargetUsername t, sci_Amount = ndt_Amount t\<rparr>)
             (nth_OutcomingTransfers (tui_CoinTransferHistory userInfo))\<rparr>\<rparr>"

text \<open>Schedules and orders that a \<open>GetUserInfo\<close> call meets.\<close>

record info_choices =
  c_sched :: "nat list"
  c_ids :: "(goint \<times> unit) list \<Rightarrow> (goint \<times> unit) list"
  c_goods :: "(Good \<times> uint32) list \<Rightarrow> (Good \<times> uint32) list"

definition StoreServerGRPC_GetUserInfo ::
  "info_choices \<Rightarrow> ('q, 'w) StoreServerGRPC \<Rightarrow> go_context \<Rightarrow> GetUserInfoRequest \<Rightarrow> 'w \<Rightarrow>
   (error + GetUserInfoResponse) \<times> 'w" where
  "StoreServerGRPC_GetUserInfo ch s ctx req w =
     (case retrieveUserID ctx of
        Inl err \<Rightarrow> (Inl err, w)
      | Inr userID \<Rightarrow>
          (case UserInfoCase_GetUserInfo (c_sched ch) (c_ids ch) (ss_userInfoCase s) ctx userID w of
             (Inl err, w) \<Rightarrow>
               (let w = log_Error (ss_logger s) ''failed to get user info'' [(''error'', Error err)] w
                in if errors_Is err (StoreError (UserNotFoundError []))
                   then (Inl (StatusError NotFound (Error err)), w)
                   else (Inl (StatusError Internal ''internal error''), w))
           | (Inr userInfo, w) \<Rightarrow> (Inr (convertToUserInfoResponse (c_goods ch) userInfo), w)))"

definition StoreServerGRPC_SendCoins ::
  "('q, 'w) StoreServerGRPC \<Rightarrow> go_context \<Rightarrow> SendCoinsRequest \<Rightarrow> 'w \<Rightarrow>
   (error + SendCoinsResponse) \<times> 'w" where
  "StoreServerGRPC_SendCoins s ctx req w =
     (case retrieveUserID ctx of
        Inl err \<Rightarrow> (Inl err, w)
      | Inr userID \<Rightarrow>
          (case SendCoinsCase_SendCoins (ss_sendCoinsCase s) ctx userID (scq_ToUsername req)
                  (scq_Amount req) w of
             (Some err, w) \<Rightarrow>
               (let w = log_Error (ss_logger s) ''failed to send coins'' [(''error'', Error err)] w
                in if errors_Is err (StoreError (InvalidArgumentsError []))
                   then (Inl (StatusError InvalidArgument (Error err)), w)
                   else if errors_Is err (StoreError (UserNotFoundError []))
                   then (Inl (StatusError NotFound ''user not found''), w)
                   else if errors_Is err (StoreError (InsufficientBalanceError []))
                   then (Inl (StatusError FailedPrecondition ''insufficient funds''), w)
                   else (Inl (StatusError Internal ''internal error''), w))
           | (None, w) \<Rightarrow> (Inr \<lparr>scr_Success = True\<rparr>, w)))"

definition StoreServerGRPC_BuyItem ::
  "('q, 'w) StoreServerGRPC \<Rightarrow> go_context \<Rightarrow> BuyItemRequest \<Rightarrow> 'w \<Rightarrow>
   (error + BuyItemResponse) \<times> 'w" where
  "StoreServerGRPC_BuyItem s ctx req w =
     (case retrieveUserID ctx of
        Inl err \<Rightarrow> (Inl err, w)
      | Inr userID \<Rightarrow>
          (case PurchaseCase_BuyItem (ss_purchaseCase s) ctx userID (biq_ItemName req) w of
             (Some err, w) \<Rightarrow>
               (let w = log_Error (ss_logger s) ''failed to purchase item'' [(''error'', Error err)] w
                in if errors_Is err (StoreError (GoodNotFoundError []))
                   then (Inl (StatusError InvalidArgument ''item not found''), w)
                   else if errors_Is err (StoreError (InsufficientBalanceError []))
                   then (Inl (StatusError FailedPrecondition ''insufficient funds''), w)
                   else if errors_Is err (StoreError (UserNotFoundError []))
                   then (Inl (StatusError NotFound ''user not found''), w)
                   else (Inl (StatusError Internal ''internal error''), w))
           | (None, w) \<Rightarrow> (Inr \<lparr>bir_Success = True\<rparr>, w)))"

section \<open>The server\<close>

text \<open>
  \<open>createGRPCServer\<close>: both interceptors around every method. A server is given by what its
  methods do for an incoming call, in the shape of the generated client.
\<close>

definition chain_interceptors ::
  "'w AuthInterceptorFabric \<Rightarrow> 'w BalanceInterceptorFabric \<Rightarrow> ('req, 'resp, 'w) UnaryHandler \<Rightarrow>
   ('req, 'resp, 'w) UnaryHandler" where
  "chain_interceptors auth balance handler ctx req =
     AuthInterceptorFabric_GetInterceptor auth ctx req
       (\<lambda>ctx req. BalanceInterceptorFabric_GetInterceptor balance ctx req handler)"

definition createGRPCServer ::
  "info_choices \<Rightarrow> ('q, 'w) PurchaseCase \<Rightarrow> ('q, 'w) SendCoinsCase \<Rightarrow> 'w UserInfoCase \<Rightarrow> 'w Logger \<Rightarrow>
   TokenParser \<Rightarrow> string \<Rightarrow> 'w BalanceEnsurer \<Rightarrow> 'w MerchStoreServiceClient" where
  "createGRPCServer ch purchaseCase sendCoinsCase userInfoCase logger tokenParser secretKey
       balanceEnsurer =
     (let auth = NewAuthInterceptorFabric secretKey tokenParser logger;
          balance = NewBalanceInterceptorFabric balanceEnsurer logger;
          storeServer = NewStoreServerGRPC purchaseCase sendCoinsCase userInfoCase logger
      in \<lparr>msc_GetUserInfo = chain_interceptors auth balance (StoreServerGRPC_GetUserInfo ch storeServer),
          msc_SendCoins = chain_interceptors auth balance (StoreServerGRPC_SendCoins storeServer),
          msc_BuyItem = chain_interceptors auth balance (StoreServerGRPC_BuyItem storeServer)\<rparr>)"

text \<open>The server that \<open>StoreApp.Run\<close> starts.\<close>

definition store_server ::
  "info_choices \<Rightarrow> ((int32 \<times> string) list \<Rightarrow> (int32 \<times> string) list) \<Rightarrow> TokenParser \<Rightarrow> string \<Rightarrow>
   'r AuthServiceClient \<Rightarrow> 'r store_node MerchStoreServiceClient" where
  "store_server ch visit tokenParser secretKey client =
     createGRPCServer ch store_purchaseCase (store_sendCoinsCase client)
       (store_userInfoCase visit client) StdoutLogger tokenParser secretKey
       (BalancesRepository_BalanceEnsurer (NewBalancesRepository (pool store_sem)))"

end
