(* ===== verification/Store_Grpc_Facts.thy ===== *)
theory Store_Grpc_Facts
  imports Store_Grpc
begin

text \<open>
  The store as its clients see it: authentication guards every method, each outcome of a use
  case has its status code, and whatever calls arrive under whatever failures, the books of the
  store balance.
\<close>

section \<open>The interceptors\<close>

text \<open>The user that the token of an incoming call names, if the token is there and parses.\<close>

definition caller :: "TokenParser \<Rightarrow> string \<Rightarrow> go_context \<Rightarrow> goint option" where
  "caller parser secret ctx =
     (case getUserToken ctx of
        Inl _ \<Rightarrow> None
      | Inr token \<Rightarrow>
          (case ParseToken parser secret token of Inl _ \<Rightarrow> None | Inr claims \<Rightarrow> Some (cl_UserID claims)))"

abbreviation store_auth :: "TokenParser \<Rightarrow> string \<Rightarrow> ('d, 'z) pg_scheme AuthInterceptorFabric" where
  "store_auth parser secret \<equiv> NewAuthInterceptorFabric secret parser StdoutLogger"

abbreviation store_open :: "(store_db, 'z) pg_scheme BalanceInterceptorFabric" where
  "store_open \<equiv> NewBalanceInterceptorFabric (BalancesRepository_BalanceEnsurer store_balances) StdoutLogger"

lemma chain_caller:
  assumes "caller parser secret ctx = Some u"
  shows "chain_interceptors (store_auth parser secret) store_open handler ctx req w =
    (case BalancesRepository_EnsureBalanceCreated store_balances
            (WithValue ctx userIdContextKey (AnyInt u)) u StartBalance w of
       (Some err, w) \<Rightarrow>
         (Inl (StatusError Internal ''internal error''),
          write_log LevelError ''failed to ensure balance'' [(''error'', Error err)] w)
     | (None, w) \<Rightarrow> handler (WithValue ctx userIdContextKey (AnyInt u)) req w)"
  using assms
  by (auto simp: caller_def chain_interceptors_def AuthInterceptorFabric_GetInterceptor_def
      NewAuthInterceptorFabric_def BalanceInterceptorFabric_GetInterceptor_def
      NewBalanceInterceptorFabric_def BalancesRepository_BalanceEnsurer_def
      split: sum.splits prod.split option.split)

lemma retrieveUserID_caller [simp]:
  "retrieveUserID (WithValue ctx userIdContextKey (AnyInt u)) = Inr u"
  by (simp add: retrieveUserID_def)

lemma cancelled_WithValue [simp]: "cancelled (WithValue ctx k v) = cancelled ctx"
  by (simp add: WithValue_def)

lemma store_server_methods:
  "msc_GetUserInfo (store_server ch visit parser secret client) =
     chain_interceptors (store_auth parser secret) store_open (StoreServerGRPC_GetUserInfo ch
       (NewStoreServerGRPC store_purchaseCase (store_sendCoinsCase client)
         (store_userInfoCase visit client) StdoutLogger))"
  "msc_SendCoins (store_server ch visit parser secret client) =
     chain_interceptors (store_auth parser secret) store_open (StoreServerGRPC_SendCoins
       (NewStoreServerGRPC store_purchaseCase (store_sendCoinsCase client)
         (store_userInfoCase visit client) StdoutLogger))"
  "msc_BuyItem (store_server ch visit parser secret client) =
     chain_interceptors (store_auth parser secret) store_open (StoreServerGRPC_BuyItem
       (NewStoreServerGRPC store_purchaseCase (store_sendCoinsCase client)
         (store_userInfoCase visit client) StdoutLogger))"
  by (simp_all add: store_server_def createGRPCServer_def Let_def)

text \<open>
  C22. Authentication guards the API. A call without a token, or with one that the parser rejects,
  changes nothing in the database and sends no statement to it, whatever the method; it is
  answered with \<open>Unauthenticated\<close> if a token was rejected and with \<open>Internal\<close> if none was sent.
\<close>

theorem store_calls_authenticated:
  assumes "caller parser secret ctx = None"
  shows "\<exists>e w1 w2 w3.
    msc_GetUserInfo (store_server ch visit parser secret client) ctx info w = (Inl e, w1) \<and>
    msc_SendCoins (store_server ch visit parser secret client) ctx send w = (Inl e, w2) \<and>
    msc_BuyItem (store_server ch visit parser secret client) ctx buy w = (Inl e, w3) \<and>
    e = (if \<exists>err. getUserToken ctx = Inl err then StatusError Internal ''internal error''
         else StatusError Unauthenticated ''invalid token'') \<and>
    (\<forall>w' \<in> {w1, w2, w3}. durable w' = durable w \<and> faults w' = faults w \<and> remote w' = remote w)"
proof (cases "getUserToken ctx")
  case (Inl err)
  then show ?thesis
    by (simp add: store_server_methods chain_interceptors_def AuthInterceptorFabric_GetInterceptor_def
        NewAuthInterceptorFabric_def) (simp add: write_log_def)
next
  case (Inr token)
  with assms obtain err where "ParseToken parser secret token = Inl err"
    by (auto simp: caller_def split: sum.splits)
  with Inr show ?thesis
    by (simp add: store_server_methods chain_interceptors_def AuthInterceptorFabric_GetInterceptor_def
        NewAuthInterceptorFabric_def) (simp add: write_log_def)
qed

section \<open>Status codes on a healthy connection\<close>

fun buy_status :: "refusal \<Rightarrow> error" where
  "buy_status NoSuchItem = StatusError InvalidArgument ''item not found''"
| "buy_status NoAccount = StatusError NotFound ''user not found''"
| "buy_status _ = StatusError FailedPrecondition ''insufficient funds''"

fun send_status :: "refusal \<Rightarrow> error" where
  "send_status SelfTransfer = StatusError InvalidArgument ''from_user must differ from to_user''"
| "send_status NoAccount = StatusError NotFound ''user not found''"
| "send_status TooMuch = StatusError Internal ''internal error''"
| "send_status _ = StatusError FailedPrecondition ''insufficient funds''"

lemma ensure_store:
  assumes "calm w" "\<not> cancelled ctx" "int4_range (sint u)" "wf_db (durable w)"
  shows "\<exists>d. BalancesRepository_EnsureBalanceCreated store_balances
      (WithValue ctx userIdContextKey (AnyInt u)) u StartBalance w = (None, w\<lparr>durable := d\<rparr>) \<and>
    wf_db d \<and> bank_of d = bank_open (sint u) (bank_of (durable w))"
  using Ensure_calm [of w "WithValue ctx userIdContextKey (AnyInt u)" u] assms
  by (auto intro: wf_db_ensure bank_of_ensure)

lemma BuyItem_reply:
  assumes w: "calm w" "\<not> cancelled ctx" and wf: "wf_db (durable w)"
    and au: "audit (bank_of (durable w))"
    and c: "caller parser secret ctx = Some u" and u: "int4_range (sint u)"
  shows "\<exists>w'. msc_BuyItem (store_server ch visit parser secret client) ctx \<lparr>biq_ItemName = item\<rparr> w =
      (case bank_buy (sint u) item (bank_open (sint u) (bank_of (durable w))) of
         Inl r \<Rightarrow> Inl (buy_status r) | Inr _ \<Rightarrow> Inr \<lparr>bir_Success = True\<rparr>, w') \<and>
    bank_of (durable w') =
      (case bank_buy (sint u) item (bank_open (sint u) (bank_of (durable w))) of
         Inl r \<Rightarrow> bank_open (sint u) (bank_of (durable w)) | Inr b \<Rightarrow> b)"
proof -
  obtain d where e: "BalancesRepository_EnsureBalanceCreated store_balances
      (WithValue ctx userIdContextKey (AnyInt u)) u StartBalance w = (None, w\<lparr>durable := d\<rparr>)"
    and d: "wf_db d" "bank_of d = bank_open (sint u) (bank_of (durable w))"
    using ensure_store [OF w u wf] by blast
  have "audit (bank_of d)" using au d(2) by (simp add: audit_open)
  with BuyItem_calm [of "w\<lparr>durable := d\<rparr>" "WithValue ctx userIdContextKey (AnyInt u)" u item] w d u
  have run: "case bank_buy (sint u) item (bank_of d) of
      Inl r \<Rightarrow> \<exists>ts. PurchaseCase_BuyItem store_purchaseCase (WithValue ctx userIdContextKey (AnyInt u)) u
        item (w\<lparr>durable := d\<rparr>) = (Some (buy_refusal u item r), w\<lparr>durable := d, tx_state := ts\<rparr>)
    | Inr b \<Rightarrow> \<exists>d'. PurchaseCase_BuyItem store_purchaseCase (WithValue ctx userIdContextKey (AnyInt u)) u
        item (w\<lparr>durable := d\<rparr>) = (None, w\<lparr>durable := d', tx_state := TxClosed\<rparr>) \<and> bank_of d' = b \<and> wf_db d'"
    by (simp split: sum.splits)
  show ?thesis
  proof (cases "bank_buy (sint u) item (bank_of d)")
    case (Inr b)
    with run obtain d' where "PurchaseCase_BuyItem store_purchaseCase
        (WithValue ctx userIdContextKey (AnyInt u)) u item (w\<lparr>durable := d\<rparr>) =
        (None, w\<lparr>durable := d', tx_state := TxClosed\<rparr>)" "bank_of d' = b" by auto
    with Inr e d show ?thesis
      by (simp add: store_server_methods chain_caller [OF c] StoreServerGRPC_BuyItem_def
          NewStoreServerGRPC_def)
  next
    case (Inl r)
    with run obtain ts where "PurchaseCase_BuyItem store_purchaseCase
        (WithValue ctx userIdContextKey (AnyInt u)) u item (w\<lparr>durable := d\<rparr>) =
        (Some (buy_refusal u item r), w\<lparr>durable := d, tx_state := ts\<rparr>)" by auto
    moreover have "r = NoSuchItem \<or> r = NoAccount \<or> r = Insufficient"
      using Inl by (auto simp: bank_buy_def split: option.splits if_splits)
    ultimately show ?thesis using Inl e d
      by (auto simp: store_server_methods chain_caller [OF c] StoreServerGRPC_BuyItem_def
          NewStoreServerGRPC_def in_transaction_def)
  qed
qed

text \<open>
  Buying over gRPC on a healthy connection. For a caller with a valid token, the account is
  opened if needed; the reply is success exactly when the abstract purchase succeeds, which is
  then committed, and each refusal has its status code and message.
\<close>

theorem store_BuyItem_reply:
  assumes w: "calm w" "\<not> cancelled ctx" and wf: "wf_db (durable w)"
    and au: "audit (bank_of (durable w))"
    and c: "caller parser secret ctx = Some u" and u: "int4_range (sint u)"
  shows "\<exists>w'. msc_BuyItem (store_server ch visit parser secret client) ctx \<lparr>biq_ItemName = item\<rparr> w =
      (case bank_buy (sint u) item (bank_open (sint u) (bank_of (durable w))) of
         Inl r \<Rightarrow> Inl (buy_status r) | Inr _ \<Rightarrow> Inr \<lparr>bir_Success = True\<rparr>, w') \<and>
    bank_of (durable w') =
      (case bank_buy (sint u) item (bank_open (sint u) (bank_of (durable w))) of
         Inl r \<Rightarrow> bank_open (sint u) (bank_of (durable w)) | Inr b \<Rightarrow> b)"
  by (rule BuyItem_reply [OF assms])

definition demo_parser :: TokenParser where
  "demo_parser = \<lparr>ParseToken = (\<lambda>secret token. if token = ''alice.'' @ secret then Inr demo_claims
     else Inl ErrTokenUnverifiable)\<rparr>"

definition demo_call :: "string \<Rightarrow> go_context" where
  "demo_call token = background\<lparr>incoming_md := Some [(TokenMetadataKey, [token])]\<rparr>"

lemma demo_caller: "caller demo_parser ''k'' (demo_call ''alice.k'') = Some 1"
  by (simp add: caller_def getUserToken_def FromIncomingContext_def demo_call_def md_Get_def
      gomap_get_def demo_parser_def demo_claims_def)

lemma demo_call_calm: "\<not> cancelled (demo_call token)"
  by (simp add: demo_call_def background_def)

definition demo_choices :: info_choices where
  "demo_choices = \<lparr>c_sched = [2, 1, 0], c_ids = (\<lambda>xs. xs), c_goods = rev\<rparr>"

theorem store_calls_authenticated_witness:
  "\<exists>w'. msc_BuyItem (store_server demo_choices rev demo_parser ''k'' demo_auth) background
      \<lparr>biq_ItemName = ''cup''\<rparr> (demo_world []) = (Inl (StatusError Internal ''internal error''), w') \<and>
    durable w' = demo_db"
proof -
  have "getUserToken background = Inl (StatusError Unauthenticated ''metadata is empty'')"
    by (simp add: getUserToken_def FromIncomingContext_def background_def)
  moreover from this have "caller demo_parser ''k'' background = None" by (simp add: caller_def)
  ultimately show ?thesis
    using store_calls_authenticated [of demo_parser "''k''" background demo_choices rev demo_auth
      "()" "demo_world []" "\<lparr>scq_ToUsername = ''bob'', scq_Amount = 1\<rparr>" "\<lparr>biq_ItemName = ''cup''\<rparr>"]
    by auto
qed

theorem store_BuyItem_reply_witness:
  "\<exists>w'. msc_BuyItem (store_server demo_choices rev demo_parser ''k'' demo_auth) (demo_call ''alice.k'')
      \<lparr>biq_ItemName = ''mug''\<rparr> (demo_world []) =
    (Inl (StatusError InvalidArgument ''item not found''), w')"
proof -
  have "bank_buy 1 ''mug'' (bank_open 1 (bank_of demo_db)) = Inl NoSuchItem"
    by (simp add: bank_buy_def bank_open_def bank_of_def demo_db_def migrated_db_def seed_goods_def)
  moreover have "calm (demo_world [])" "wf_db (durable (demo_world []))"
    "audit (bank_of (durable (demo_world [])))" by simp_all
  ultimately show ?thesis
    using store_BuyItem_reply [OF _ demo_call_calm _ _ demo_caller, of "demo_world []" demo_choices rev
      demo_auth "''mug''"]
    by (auto simp: int4_range_def)
qed

lemma SendCoins_reply:
  assumes w: "calm w" "\<not> cancelled ctx" and wf: "wf_db (durable w)"
    and c: "caller parser secret ctx = Some u" and u: "int4_range (sint u)"
    and auth: "asc_GetUserID client
        (WithTimeout (WithValue ctx userIdContextKey (AnyInt u)) store_contextTimeLimit)
        \<lparr>uidq_Username = name\<rparr> (remote w) = (found, r')"
  shows "\<exists>w'. msc_SendCoins (store_server ch visit parser secret client) ctx
        \<lparr>scq_ToUsername = name, scq_Amount = a\<rparr> w =
      (case found of
         Inl _ \<Rightarrow> Inl (StatusError NotFound ''user not found'')
       | Inr resp \<Rightarrow>
           (case bank_send (sint u) (sint (uidr_UserID resp)) (uint a)
                   (bank_open (sint u) (bank_of (durable w))) of
              (Some r, _) \<Rightarrow> Inl (send_status r)
            | (None, _) \<Rightarrow> Inr \<lparr>scr_Success = True\<rparr>), w') \<and>
    bank_of (durable w') =
      (case found of
         Inl _ \<Rightarrow> bank_open (sint u) (bank_of (durable w))
       | Inr resp \<Rightarrow> snd (bank_send (sint u) (sint (uidr_UserID resp)) (uint a)
           (bank_open (sint u) (bank_of (durable w)))))"
proof -
  let ?ctx = "WithValue ctx userIdContextKey (AnyInt u)"
  obtain d where e: "BalancesRepository_EnsureBalanceCreated store_balances ?ctx u StartBalance w =
      (None, w\<lparr>durable := d\<rparr>)"
    and d: "wf_db d" "bank_of d = bank_open (sint u) (bank_of (durable w))"
    using ensure_store [OF w u wf] by blast
  have msc: "msc_SendCoins (store_server ch visit parser secret client) ctx
      \<lparr>scq_ToUsername = name, scq_Amount = a\<rparr> w =
      StoreServerGRPC_SendCoins (NewStoreServerGRPC store_purchaseCase (store_sendCoinsCase client)
        (store_userInfoCase visit client) StdoutLogger) ?ctx
        \<lparr>scq_ToUsername = name, scq_Amount = a\<rparr> (w\<lparr>durable := d\<rparr>)"
    using e by (simp add: store_server_methods chain_caller [OF c])
  show ?thesis
  proof (cases found)
    case (Inl err)
    with auth have "SendCoinsCase_SendCoins (store_sendCoinsCase client) ?ctx u name a (w\<lparr>durable := d\<rparr>) =
        (Some (StoreError (UserNotFoundError (''user not found: '' @ name))), w\<lparr>durable := d, remote := r'\<rparr>)"
      by (simp add: SendCoinsCase_SendCoins_def store_sendCoinsCase_def NewSendCoinsCase_def
          AuthAdapter_UserIDFetcher_def AuthAdapter_FetchUserID_def NewAuthAdapter_def
          remote_AuthServiceClient_def remote_call_def)
    with Inl d show ?thesis
      by (simp add: msc StoreServerGRPC_SendCoins_def NewStoreServerGRPC_def Let_def)
  next
    case (Inr resp)
    have "calm (w\<lparr>durable := d\<rparr>)" "\<not> cancelled ?ctx" "wf_db (durable (w\<lparr>durable := d\<rparr>))"
      using w d by simp_all
    from SendCoins_calm [OF this u, of client name resp r' a] auth Inr d(2) obtain w2 where
      run: "SendCoinsCase_SendCoins (store_sendCoinsCase client) ?ctx u name a (w\<lparr>durable := d\<rparr>) =
        (map_option (send_refusal u) (fst (bank_send (sint u) (sint (uidr_UserID resp)) (uint a)
          (bank_open (sint u) (bank_of (durable w))))), w2)"
      and b: "bank_of (durable w2) = snd (bank_send (sint u) (sint (uidr_UserID resp)) (uint a)
          (bank_open (sint u) (bank_of (durable w))))"
      by auto
    obtain r b' where rb: "bank_send (sint u) (sint (uidr_UserID resp)) (uint a)
        (bank_open (sint u) (bank_of (durable w))) = (r, b')" by fastforce
    show ?thesis
    proof (cases r)
      case None
      with run b rb Inr show ?thesis
        by (simp add: msc StoreServerGRPC_SendCoins_def NewStoreServerGRPC_def)
    next
      case (Some x)
      have "x \<noteq> NoSuchItem"
        using rb Some by (auto simp: bank_send_def bank_transfer_def split: if_splits sum.splits option.splits)
      with run b rb Inr Some show ?thesis
        by (cases x) (simp_all add: msc StoreServerGRPC_SendCoins_def NewStoreServerGRPC_def Let_def
            in_transaction_def out_of_range_def)
    qed
  qed
qed

text \<open>
  C33. Sending coins over gRPC on a healthy connection. Both accounts are opened if needed; the
  reply is success exactly when the abstract transfer succeeds, which is then committed; each
  refusal has its status code. Whatever error the auth service answers, an outage or a timeout
  like an unknown name, the caller is told that the user was not found, and nothing is sent.
\<close>

theorem store_SendCoins_reply:
  assumes w: "calm w" "\<not> cancelled ctx" and wf: "wf_db (durable w)"
    and c: "caller parser secret ctx = Some u" and u: "int4_range (sint u)"
    and auth: "asc_GetUserID client
        (WithTimeout (WithValue ctx userIdContextKey (AnyInt u)) store_contextTimeLimit)
        \<lparr>uidq_Username = name\<rparr> (remote w) = (found, r')"
  shows "\<exists>w'. msc_SendCoins (store_server ch visit parser secret client) ctx
        \<lparr>scq_ToUsername = name, scq_Amount = a\<rparr> w =
      (case found of
         Inl _ \<Rightarrow> Inl (StatusError NotFound ''user not found'')
       | Inr resp \<Rightarrow>
           (case bank_send (sint u) (sint (uidr_UserID resp)) (uint a)
                   (bank_open (sint u) (bank_of (durable w))) of
              (Some r, _) \<Rightarrow> Inl (send_status r)
            | (None, _) \<Rightarrow> Inr \<lparr>scr_Success = True\<rparr>), w') \<and>
    bank_of (durable w') =
      (case found of
         Inl _ \<Rightarrow> bank_open (sint u) (bank_of (durable w))
       | Inr resp \<Rightarrow> snd (bank_send (sint u) (sint (uidr_UserID resp)) (uint a)
           (bank_open (sint u) (bank_of (durable w)))))"
  by (rule SendCoins_reply [OF assms])

theorem store_SendCoins_reply_witness:
  "\<exists>w'. msc_SendCoins (store_server demo_choices rev demo_parser ''k'' demo_auth) (demo_call ''alice.k'')
      \<lparr>scq_ToUsername = ''bob'', scq_Amount = 2000\<rparr> (demo_world []) =
    (Inl (StatusError FailedPrecondition ''insufficient funds''), w')"
proof -
  have "bank_send 1 2 2000 (bank_open 1 (bank_of demo_db)) = (Some Insufficient, bank_of demo_db)"
    by (simp add: bank_send_def bank_open_def bank_transfer_def bank_of_def demo_db_def)
  moreover have "calm (demo_world [])" "wf_db (durable (demo_world []))" by simp_all
  ultimately show ?thesis
    using store_SendCoins_reply [OF _ demo_call_calm _ demo_caller, of "demo_world []" demo_auth "''bob''"
      "Inr \<lparr>uidr_UserID = 2\<rparr>" "()" demo_choices rev 2000]
    by (auto simp: demo_auth_def int4_range_def)
qed

end
