(* ===== verification/Store_Books.thy ===== *)
theory Store_Books
  imports Store_Grpc_Facts
begin

text \<open>
  The books of the store balance: an invariant of the running service. \<open>store_run\<close> is every state
  that the service can reach from the migrated database by gRPC calls of any kind from anyone,
  while connections fail, peers change and time passes in between.
\<close>

section \<open>What a call does to the database\<close>

lemma GetUserInfo_durable:
  fixes w :: "'r store_node"
  assumes "UserInfoCase_GetUserInfo sched rng (store_userInfoCase visit client) ctx u w = (r, w')"
  shows "durable w' = durable w"
proof -
  let ?uic = "store_userInfoCase visit client :: 'r store_node UserInfoCase"
  define forms where "forms = {main_task ?uic u, purchases_task ?uic u, transfers_task rng ?uic u} \<union>
    range (balance_task ?uic u) \<union> range (naming_task rng ?uic) \<union> range Returned"
  note defs = store_userInfoCase_def NewUserInfoCase_def AuthAdapter_UsernameGetter_def
    PgUserInfoRepository_UserInfoRepository_def AuthAdapter_GetUsername_def
    AuthAdapter_GetUsernames_def NewAuthAdapter_def remote_AuthServiceClient_def
  have keep: "durable w' = durable w \<and> t' \<in> forms"
    if "t \<in> forms" "t = Calling f" "f c v w = (t', v', w')" for t f c v w t' v' and w' :: "'r store_node"
  proof -
    from that consider "Calling f = main_task ?uic u" | "Calling f = purchases_task ?uic u"
      | "Calling f = transfers_task rng ?uic u" | n where "Calling f = balance_task ?uic u n"
      | h where "Calling f = naming_task rng ?uic h"
      by (auto simp: forms_def)
    then show ?thesis
    proof cases
      case 1
      with that show ?thesis
        by (auto simp: main_task_def forms_def defs Let_def dest!: remote_call_keeps
            split: prod.splits sum.splits)
    next
      case 2
      with that show ?thesis
        by (auto simp: purchases_task_def forms_def defs split: prod.splits sum.splits
            dest!: FetchUserPurchases_keeps [unfolded node_keeps_def])
    next
      case 3
      with that show ?thesis
        by (auto simp: transfers_task_def forms_def defs split: prod.splits sum.splits
            dest!: FetchUserCoinTransfers_keeps [unfolded node_keeps_def])
    next
      case 4
      with that show ?thesis
        by (auto simp: balance_task_def forms_def defs split: prod.splits sum.splits
            dest!: FetchUserBalance_keeps [unfolded node_keeps_def])
    next
      case 5
      with that show ?thesis
        by (auto simp: naming_task_def convertToNamedTransferHistory_def forms_def defs Let_def
            dest!: remote_call_keeps split: prod.splits sum.splits)
    qed
  qed
  let ?start = "group_start zero_info_vars
    [main_task ?uic u, purchases_task ?uic u, transfers_task rng ?uic u]"
  obtain g where run: "group_run ctx (sched @ remaining_calls) (?start, w) = (g, w')"
    using assms by (auto simp: UserInfoCase_GetUserInfo_def split: prod.splits option.splits)
  have "set (tasks g) \<subseteq> forms \<and> durable w' = durable w"
  proof (rule group_run_invariant [OF _ _ run, where P = "\<lambda>g w'. set (tasks g) \<subseteq> forms \<and>
      durable w' = durable w"])
    fix i g w1 g' w2
    assume inv: "set (tasks g) \<subseteq> forms \<and> durable w1 = durable w"
      and "group_step ctx i (g, w1) = (g', w2)"
    from this(2) show "set (tasks g') \<subseteq> forms \<and> durable w2 = durable w"
    proof (cases rule: group_step_cases)
      case (call f t s)
      have "Calling f \<in> forms" using inv call(1,2) nth_mem by fastforce
      from keep [OF this refl call(3)] inv call(4) show ?thesis
        using set_update_subset_insert [of "tasks g" i t] by auto
    qed (use inv in simp)
  qed (simp add: group_start_def forms_def)
  then show ?thesis ..
qed


text \<open>One step of the abstract bank or none, on a well-formed database.\<close>

definition db_steps :: "store_db \<Rightarrow> store_db \<Rightarrow> bool" where
  "db_steps d d' \<longleftrightarrow> (wf_db d \<longrightarrow> wf_db d' \<and> bank_steps (bank_of d) (bank_of d'))"

lemma db_steps_refl [simp]: "db_steps d d"
  by (simp add: db_steps_def steps_refl)

lemma db_steps_trans: "db_steps d d' \<Longrightarrow> db_steps d' d'' \<Longrightarrow> db_steps d d''"
  by (auto simp: db_steps_def intro: bank_steps_trans)

lemma Ensure_steps:
  assumes "BalancesRepository_EnsureBalanceCreated store_balances ctx u StartBalance w = (res, w')"
  shows "db_steps (durable w) (durable w')"
proof -
  have e: "EnsureBalanceCreated (BalancesRepository_BalanceEnsurer store_balances) ctx u StartBalance w =
    (res, w')" using assms by (simp add: BalancesRepository_BalanceEnsurer_def)
  have one: "bank_steps b (bank_open y b)" for b y
    by (blast intro: bank_steps.intros bank_step.intros)
  show ?thesis
  proof (cases res)
    case None
    with pg_ensurer.ensured [of w ctx u w'] e one show ?thesis by (simp add: db_steps_def)
  next
    case (Some err)
    with pg_ensurer.ensure_failed [of w ctx u err w'] e one show ?thesis
      by (auto simp: db_steps_def steps_refl)
  qed
qed

lemma chain_steps:
  assumes run: "chain_interceptors (store_auth parser secret) store_open handler ctx req w = (res, w')"
    and handler: "\<And>ctx w r w'. handler ctx req w = (r, w') \<Longrightarrow> db_steps (durable w) (durable w')"
  shows "db_steps (durable w) (durable w')"
proof (cases "caller parser secret ctx")
  case None
  with run show ?thesis
    by (auto simp: caller_def chain_interceptors_def AuthInterceptorFabric_GetInterceptor_def
        NewAuthInterceptorFabric_def split: sum.splits)
next
  case (Some u)
  obtain r w1 where e: "BalancesRepository_EnsureBalanceCreated store_balances
      (WithValue ctx userIdContextKey (AnyInt u)) u StartBalance w = (r, w1)" by fastforce
  with run show ?thesis unfolding chain_caller [OF Some]
    by (cases r) (auto dest: Ensure_steps handler intro: db_steps_trans)
qed

lemma BuyItem_db_steps:
  assumes "PurchaseCase_BuyItem store_purchaseCase ctx u item w = (res, w')"
  shows "db_steps (durable w) (durable w')"
  using buying.BuyItem_steps [OF _ assms [unfolded store_cases]] by (simp add: db_steps_def)

lemma SendCoins_db_steps:
  assumes "SendCoinsCase_SendCoins (store_sendCoinsCase client) ctx u name a w = (res, w')"
  shows "db_steps (durable w) (durable w')"
  using sending.SendCoins_steps [OF _ assms [unfolded store_cases]] by (simp add: db_steps_def)

lemma BuyItem_call_steps:
  assumes "StoreServerGRPC_BuyItem (NewStoreServerGRPC store_purchaseCase s i StdoutLogger) ctx req w =
    (r, w')"
  shows "db_steps (durable w) (durable w')"
  using assms
  by (auto simp: StoreServerGRPC_BuyItem_def NewStoreServerGRPC_def Let_def dest!: BuyItem_db_steps
      split: sum.splits prod.splits option.splits if_splits)

lemma SendCoins_call_steps:
  assumes "StoreServerGRPC_SendCoins (NewStoreServerGRPC p (store_sendCoinsCase client) i StdoutLogger)
    ctx req w = (r, w')"
  shows "db_steps (durable w) (durable w')"
  using assms
  by (auto simp: StoreServerGRPC_SendCoins_def NewStoreServerGRPC_def Let_def
      dest!: SendCoins_db_steps split: sum.splits prod.splits option.splits if_splits)

lemma GetUserInfo_call_steps:
  assumes "StoreServerGRPC_GetUserInfo ch (NewStoreServerGRPC p s (store_userInfoCase visit client)
    StdoutLogger) ctx req w = (r, w')"
  shows "db_steps (durable w) (durable w')"
  using assms
  by (auto simp: StoreServerGRPC_GetUserInfo_def NewStoreServerGRPC_def Let_def
      dest!: GetUserInfo_durable split: sum.splits prod.splits if_splits)

section \<open>The running service\<close>

datatype store_call = GetUserInfoCall | SendCoinsCall SendCoinsRequest | BuyItemCall BuyItemRequest

text \<open>The state after a call; what was replied is dropped.\<close>

fun after_call :: "'w MerchStoreServiceClient \<Rightarrow> go_context \<Rightarrow> store_call \<Rightarrow> 'w \<Rightarrow> 'w" where
  "after_call server ctx GetUserInfoCall w = snd (msc_GetUserInfo server ctx () w)"
| "after_call server ctx (SendCoinsCall req) w = snd (msc_SendCoins server ctx req w)"
| "after_call server ctx (BuyItemCall req) w = snd (msc_BuyItem server ctx req w)"

inductive store_run :: "TokenParser \<Rightarrow> string \<Rightarrow> 'r AuthServiceClient \<Rightarrow> 'r store_node \<Rightarrow> bool"
  for parser secret client where
  run_start: "durable w = migrated_db \<Longrightarrow> store_run parser secret client w"
| run_world: "store_run parser secret client w \<Longrightarrow> durable w' = durable w \<Longrightarrow>
    store_run parser secret client w'"
| run_call: "store_run parser secret client w \<Longrightarrow>
    store_run parser secret client
      (after_call (store_server ch visit parser secret client) ctx call w)"

lemma after_call_steps:
  "db_steps (durable w) (durable (after_call (store_server ch visit parser secret client) ctx call w))"
proof (cases call)
  case GetUserInfoCall
  then show ?thesis
    by (cases "msc_GetUserInfo (store_server ch visit parser secret client) ctx () w")
      (auto simp: store_server_methods dest: chain_steps intro: GetUserInfo_call_steps)
next
  case (SendCoinsCall req)
  then show ?thesis
    by (cases "msc_SendCoins (store_server ch visit parser secret client) ctx req w")
      (auto simp: store_server_methods dest: chain_steps intro: SendCoins_call_steps)
next
  case (BuyItemCall req)
  then show ?thesis
    by (cases "msc_BuyItem (store_server ch visit parser secret client) ctx req w")
      (auto simp: store_server_methods dest: chain_steps intro: BuyItem_call_steps)
qed

lemma store_run_steps:
  "store_run parser secret client w \<Longrightarrow>
   wf_db (durable w) \<and> bank_steps (bank_of migrated_db) (bank_of (durable w))"
proof (induction rule: store_run.induct)
  case (run_call w ch visit ctx call)
  then show ?case using after_call_steps [of w ch visit parser secret client ctx call]
    by (auto simp: db_steps_def intro: bank_steps_trans)
qed (simp_all add: wf_migrated_db steps_refl)

text \<open>No step makes a negative entry in the ledger, or changes the price list.\<close>

lemma bank_steps_ledger:
  "bank_steps b b' \<Longrightarrow> (\<forall>(f, t, a) \<in> set (ledger b). 0 \<le> a) \<Longrightarrow> \<forall>(f, t, a) \<in> set (ledger b'). 0 \<le> a"
proof (induction rule: bank_steps.induct)
  case (steps_step b b' b'')
  from steps_step(2) show ?case
    by cases (use steps_step in \<open>auto simp: bank_open_def split: option.splits
      elim!: bank_buyE bank_transferE\<close>)
qed simp

lemma bank_steps_prices: "bank_steps b b' \<Longrightarrow> prices b' = prices b"
  by (induction rule: bank_steps.induct) (auto dest: bank_step_frame)

lemma ledger_ok_db:
  assumes "wf_db d" "\<forall>(f, t, a) \<in> set (ledger (bank_of d)). 0 \<le> a"
  shows "ledger_ok (bank_of d)"
proof -
  have "int4_range u" if "has_account d u" for u
    using that assms(1) by (auto simp: wf_db_def has_account_def)
  with assms show ?thesis by (auto simp: ledger_ok_def bank_of_def wf_db_def)
qed

lemma store_run_facts:
  assumes "store_run parser secret client w"
  shows "wf_db (durable w)" "audit (bank_of (durable w))" "ledger_ok (bank_of (durable w))"
    "prices (bank_of (durable w)) = prices (bank_of migrated_db)"
proof -
  from store_run_steps [OF assms]
  have run: "wf_db (durable w)" "bank_steps (bank_of migrated_db) (bank_of (durable w))" by simp_all
  show "wf_db (durable w)" by (rule run(1))
  show "audit (bank_of (durable w))" using audit_steps [OF run(2) audit_migrated_db] .
  show "ledger_ok (bank_of (durable w))"
    using ledger_ok_db [OF run(1)] bank_steps_ledger [OF run(2)]
    by (simp add: bank_of_def migrated_db_def)
  show "prices (bank_of (durable w)) = prices (bank_of migrated_db)"
    by (rule bank_steps_prices [OF run(2)])
qed

text \<open>
  C1. The books always balance. In every state that the running service can reach, under any calls
  by anyone, any failures of the database connection and any answers of the auth service, every
  account holds its 1000 starting coins plus what it received minus what it sent and spent, no
  account is overdrawn, the price list is the migrated one, and the database is well formed.
\<close>

theorem store_books_balance:
  assumes "store_run parser secret client w"
  shows "wf_db (durable w) \<and>
    (\<forall>u v. accounts (bank_of (durable w)) u = Some v \<longrightarrow> 0 \<le> v \<and> v \<le> 2147483647 \<and>
       v = 1000 + received (bank_of (durable w)) u - sent (bank_of (durable w)) u
         - spent (bank_of (durable w)) u) \<and>
    prices (bank_of (durable w)) = prices (bank_of migrated_db)"
proof -
  note f = store_run_facts [OF assms]
  have "0 \<le> v \<and> v \<le> 2147483647 \<and> v = 1000 + received (bank_of (durable w)) u
      - sent (bank_of (durable w)) u - spent (bank_of (durable w)) u"
    if "accounts (bank_of (durable w)) u = Some v" for u v
    using auditD(1-3) [OF f(2) that] by (simp add: coin_limit_def start_coins_def)
  with f(1,4) show ?thesis by simp
qed

theorem store_books_balance_witness:
  "wf_db (durable (after_call (store_server demo_choices rev demo_parser ''k'' demo_auth)
      (demo_call ''alice.k'') (BuyItemCall \<lparr>biq_ItemName = ''cup''\<rparr>)
      ((demo_world [Done, Done, Late ''timeout''])\<lparr>durable := migrated_db\<rparr>)))"
proof -
  have "store_run demo_parser ''k'' demo_auth
      ((demo_world [Done, Done, Late ''timeout''])\<lparr>durable := migrated_db\<rparr>)"
    by (rule run_start) simp
  from store_books_balance [OF run_call [OF this, of demo_choices rev "demo_call ''alice.k''"
    "BuyItemCall \<lparr>biq_ItemName = ''cup''\<rparr>"]] show ?thesis by blast
qed

end
