(* ===== verification/Gateway_Adapters.thy ===== *)
theory Gateway_Adapters
  imports Merch_Api Jwt
begin

text \<open>
  The gateway's domain types and its gRPC side: \<open>internal/gateway/domain\<close> and
  \<open>internal/gateway/grpc\<close>, that is the adapters of the two services and the interceptor that
  puts a caller's token on the outgoing call.
\<close>

section \<open>domain/user.go and domain/services.go\<close>

text \<open>
  The gateway's own \<open>UserInfo\<close>, \<open>TransferHistory\<close> and \<open>InventoryItem\<close> are types of its domain
  package; the prefix \<open>Gw\<close> keeps them apart from those of the other services.
\<close>

record GwInventoryItem =
  gii_Name :: string
  gii_Quantity :: uint32

record ReceivedTransfer =
  rt_From :: string
  rt_Amount :: uint32

record SentTransfer =
  snt_To :: string
  snt_Amount :: uint32

record GwTransferHistory =
  gth_Received :: "ReceivedTransfer list"
  gth_Sent :: "SentTransfer list"

record GwUserInfo =
  gui_Balance :: uint32
  gui_Inventory :: "GwInventoryItem list"
  gui_TransferHistory :: GwTransferHistory

text \<open>The result \<open>None\<close> of \<open>GetUserInfo\<close> is a panic in the adapter.\<close>

record 'w AuthService =
  svc_Authenticate :: "go_context \<Rightarrow> string \<Rightarrow> string \<Rightarrow> 'w \<Rightarrow> (error + string) \<times> 'w"

record 'w StoreService =
  svc_BuyItem :: "go_context \<Rightarrow> string \<Rightarrow> 'w \<Rightarrow> error option \<times> 'w"
  svc_SendCoins :: "go_context \<Rightarrow> string \<Rightarrow> uint32 \<Rightarrow> 'w \<Rightarrow> error option \<times> 'w"
  svc_GetUserInfo :: "go_context \<Rightarrow> 'w \<Rightarrow> (error + GwUserInfo) option \<times> 'w"

section \<open>settings.go\<close>

text \<open>In milliseconds.\<close>

definition gateway_contextTimeLimit :: nat where
  "gateway_contextTimeLimit = 5 * 1000"

section \<open>jwt_interceptor.go\<close>

definition NewJWTTokenInterceptor ::
  "go_context \<Rightarrow> 'req \<Rightarrow> (go_context \<Rightarrow> 'req \<Rightarrow> 'w \<Rightarrow> (error + 'resp) \<times> 'w) \<Rightarrow> 'w \<Rightarrow>
   (error + 'resp) \<times> 'w" where
  "NewJWTTokenInterceptor ctx req invoker w =
     (let ctx = (case as_string (Value ctx (StringKey TokenContextKey)) of
            Some token \<Rightarrow> AppendToOutgoingContext ctx TokenMetadataKey token
          | None \<Rightarrow> ctx)
      in invoker ctx req w)"

section \<open>auth_adapter.go\<close>

record 'w GwAuthAdapter =
  gaa_client :: "'w AuthServiceClient"

definition NewGwAuthAdapter :: "'w AuthServiceClient \<Rightarrow> 'w GwAuthAdapter" where
  "NewGwAuthAdapter client = \<lparr>gaa_client = client\<rparr>"

definition GwAuthAdapter_Authenticate ::
  "'w GwAuthAdapter \<Rightarrow> go_context \<Rightarrow> string \<Rightarrow> string \<Rightarrow> 'w \<Rightarrow> (error + string) \<times> 'w" where
  "GwAuthAdapter_Authenticate a ctx username password w =
     (let limitCtx = WithTimeout ctx gateway_contextTimeLimit;
          req = \<lparr>ar_Username = username, ar_Password = password\<rparr>
      in (case asc_Authenticate (gaa_client a) limitCtx req w of
            (Inl err, w) \<Rightarrow> (Inl err, w)
          | (Inr resp, w) \<Rightarrow> (Inr (ar_Token resp), w)))"

definition GwAuthAdapter_AuthService :: "'w GwAuthAdapter \<Rightarrow> 'w AuthService" where
  "GwAuthAdapter_AuthService a = \<lparr>svc_Authenticate = GwAuthAdapter_Authenticate a\<rparr>"

section \<open>store_adapter.go\<close>

record 'w StoreAdapter =
  sta_client :: "'w MerchStoreServiceClient"

definition NewStoreAdapter :: "'w MerchStoreServiceClient \<Rightarrow> 'w StoreAdapter" where
  "NewStoreAdapter client = \<lparr>sta_client = client\<rparr>"

definition StoreAdapter_BuyItem ::
  "'w StoreAdapter \<Rightarrow> go_context \<Rightarrow> string \<Rightarrow> 'w \<Rightarrow> error option \<times> 'w" where
  "StoreAdapter_BuyItem a ctx itemName w =
     (let limitCtx = WithTimeout ctx gateway_contextTimeLimit
      in (case msc_BuyItem (sta_client a) limitCtx \<lparr>biq_ItemName = itemName\<rparr> w of
            (Inl err, w) \<Rightarrow> (Some err, w)
          | (Inr _, w) \<Rightarrow> (None, w)))"

definition StoreAdapter_SendCoins ::
  "'w StoreAdapter \<Rightarrow> go_context \<Rightarrow> string \<Rightarrow> uint32 \<Rightarrow> 'w \<Rightarrow> error option \<times> 'w" where
  "StoreAdapter_SendCoins a ctx toUsername amount w =
     (let limitCtx = WithTimeout ctx gateway_contextTimeLimit;
          req = \<lparr>scq_ToUsername = toUsername, scq_Amount = amount\<rparr>
      in (case msc_SendCoins (sta_client a) limitCtx req w of
            (Inl err, w) \<Rightarrow> (Some err, w)
          | (Inr _, w) \<Rightarrow> (None, w)))"

text \<open>
  Reading \<open>resp.CoinHistory.Received\<close> panics when the optional field \<open>CoinHistory\<close> is nil
  (\<open>None\<close>). The three loops append one element each time.
\<close>

fun append_items :: "InventoryItem list \<Rightarrow> GwInventoryItem list \<Rightarrow> GwInventoryItem list" where
  "append_items [] acc = acc"
| "append_items (i # is) acc =
     append_items is (acc @ [\<lparr>gii_Name = ii_Name i, gii_Quantity = ii_Quantity i\<rparr>])"

fun append_received :: "ReceivedCoinsInfo list \<Rightarrow> ReceivedTransfer list \<Rightarrow> ReceivedTransfer list" where
  "append_received [] acc = acc"
| "append_received (r # rs) acc =
     append_received rs (acc @ [\<lparr>rt_From = rci_FromUsername r, rt_Amount = rci_Amount r\<rparr>])"

fun append_sent :: "SentCoinsInfo list \<Rightarrow> SentTransfer list \<Rightarrow> SentTransfer list" where
  "append_sent [] acc = acc"
| "append_sent (s # ss) acc =
     append_sent ss (acc @ [\<lparr>snt_To = sci_ToUsername s, snt_Amount = sci_Amount s\<rparr>])"

definition convertToUserInfo :: "GetUserInfoResponse \<Rightarrow> GwUserInfo option" where
  "convertToUserInfo resp =
     (case uir_CoinHistory resp of
        None \<Rightarrow> None
      | Some history \<Rightarrow> Some
          \<lparr>gui_Balance = uir_Balance resp,
           gui_Inventory = append_items (uir_Inventory resp) [],
           gui_TransferHistory =
             \<lparr>gth_Received = append_received (ch_Received history) [],
              gth_Sent = append_sent (ch_Sent history) []\<rparr>\<rparr>)"

definition StoreAdapter_GetUserInfo ::
  "'w StoreAdapter \<Rightarrow> go_context \<Rightarrow> 'w \<Rightarrow> (error + GwUserInfo) option \<times> 'w" where
  "StoreAdapter_GetUserInfo a ctx w =
     (let limitCtx = WithTimeout ctx gateway_contextTimeLimit
      in (case msc_GetUserInfo (sta_client a) limitCtx () w of
            (Inl err, w) \<Rightarrow> (Some (Inl err), w)
          | (Inr resp, w) \<Rightarrow> (map_option Inr (convertToUserInfo resp), w)))"

definition StoreAdapter_StoreService :: "'w StoreAdapter \<Rightarrow> 'w StoreService" where
  "StoreAdapter_StoreService a =
     \<lparr>svc_BuyItem = StoreAdapter_BuyItem a, svc_SendCoins = StoreAdapter_SendCoins a,
      svc_GetUserInfo = StoreAdapter_GetUserInfo a\<rparr>"

section \<open>The connections\<close>

text \<open>
  What gRPC does to a call between two processes is a parameter: the context in which the
  server's handler runs, and the error that its client sees. A server receives no context values,
  and under the key of the token what the caller attached there (of other keys nothing is said:
  gRPC adds its own); a status error arrives as it was returned. Calls reach the server: what
  happens when they do not is the subject of the theorems over arbitrary clients.
\<close>

record grpc_lib =
  rpc_context :: "go_context \<Rightarrow> go_context"
  rpc_error :: "error \<Rightarrow> error"

definition grpc_ok :: "grpc_lib \<Rightarrow> bool" where
  "grpc_ok rpc \<longleftrightarrow>
     (\<forall>ctx. cancelled (rpc_context rpc ctx) = cancelled ctx \<and>
        ctx_values (rpc_context rpc ctx) = [] \<and>
        (\<exists>md. incoming_md (rpc_context rpc ctx) = Some md \<and>
           md_Get md TokenMetadataKey = gomap_get [] (outgoing_md ctx) TokenMetadataKey)) \<and>
     (\<forall>c m. rpc_error rpc (StatusError c m) = StatusError c m)"

definition rpc_invoke ::
  "grpc_lib \<Rightarrow> (go_context \<Rightarrow> 'req \<Rightarrow> 'w \<Rightarrow> (error + 'resp) \<times> 'w) \<Rightarrow>
   go_context \<Rightarrow> 'req \<Rightarrow> 'w \<Rightarrow> (error + 'resp) \<times> 'w" where
  "rpc_invoke rpc handler ctx req w =
     (case handler (rpc_context rpc ctx) req w of
        (Inl err, w) \<Rightarrow> (Inl (rpc_error rpc err), w)
      | (Inr resp, w) \<Rightarrow> (Inr resp, w))"

text \<open>
  The clients that \<open>GatewayApp.Run\<close> creates: only the connection to the store has the token
  interceptor.
\<close>

definition gateway_auth_client :: "grpc_lib \<Rightarrow> 'w AuthServiceClient \<Rightarrow> 'w AuthServiceClient" where
  "gateway_auth_client rpc server =
     \<lparr>asc_Authenticate = rpc_invoke rpc (asc_Authenticate server),
      asc_GetUserID = rpc_invoke rpc (asc_GetUserID server),
      asc_GetUsernames = rpc_invoke rpc (asc_GetUsernames server)\<rparr>"

definition gateway_store_client ::
  "grpc_lib \<Rightarrow> 'w MerchStoreServiceClient \<Rightarrow> 'w MerchStoreServiceClient" where
  "gateway_store_client rpc server =
     \<lparr>msc_GetUserInfo =
        (\<lambda>ctx req. NewJWTTokenInterceptor ctx req (rpc_invoke rpc (msc_GetUserInfo server))),
      msc_SendCoins =
        (\<lambda>ctx req. NewJWTTokenInterceptor ctx req (rpc_invoke rpc (msc_SendCoins server))),
      msc_BuyItem =
        (\<lambda>ctx req. NewJWTTokenInterceptor ctx req (rpc_invoke rpc (msc_BuyItem server)))\<rparr>"

section \<open>Facts\<close>

lemma append_items_map:
  "append_items is acc = acc @ map (\<lambda>i. \<lparr>gii_Name = ii_Name i, gii_Quantity = ii_Quantity i\<rparr>) is"
  by (induction "is" acc rule: append_items.induct) simp_all

lemma append_received_map:
  "append_received rs acc =
     acc @ map (\<lambda>r. \<lparr>rt_From = rci_FromUsername r, rt_Amount = rci_Amount r\<rparr>) rs"
  by (induction rs acc rule: append_received.induct) simp_all

lemma append_sent_map:
  "append_sent ss acc = acc @ map (\<lambda>s. \<lparr>snt_To = sci_ToUsername s, snt_Amount = sci_Amount s\<rparr>) ss"
  by (induction ss acc rule: append_sent.induct) simp_all

text \<open>A call that carries a token arrives at the server with that token in its metadata.\<close>

definition token_ctx :: "go_context \<Rightarrow> string \<Rightarrow> go_context" where
  "token_ctx ctx token = AppendToOutgoingContext (WithTimeout ctx gateway_contextTimeLimit)
     TokenMetadataKey token"

lemma NewJWTTokenInterceptor_token:
  "as_string (Value ctx (StringKey TokenContextKey)) = Some token \<Longrightarrow>
   NewJWTTokenInterceptor (WithTimeout ctx gateway_contextTimeLimit) req invoker w =
     invoker (token_ctx ctx token) req w"
  by (simp add: NewJWTTokenInterceptor_def token_ctx_def)

lemma gomap_get_update [simp]: "gomap_get z (AList.update k v m) k = v"
  by (simp add: gomap_get_def update_conv')

lemma rpc_token_metadata:
  assumes "grpc_ok rpc" "outgoing_md ctx = []"
  shows "\<exists>md. FromIncomingContext (rpc_context rpc (token_ctx ctx token)) = Some md \<and>
    md_Get md TokenMetadataKey = [token]"
proof -
  from assms(1) obtain md where "incoming_md (rpc_context rpc (token_ctx ctx token)) = Some md"
    "md_Get md TokenMetadataKey = gomap_get [] (outgoing_md (token_ctx ctx token)) TokenMetadataKey"
    unfolding grpc_ok_def by blast
  with assms(2) show ?thesis
    by (simp add: FromIncomingContext_def token_ctx_def AppendToOutgoingContext_def gomap_get_def)
qed

lemma rpc_cancelled: "grpc_ok rpc \<Longrightarrow> cancelled (rpc_context rpc ctx) = cancelled ctx"
  by (simp add: grpc_ok_def)

lemma cancelled_token_ctx [simp]: "cancelled (token_ctx ctx token) = cancelled ctx"
  by (simp add: token_ctx_def AppendToOutgoingContext_def WithTimeout_def)

lemma rpc_error_status: "grpc_ok rpc \<Longrightarrow> rpc_error rpc (StatusError c m) = StatusError c m"
  by (simp add: grpc_ok_def)

end
