(* ===== verification/Gateway_Http.thy ===== *)
theory Gateway_Http
  imports Gateway_Adapters
begin

text \<open>
  The HTTP side of the gateway: \<open>internal/gateway/infrastructure/http\<close> (the token middleware and
  the handlers) and the route table that \<open>GatewayApp.Run\<close> builds in
  \<open>internal/gateway/bootstrap/gateway_app.go\<close>. The web framework gin, JSON decoding with
  validation and \<open>status.FromError\<close> are parameters.
\<close>

section \<open>Requests, replies and handlers\<close>

text \<open>The JSON values that the handlers write.\<close>

datatype json = JString string | JNumber nat | JArray "json list" | JObject "(string \<times> json) list"

text \<open>
  The part of a \<open>gin.Context\<close> that the code uses. \<open>gc_reply\<close> is the status and the body written so
  far (\<open>c.Status\<close> writes no body); \<open>gc_keys\<close> is what \<open>c.Set\<close> stored.
\<close>

record gin_context =
  gc_headers :: "(string \<times> string) list"
  gc_params :: "(string \<times> string) list"
  gc_body :: string
  gc_request_ctx :: go_context
  gc_keys :: "(string \<times> string) list"
  gc_reply :: "(nat \<times> json option) option"
  gc_aborted :: bool

definition gin_GetHeader :: "gin_context \<Rightarrow> string \<Rightarrow> string" where
  "gin_GetHeader c k = gomap_get [] (gc_headers c) k"

definition gin_Param :: "gin_context \<Rightarrow> string \<Rightarrow> string" where
  "gin_Param c k = gomap_get [] (gc_params c) k"

definition gin_Set :: "gin_context \<Rightarrow> string \<Rightarrow> string \<Rightarrow> gin_context" where
  "gin_Set c k v = c\<lparr>gc_keys := AList.update k v (gc_keys c)\<rparr>"

definition gin_JSON :: "gin_context \<Rightarrow> nat \<Rightarrow> json \<Rightarrow> gin_context" where
  "gin_JSON c code body = c\<lparr>gc_reply := Some (code, Some body)\<rparr>"

definition gin_Status :: "gin_context \<Rightarrow> nat \<Rightarrow> gin_context" where
  "gin_Status c code = c\<lparr>gc_reply := Some (code, None)\<rparr>"

definition gin_AbortWithStatusJSON :: "gin_context \<Rightarrow> nat \<Rightarrow> json \<Rightarrow> gin_context" where
  "gin_AbortWithStatusJSON c code body = (gin_JSON c code body)\<lparr>gc_aborted := True\<rparr>"

text \<open>The recovery handler of \<open>gin.Default\<close> turns a panic into an empty 500.\<close>

definition gin_recovered :: "gin_context \<Rightarrow> gin_context" where
  "gin_recovered c = c\<lparr>gc_reply := Some (500, None), gc_aborted := True\<rparr>"

abbreviation StatusOK :: nat where "StatusOK \<equiv> 200"
abbreviation StatusBadRequest :: nat where "StatusBadRequest \<equiv> 400"
abbreviation StatusUnauthorized :: nat where "StatusUnauthorized \<equiv> 401"
abbreviation StatusNotFound :: nat where "StatusNotFound \<equiv> 404"
abbreviation StatusInternalServerError :: nat where "StatusInternalServerError \<equiv> 500"

text \<open>\<open>gin.H{"errors": msg}\<close>.\<close>

definition errors_H :: "string \<Rightarrow> json" where
  "errors_H msg = JObject [(''errors'', JString msg)]"

text \<open>A handler is given the rest of its chain, which \<open>c.Next\<close> runs.\<close>

type_synonym 'w HandlerFunc =
  "(gin_context \<Rightarrow> 'w \<Rightarrow> gin_context \<times> 'w) \<Rightarrow> gin_context \<Rightarrow> 'w \<Rightarrow> gin_context \<times> 'w"

fun gin_run :: "'w HandlerFunc list \<Rightarrow> gin_context \<Rightarrow> 'w \<Rightarrow> gin_context \<times> 'w" where
  "gin_run [] c w = (c, w)"
| "gin_run (h # hs) c w = h (gin_run hs) c w"

section \<open>The bodies\<close>

record authRequestBody =
  arb_Username :: string
  arb_Password :: string

record sendCoinRequestBody =
  scb_ToUsername :: string
  scb_Amount :: uint32

text \<open>
  The parameters. \<open>ShouldBindJSON\<close> decodes a body and checks the \<open>binding\<close> tags: required
  fields are not zero, an amount is positive. A \<open>gin.Context\<close> used as a context yields the stored
  keys for string keys and is never done (the option \<open>ContextWithFallback\<close> is off). \<open>FromError\<close>
  recovers the code and message of a status error.
\<close>

record http_lib =
  bind_authRequestBody :: "string \<Rightarrow> authRequestBody option"
  bind_sendCoinRequestBody :: "string \<Rightarrow> sendCoinRequestBody option"
  gin_as_context :: "gin_context \<Rightarrow> go_context"
  status_FromError :: "error \<Rightarrow> (grpc_code \<times> string) option"

definition http_ok :: "http_lib \<Rightarrow> bool" where
  "http_ok lib \<longleftrightarrow>
     (\<forall>s b. bind_authRequestBody lib s = Some b \<longrightarrow> arb_Username b \<noteq> [] \<and> arb_Password b \<noteq> []) \<and>
     (\<forall>s b. bind_sendCoinRequestBody lib s = Some b \<longrightarrow> scb_ToUsername b \<noteq> [] \<and> 0 < scb_Amount b) \<and>
     (\<forall>c. \<not> cancelled (gin_as_context lib c) \<and> outgoing_md (gin_as_context lib c) = [] \<and>
        (\<forall>k. Value (gin_as_context lib c) (StringKey k) = map_option AnyString (map_of (gc_keys c) k))) \<and>
     (\<forall>code msg. status_FromError lib (StatusError code msg) = Some (code, msg))"

section \<open>jwt_middleware.go\<close>

definition authHeaderName :: string where
  "authHeaderName = ''Authorization''"

definition NewAuthMiddleware :: "'w HandlerFunc" where
  "NewAuthMiddleware next c w =
     (let header = gin_GetHeader c authHeaderName
      in if header = []
         then (gin_AbortWithStatusJSON c StatusUnauthorized (errors_H ''missing authorization header''), w)
         else (let parts = split_char (CHR 0x20) header
               in if length parts \<noteq> 2 \<or> parts ! 0 \<noteq> ''Bearer''
                  then (gin_AbortWithStatusJSON c StatusUnauthorized (errors_H ''invalid auth header''), w)
                  else next (gin_Set c TokenContextKey (parts ! 1)) w))"

section \<open>auth_handler.go\<close>

definition ItemNameKey :: string where
  "ItemNameKey = ''item''"

record 'w AuthHandler =
  ah_service :: "'w AuthService"

definition NewAuthHandler :: "'w AuthService \<Rightarrow> 'w AuthHandler" where
  "NewAuthHandler service = \<lparr>ah_service = service\<rparr>"

definition AuthHandler_Authenticate :: "http_lib \<Rightarrow> 'w AuthHandler \<Rightarrow> 'w HandlerFunc" where
  "AuthHandler_Authenticate lib h next c w =
     (case bind_authRequestBody lib (gc_body c) of
        None \<Rightarrow> (gin_JSON c StatusBadRequest (errors_H ''invalid request body''), w)
      | Some body \<Rightarrow>
          (case svc_Authenticate (ah_service h) (gc_request_ctx c) (arb_Username body)
                  (arb_Password body) w of
             (Inl err, w) \<Rightarrow>
               (case status_FromError lib err of
                  Some (code, message) \<Rightarrow>
                    if code = Unauthenticated
                    then (gin_JSON c StatusUnauthorized (errors_H message), w)
                    else (gin_JSON c StatusInternalServerError (errors_H message), w)
                | None \<Rightarrow>
                    (gin_JSON c StatusInternalServerError (errors_H ''internal server error''), w))
           | (Inr token, w) \<Rightarrow>
               (gin_JSON c StatusOK (JObject [(''token'', JString token)]), w)))"

section \<open>store_handler.go\<close>

record 'w StoreHandler =
  sh_service :: "'w StoreService"

definition NewStoreHandler :: "'w StoreService \<Rightarrow> 'w StoreHandler" where
  "NewStoreHandler service = \<lparr>sh_service = service\<rparr>"

definition handleGRPCError :: "http_lib \<Rightarrow> gin_context \<Rightarrow> error \<Rightarrow> gin_context" where
  "handleGRPCError lib c err =
     (case status_FromError lib err of
        None \<Rightarrow> gin_JSON c StatusInternalServerError (errors_H ''internal server error'')
      | Some (code, message) \<Rightarrow>
          if code = Unauthenticated then gin_JSON c StatusUnauthorized (errors_H message)
          else if code \<in> {InvalidArgument, FailedPrecondition, NotFound}
          then gin_JSON c StatusBadRequest (errors_H message)
          else gin_JSON c StatusInternalServerError (errors_H ''internal server error''))"

text \<open>
  A struct is written with the names of its \<open>json\<close> tags, in the order of its fields. (The README
  shows other names, see \<open>Merch_Types\<close>.)
\<close>

definition json_UserInfo :: "GwUserInfo \<Rightarrow> json" where
  "json_UserInfo info = JObject
     [(''balance'', JNumber (unat (gui_Balance info))),
      (''inventory'', JArray (map (\<lambda>i. JObject
         [(''type'', JString (gii_Name i)), (''quantity'', JNumber (unat (gii_Quantity i)))])
         (gui_Inventory info))),
      (''coinHistory'', JObject
         [(''received'', JArray (map (\<lambda>r. JObject
             [(''fromUser'', JString (rt_From r)), (''amount'', JNumber (unat (rt_Amount r)))])
             (gth_Received (gui_TransferHistory info)))),
          (''sent'', JArray (map (\<lambda>s. JObject
             [(''toUser'', JString (snt_To s)), (''amount'', JNumber (unat (snt_Amount s)))])
             (gth_Sent (gui_TransferHistory info))))])]"

definition StoreHandler_GetInfo :: "http_lib \<Rightarrow> 'w StoreHandler \<Rightarrow> 'w HandlerFunc" where
  "StoreHandler_GetInfo lib h next c w =
     (case svc_GetUserInfo (sh_service h) (gin_as_context lib c) w of
        (None, w) \<Rightarrow> (gin_recovered c, w)
      | (Some (Inl err), w) \<Rightarrow> (handleGRPCError lib c err, w)
      | (Some (Inr info), w) \<Rightarrow> (gin_JSON c StatusOK (json_UserInfo info), w))"

definition StoreHandler_SendCoin :: "http_lib \<Rightarrow> 'w StoreHandler \<Rightarrow> 'w HandlerFunc" where
  "StoreHandler_SendCoin lib h next c w =
     (case bind_sendCoinRequestBody lib (gc_body c) of
        None \<Rightarrow> (gin_JSON c StatusBadRequest (errors_H ''invalid request body''), w)
      | Some body \<Rightarrow>
          (case svc_SendCoins (sh_service h) (gin_as_context lib c) (scb_ToUsername body)
                  (scb_Amount body) w of
             (Some err, w) \<Rightarrow> (handleGRPCError lib c err, w)
           | (None, w) \<Rightarrow> (gin_Status c StatusOK, w)))"

definition StoreHandler_BuyItem :: "http_lib \<Rightarrow> 'w StoreHandler \<Rightarrow> 'w HandlerFunc" where
  "StoreHandler_BuyItem lib h next c w =
     (let itemName = gin_Param c ItemNameKey
      in (case svc_BuyItem (sh_service h) (gin_as_context lib c) itemName w of
            (Some err, w) \<Rightarrow> (handleGRPCError lib c err, w)
          | (None, w) \<Rightarrow> (gin_Status c StatusOK, w)))"

section \<open>The routes of GatewayApp.Run\<close>

text \<open>
  A group adds its path and its middleware to the routes inside it. The table maps a method and
  a full path pattern to the chain of handlers; which pattern a URL matches, and with which
  parameters, is decided by gin, and a request comes here with that pattern.
\<close>

type_synonym 'w route = "(string \<times> string) \<times> 'w HandlerFunc list"

definition joinPaths :: "string \<Rightarrow> string \<Rightarrow> string" where
  "joinPaths base rel = (if rel = ''/'' then base @ rel else
     (if base \<noteq> [] \<and> last base = CHR ''/'' then butlast base else base) @ rel)"

definition router_group ::
  "string \<Rightarrow> 'w HandlerFunc list \<Rightarrow> 'w route list \<Rightarrow> 'w route list" where
  "router_group base middleware routes =
     map (\<lambda>((method, path), handlers). ((method, joinPaths base path), middleware @ handlers)) routes"

definition healthz :: "'w HandlerFunc" where
  "healthz next c w = (gin_Status c StatusOK, w)"

definition gateway_routes :: "http_lib \<Rightarrow> 'w AuthHandler \<Rightarrow> 'w StoreHandler \<Rightarrow> 'w route list" where
  "gateway_routes lib authHandler storeHandler =
     ((''GET'', ''/healthz''), [healthz]) #
     router_group ''/api'' []
       (((''POST'', ''/auth''), [AuthHandler_Authenticate lib authHandler]) #
        router_group ''/'' [NewAuthMiddleware]
          [((''GET'', ''/info''), [StoreHandler_GetInfo lib storeHandler]),
           ((''POST'', ''/sendCoin''), [StoreHandler_SendCoin lib storeHandler]),
           ((''GET'', ''/buy/:'' @ ItemNameKey), [StoreHandler_BuyItem lib storeHandler])])"

text \<open>The handlers over the two connections, and the answer to a request of a given pattern.\<close>

definition gateway ::
  "http_lib \<Rightarrow> grpc_lib \<Rightarrow> 'w AuthServiceClient \<Rightarrow> 'w MerchStoreServiceClient \<Rightarrow> 'w route list" where
  "gateway lib rpc auth store =
     gateway_routes lib
       (NewAuthHandler (GwAuthAdapter_AuthService (NewGwAuthAdapter (gateway_auth_client rpc auth))))
       (NewStoreHandler (StoreAdapter_StoreService (NewStoreAdapter (gateway_store_client rpc store))))"

text \<open>The path of a request is the route pattern that gin has found for its URL.\<close>

definition gin_serve ::
  "'w route list \<Rightarrow> string \<Rightarrow> string \<Rightarrow> gin_context \<Rightarrow> 'w \<Rightarrow> (nat \<times> json option) option \<times> 'w" where
  "gin_serve routes method path c w =
     (case map_of routes (method, path) of
        None \<Rightarrow> (Some (StatusNotFound, None), w)
      | Some handlers \<Rightarrow> (case gin_run handlers c w of (c, w) \<Rightarrow> (gc_reply c, w)))"

text \<open>A request as it arrives: nothing stored, nothing written.\<close>

definition request ::
  "(string \<times> string) list \<Rightarrow> (string \<times> string) list \<Rightarrow> string \<Rightarrow> go_context \<Rightarrow> gin_context" where
  "request headers params body ctx =
     \<lparr>gc_headers = headers, gc_params = params, gc_body = body, gc_request_ctx = ctx, gc_keys = [],
      gc_reply = None, gc_aborted = False\<rparr>"

end
