(* ===== verification/Merch_Http.thy ===== *)
theory Merch_Http
  imports Auth_Login Store_Books Gateway_Http
begin

text \<open>
  The three services together, seen over HTTP: who gets through to the store, and how each
  outcome of the store and auth services is answered.
\<close>

section \<open>Routes\<close>

lemma gateway_route_lookup:
  "map_of (gateway_routes lib ah sh) (''GET'', ''/healthz'') = Some [healthz]"
  "map_of (gateway_routes lib ah sh) (''POST'', ''/api/auth'') = Some [AuthHandler_Authenticate lib ah]"
  "map_of (gateway_routes lib ah sh) (''GET'', ''/api/info'') =
     Some [NewAuthMiddleware, StoreHandler_GetInfo lib sh]"
  "map_of (gateway_routes lib ah sh) (''POST'', ''/api/sendCoin'') =
     Some [NewAuthMiddleware, StoreHandler_SendCoin lib sh]"
  "map_of (gateway_routes lib ah sh) (''GET'', ''/api/buy/:item'') =
     Some [NewAuthMiddleware, StoreHandler_BuyItem lib sh]"
  by (simp_all add: gateway_routes_def router_group_def joinPaths_def ItemNameKey_def)

definition protected_routes :: "(string \<times> string) list" where
  "protected_routes =
     [(''GET'', ''/api/info''), (''POST'', ''/api/sendCoin''), (''GET'', ''/api/buy/:item'')]"

section \<open>The token middleware\<close>

definition bearer_token :: "string \<Rightarrow> string option" where
  "bearer_token header =
     (case split_char (CHR 0x20) header of
        [scheme, token] \<Rightarrow> if scheme = ''Bearer'' then Some token else None
      | _ \<Rightarrow> None)"

lemma bearer_token_iff:
  "bearer_token header = Some token \<longleftrightarrow>
     header = ''Bearer '' @ token \<and> CHR 0x20 \<notin> set token"
proof -
  have "bearer_token header = Some token \<longleftrightarrow> split_char (CHR 0x20) header = [''Bearer'', token]"
    by (auto simp: bearer_token_def split: list.splits if_splits)
  then show ?thesis by (simp add: split_char_pair_iff)
qed

lemma NewAuthMiddleware_eq:
  "NewAuthMiddleware next c w =
     (case bearer_token (gin_GetHeader c authHeaderName) of
        None \<Rightarrow> (gin_AbortWithStatusJSON c StatusUnauthorized (errors_H
          (if gin_GetHeader c authHeaderName = [] then ''missing authorization header''
           else ''invalid auth header'')), w)
      | Some token \<Rightarrow> next (gin_Set c TokenContextKey token) w)"
proof -
  have "length xs = 2 \<longleftrightarrow> (\<exists>x y. xs = [x, y])" for xs :: "string list"
    by (auto simp: length_Suc_conv numeral_2_eq_2)
  then show ?thesis
    by (auto simp: NewAuthMiddleware_def bearer_token_def Let_def split: list.splits)
qed

section \<open>The path to the store\<close>

text \<open>The gateway in front of a store that looks users up with \<open>client\<close>.\<close>

definition merch ::
  "http_lib \<Rightarrow> grpc_lib \<Rightarrow> info_choices \<Rightarrow> ((int32 \<times> string) list \<Rightarrow> (int32 \<times> string) list) \<Rightarrow>
   TokenParser \<Rightarrow> string \<Rightarrow> 'r AuthServiceClient \<Rightarrow> 'r store_node route list" where
  "merch lib rpc ch visit parser secret client =
     gateway lib rpc (remote_AuthServiceClient client) (store_server ch visit parser secret client)"

text \<open>The context in which the store handles a call of a request that carries a token.\<close>

definition call_ctx :: "http_lib \<Rightarrow> grpc_lib \<Rightarrow> gin_context \<Rightarrow> string \<Rightarrow> go_context" where
  "call_ctx lib rpc c token =
     rpc_context rpc (token_ctx (gin_as_context lib (gin_Set c TokenContextKey token)) token)"

lemma http_okD:
  assumes "http_ok lib"
  shows "\<not> cancelled (gin_as_context lib c)" "outgoing_md (gin_as_context lib c) = []"
    "Value (gin_as_context lib c) (StringKey k) = map_option AnyString (map_of (gc_keys c) k)"
    "status_FromError lib (StatusError code msg) = Some (code, msg)"
    "bind_authRequestBody lib s = Some b \<Longrightarrow> arb_Username b \<noteq> [] \<and> arb_Password b \<noteq> []"
    "bind_sendCoinRequestBody lib s = Some sb \<Longrightarrow> scb_ToUsername sb \<noteq> [] \<and> 0 < scb_Amount sb"
  using assms by (auto simp: http_ok_def)

lemma stored_token:
  "http_ok lib \<Longrightarrow>
   as_string (Value (gin_as_context lib (gin_Set c TokenContextKey token)) (StringKey TokenContextKey)) =
     Some token"
  by (simp add: http_okD gin_Set_def update_conv')

lemma caller_call_ctx:
  assumes "http_ok lib" "grpc_ok rpc"
  shows "caller parser secret (call_ctx lib rpc c token) =
    (case ParseToken parser secret token of Inl _ \<Rightarrow> None | Inr claims \<Rightarrow> Some (cl_UserID claims))"
    and "getUserToken (call_ctx lib rpc c token) = Inr token"
proof -
  from rpc_token_metadata [OF assms(2) http_okD(2) [OF assms(1)],
      of "gin_Set c TokenContextKey token" token] show
    t: "getUserToken (call_ctx lib rpc c token) = Inr token"
    by (auto simp: getUserToken_def call_ctx_def)
  show "caller parser secret (call_ctx lib rpc c token) =
    (case ParseToken parser secret token of Inl _ \<Rightarrow> None | Inr claims \<Rightarrow> Some (cl_UserID claims))"
    by (simp add: caller_def t)
qed

lemma call_ctx_live:
  "http_ok lib \<Longrightarrow> grpc_ok rpc \<Longrightarrow> \<not> cancelled (call_ctx lib rpc c token)"
  by (simp add: call_ctx_def rpc_cancelled http_okD(1))

text \<open>What the caller of the API sees of a status error.\<close>

fun http_error :: "error \<Rightarrow> nat \<times> json option" where
  "http_error (StatusError code msg) =
     (if code = Unauthenticated then (StatusUnauthorized, Some (errors_H msg))
      else if code \<in> {InvalidArgument, FailedPrecondition, NotFound}
      then (StatusBadRequest, Some (errors_H msg))
      else (StatusInternalServerError, Some (errors_H ''internal server error'')))"
| "http_error _ = (StatusInternalServerError, Some (errors_H ''internal server error''))"

lemma handleGRPCError_reply:
  "http_ok lib \<Longrightarrow>
   gc_reply (handleGRPCError lib c (StatusError code msg)) = Some (http_error (StatusError code msg))"
  by (simp add: handleGRPCError_def http_okD(4) gin_JSON_def)

lemmas gateway_defs =
  merch_def gateway_def gin_serve_def gateway_route_lookup NewStoreHandler_def NewStoreAdapter_def
  StoreAdapter_StoreService_def gateway_store_client_def NewJWTTokenInterceptor_token
  NewAuthHandler_def GwAuthAdapter_AuthService_def NewGwAuthAdapter_def gateway_auth_client_def
  rpc_invoke_def

lemma serve_BuyItem:
  assumes lib: "http_ok lib" and b: "bearer_token (gin_GetHeader c authHeaderName) = Some token"
  shows "gin_serve (merch lib rpc ch visit parser secret client) ''GET'' ''/api/buy/:item'' c w =
    (case msc_BuyItem (store_server ch visit parser secret client) (call_ctx lib rpc c token)
            \<lparr>biq_ItemName = gin_Param c ItemNameKey\<rparr> w of
       (Inl err, w) \<Rightarrow> (gc_reply (handleGRPCError lib (gin_Set c TokenContextKey token) (rpc_error rpc err)), w)
     | (Inr _, w) \<Rightarrow> (Some (StatusOK, None), w))"
  using stored_token [OF lib, of c token] b
  by (simp add: gateway_defs NewAuthMiddleware_eq StoreHandler_BuyItem_def StoreAdapter_BuyItem_def
      call_ctx_def gin_Status_def gin_Set_def gin_Param_def Let_def split: sum.split prod.split)

lemma serve_SendCoin:
  assumes lib: "http_ok lib" and b: "bearer_token (gin_GetHeader c authHeaderName) = Some token"
  shows "gin_serve (merch lib rpc ch visit parser secret client) ''POST'' ''/api/sendCoin'' c w =
    (case bind_sendCoinRequestBody lib (gc_body c) of
       None \<Rightarrow> (Some (StatusBadRequest, Some (errors_H ''invalid request body'')), w)
     | Some body \<Rightarrow>
         (case msc_SendCoins (store_server ch visit parser secret client) (call_ctx lib rpc c token)
                 \<lparr>scq_ToUsername = scb_ToUsername body, scq_Amount = scb_Amount body\<rparr> w of
            (Inl err, w) \<Rightarrow> (gc_reply (handleGRPCError lib (gin_Set c TokenContextKey token)
              (rpc_error rpc err)), w)
          | (Inr _, w) \<Rightarrow> (Some (StatusOK, None), w)))"
  using stored_token [OF lib, of c token] b
  by (simp add: gateway_defs NewAuthMiddleware_eq StoreHandler_SendCoin_def StoreAdapter_SendCoins_def
      call_ctx_def gin_Status_def gin_Set_def gin_JSON_def Let_def
      split: sum.split prod.split option.split)

lemma serve_GetInfo:
  assumes lib: "http_ok lib" and b: "bearer_token (gin_GetHeader c authHeaderName) = Some token"
  shows "gin_serve (merch lib rpc ch visit parser secret client) ''GET'' ''/api/info'' c w =
    (case msc_GetUserInfo (store_server ch visit parser secret client) (call_ctx lib rpc c token) () w of
       (Inl err, w) \<Rightarrow> (gc_reply (handleGRPCError lib (gin_Set c TokenContextKey token) (rpc_error rpc err)), w)
     | (Inr resp, w) \<Rightarrow>
         (case convertToUserInfo resp of
            None \<Rightarrow> (Some (StatusInternalServerError, None), w)
          | Some info \<Rightarrow> (Some (StatusOK, Some (json_UserInfo info)), w)))"
  using stored_token [OF lib, of c token] b
  by (simp add: gateway_defs NewAuthMiddleware_eq StoreHandler_GetInfo_def StoreAdapter_GetUserInfo_def
      call_ctx_def gin_recovered_def gin_Set_def gin_JSON_def Let_def
      split: sum.split prod.split option.split)

lemma serve_unauthorized:
  assumes "(method, path) \<in> set protected_routes" "bearer_token (gin_GetHeader c authHeaderName) = None"
  shows "gin_serve (merch lib rpc ch visit parser secret client) method path c w =
    (Some (StatusUnauthorized, Some (errors_H
       (if gin_GetHeader c authHeaderName = [] then ''missing authorization header''
        else ''invalid auth header''))), w)"
  using assms
  by (auto simp: protected_routes_def gateway_defs NewAuthMiddleware_eq gin_AbortWithStatusJSON_def
      gin_JSON_def)

section \<open>Who gets through\<close>

text \<open>
  C14. The protected routes need a bearer token. Unless the \<open>Authorization\<close> header is the word
  \<open>Bearer\<close>, one space and a token without spaces, the request is answered with 401 and neither
  service is called; the reply says whether the header was missing or malformed.
\<close>

theorem http_requires_bearer:
  assumes "(method, path) \<in> set protected_routes"
    and "\<nexists>token. gin_GetHeader c authHeaderName = ''Bearer '' @ token \<and> CHR 0x20 \<notin> set token"
  shows "gin_serve (merch lib rpc ch visit parser secret client) method path c w =
    (Some (401, Some (errors_H (if gin_GetHeader c authHeaderName = [] then ''missing authorization header''
       else ''invalid auth header''))), w)"
proof -
  have "bearer_token (gin_GetHeader c authHeaderName) = None"
    using assms(2) bearer_token_iff [of "gin_GetHeader c authHeaderName"] by (metis not_None_eq)
  from serve_unauthorized [OF assms(1) this] show ?thesis .
qed

text \<open>
  C15. A token that the store rejects gives 401 on every protected route, once the body is
  accepted, and the database of the store is not touched.
\<close>

theorem http_rejects_token:
  assumes lib: "http_ok lib" and rpc: "grpc_ok rpc"
    and h: "gin_GetHeader c authHeaderName = ''Bearer '' @ token" "CHR 0x20 \<notin> set token"
    and bad: "ParseToken parser secret token = Inl err"
    and route: "(method, path) \<in> set protected_routes"
    and body: "bind_sendCoinRequestBody lib (gc_body c) \<noteq> None"
  shows "\<exists>w'. gin_serve (merch lib rpc ch visit parser secret client) method path c w =
      (Some (401, Some (errors_H ''invalid token'')), w') \<and>
    durable w' = durable w \<and> faults w' = faults w \<and> remote w' = remote w"
proof -
  let ?ctx = "call_ctx lib rpc c token"
  have b: "bearer_token (gin_GetHeader c authHeaderName) = Some token"
    using h by (simp add: bearer_token_iff)
  have none: "caller parser secret ?ctx = None" "getUserToken ?ctx = Inr token"
    using bad by (simp_all add: caller_call_ctx [OF lib rpc])
  have reject: "chain_interceptors (store_auth parser secret) store_open handler ?ctx req w =
      (Inl (StatusError Unauthenticated ''invalid token''),
       write_log LevelError ''failed to parse user token'' [(''error'', Error err)] w)" for handler req
    using none bad by (simp add: chain_interceptors_def AuthInterceptorFabric_GetInterceptor_def
        NewAuthInterceptorFabric_def)
  have keep: "durable (write_log l m kvs w) = durable w \<and> faults (write_log l m kvs w) = faults w \<and>
      remote (write_log l m kvs w) = remote w" for l m kvs
    by (simp add: write_log_def)
  from route consider "method = ''GET''" "path = ''/api/info''"
    | "method = ''POST''" "path = ''/api/sendCoin''" | "method = ''GET''" "path = ''/api/buy/:item''"
    by (auto simp: protected_routes_def)
  then show ?thesis
  proof cases
    case 1
    then show ?thesis
      by (simp add: serve_GetInfo [OF lib b] store_server_methods reject rpc_error_status [OF rpc]
          handleGRPCError_reply [OF lib] keep)
  next
    case 2
    with body show ?thesis
      by (auto simp: serve_SendCoin [OF lib b] store_server_methods reject rpc_error_status [OF rpc]
          handleGRPCError_reply [OF lib] keep)
  next
    case 3
    then show ?thesis
      by (simp add: serve_BuyItem [OF lib b] store_server_methods reject rpc_error_status [OF rpc]
          handleGRPCError_reply [OF lib] keep)
  qed
qed

section \<open>Buying over HTTP\<close>

text \<open>
  C12. \<open>GET /api/buy/:item\<close> end to end. For the holder of a valid token on a healthy connection,
  the reply is 200 exactly when the purchase is possible, and then it has been committed;
  every refusal is a 400 that names the reason, and nothing but the caller's account is opened.
\<close>

theorem http_buy:
  assumes lib: "http_ok lib" and rpc: "grpc_ok rpc"
    and h: "gin_GetHeader c authHeaderName = ''Bearer '' @ token" "CHR 0x20 \<notin> set token"
    and tok: "ParseToken parser secret token = Inr claims" "int4_range (sint (cl_UserID claims))"
    and w: "calm w" "wf_db (durable w)" "audit (bank_of (durable w))"
  shows "let u = sint (cl_UserID claims); item = gin_Param c ''item'';
      opened = bank_open u (bank_of (durable w)); bought = bank_buy u item opened
    in \<exists>w'. gin_serve (merch lib rpc ch visit parser secret client) ''GET'' ''/api/buy/:item'' c w =
      (Some (case bought of
         Inr _ \<Rightarrow> (200, None)
       | Inl NoSuchItem \<Rightarrow> (400, Some (errors_H ''item not found''))
       | Inl NoAccount \<Rightarrow> (400, Some (errors_H ''user not found''))
       | Inl _ \<Rightarrow> (400, Some (errors_H ''insufficient funds''))), w') \<and>
      bank_of (durable w') = (case bought of Inl _ \<Rightarrow> opened | Inr b \<Rightarrow> b)"
proof -
  let ?ctx = "call_ctx lib rpc c token"
  have b: "bearer_token (gin_GetHeader c authHeaderName) = Some token"
    using h by (simp add: bearer_token_iff)
  have c: "caller parser secret ?ctx = Some (cl_UserID claims)"
    using tok by (simp add: caller_call_ctx [OF lib rpc])
  from BuyItem_reply [OF w(1) call_ctx_live [OF lib rpc] w(2,3) c tok(2), of ch visit client "gin_Param c ItemNameKey"]
  obtain w' where reply: "msc_BuyItem (store_server ch visit parser secret client) ?ctx
      \<lparr>biq_ItemName = gin_Param c ItemNameKey\<rparr> w =
      (case bank_buy (sint (cl_UserID claims)) (gin_Param c ItemNameKey)
          (bank_open (sint (cl_UserID claims)) (bank_of (durable w))) of
         Inl r \<Rightarrow> Inl (buy_status r) | Inr _ \<Rightarrow> Inr \<lparr>bir_Success = True\<rparr>, w')"
    and d: "bank_of (durable w') =
      (case bank_buy (sint (cl_UserID claims)) (gin_Param c ItemNameKey)
          (bank_open (sint (cl_UserID claims)) (bank_of (durable w))) of
         Inl r \<Rightarrow> bank_open (sint (cl_UserID claims)) (bank_of (durable w)) | Inr b \<Rightarrow> b)"
    by blast
  show ?thesis
  proof (cases "bank_buy (sint (cl_UserID claims)) (gin_Param c ItemNameKey)
      (bank_open (sint (cl_UserID claims)) (bank_of (durable w)))")
    case (Inr bk)
    with reply d show ?thesis
      by (simp add: serve_BuyItem [OF lib b] Let_def ItemNameKey_def)
  next
    case (Inl r)
    with reply d show ?thesis
      by (cases r) (simp_all add: serve_BuyItem [OF lib b] Let_def ItemNameKey_def
          rpc_error_status [OF rpc] handleGRPCError_reply [OF lib])
  qed
qed

section \<open>An example\<close>

definition demo_http :: http_lib where
  "demo_http =
     \<lparr>bind_authRequestBody = (\<lambda>s. if s = ''alice pw'' then
        Some \<lparr>arb_Username = ''alice'', arb_Password = ''pw''\<rparr> else None),
      bind_sendCoinRequestBody = (\<lambda>s. if s = ''bob 30'' then
        Some \<lparr>scb_ToUsername = ''bob'', scb_Amount = 30\<rparr> else None),
      gin_as_context = (\<lambda>c. background\<lparr>ctx_values :=
        map (\<lambda>(k, v). (StringKey k, AnyString v)) (gc_keys c)\<rparr>),
      status_FromError = (\<lambda>e. case e of StatusError code msg \<Rightarrow> Some (code, msg) | _ \<Rightarrow> None)\<rparr>"

lemma demo_http_ok: "http_ok demo_http"
proof -
  have "map_of (map (\<lambda>(k, v). (StringKey k, AnyString v)) xs) (StringKey k) =
      map_option AnyString (map_of xs k)" for xs k
    by (induction xs) auto
  then show ?thesis
    by (auto simp: http_ok_def demo_http_def Value_def background_def split: if_splits)
qed

definition demo_grpc :: grpc_lib where
  "demo_grpc =
     \<lparr>rpc_context = (\<lambda>ctx. background\<lparr>incoming_md := Some (outgoing_md ctx), cancelled := cancelled ctx\<rparr>),
      rpc_error = (\<lambda>e. e)\<rparr>"

lemma demo_grpc_ok: "grpc_ok demo_grpc"
  by (simp add: grpc_ok_def demo_grpc_def md_Get_def background_def)

definition demo_request :: "string \<Rightarrow> string \<Rightarrow> gin_context" where
  "demo_request header body = request [(authHeaderName, header)] [(''item'', ''mug'')] body background"

lemma demo_request_header [simp]:
  "gin_GetHeader (demo_request header body) authHeaderName = header"
  "gin_Param (demo_request header body) ''item'' = ''mug''" "gc_body (demo_request header body) = body"
  by (simp_all add: gin_GetHeader_def gin_Param_def demo_request_def request_def gomap_get_def)

lemma demo_tokens:
  "ParseToken demo_parser ''k'' ''alice.k'' = Inr demo_claims" "cl_UserID demo_claims = 1"
  "ParseToken demo_parser ''k'' ''mallory'' = Inl ErrTokenUnverifiable"
  by (simp_all add: demo_parser_def demo_claims_def)

theorem http_requires_bearer_witness:
  "gin_serve (merch demo_http demo_grpc demo_choices rev demo_parser ''k'' demo_auth) ''GET'' ''/api/info''
      (demo_request ''Basic alice'' []) (demo_world []) =
    (Some (401, Some (errors_H ''invalid auth header'')), demo_world [])"
  using http_requires_bearer [of "''GET''" "''/api/info''" "demo_request ''Basic alice'' []" demo_http
    demo_grpc demo_choices rev demo_parser "''k''" demo_auth "demo_world []"]
  by (simp add: protected_routes_def)

theorem http_rejects_token_witness:
  "\<exists>w'. gin_serve (merch demo_http demo_grpc demo_choices rev demo_parser ''k'' demo_auth) ''POST''
      ''/api/sendCoin'' (demo_request ''Bearer mallory'' ''bob 30'') (demo_world []) =
    (Some (401, Some (errors_H ''invalid token'')), w') \<and> durable w' = demo_db"
proof -
  have "bind_sendCoinRequestBody demo_http ''bob 30'' \<noteq> None" by (simp add: demo_http_def)
  then show ?thesis
    using http_rejects_token [OF demo_http_ok demo_grpc_ok _ _ demo_tokens(3), of
      "demo_request ''Bearer mallory'' ''bob 30''" "''POST''" "''/api/sendCoin''" demo_choices rev demo_auth
      "demo_world []"]
    by (auto simp: protected_routes_def)
qed

theorem http_buy_witness:
  "\<exists>w'. gin_serve (merch demo_http demo_grpc demo_choices rev demo_parser ''k'' demo_auth) ''GET''
      ''/api/buy/:item'' (demo_request ''Bearer alice.k'' []) (demo_world []) =
    (Some (400, Some (errors_H ''item not found'')), w')"
proof -
  have "bank_buy 1 ''mug'' (bank_open 1 (bank_of demo_db)) = Inl NoSuchItem"
    by (simp add: bank_buy_def bank_open_def bank_of_def demo_db_def migrated_db_def seed_goods_def)
  moreover have "int4_range (sint (cl_UserID demo_claims))" "calm (demo_world [])"
    "wf_db (durable (demo_world []))" "audit (bank_of (durable (demo_world [])))"
    by (simp_all add: demo_tokens int4_range_def)
  ultimately show ?thesis
    using http_buy [OF demo_http_ok demo_grpc_ok _ _ demo_tokens(1), of
      "demo_request ''Bearer alice.k'' []" "demo_world []" demo_choices rev demo_auth]
    by (auto simp: demo_tokens Let_def)
qed

section \<open>What a failing service lets through\<close>

text \<open>
  C38. A failure that is no answer to the caller (any status but the four for a caller's mistake: an
  outage of the service, a timeout) is 500 on every route. The store's handlers say no more than
  \<open>internal server error\<close>; the login handler passes the text of the failure on to the caller.
\<close>

theorem failure_replies:
  fixes store :: "'w StoreHandler" and auth :: "'w AuthHandler"
  assumes lib: "http_ok lib"
    and code: "code \<notin> {Unauthenticated, InvalidArgument, FailedPrecondition, NotFound}"
    and bodies: "bind_authRequestBody lib (gc_body c) = Some credentials"
      "bind_sendCoinRequestBody lib (gc_body c') = Some transfer"
    and auth_down: "\<And>ctx u p. svc_Authenticate (ah_service auth) ctx u p w = (Inl (StatusError code msg), w)"
    and store_down: "\<And>ctx. svc_GetUserInfo (sh_service store) ctx w = (Some (Inl (StatusError code msg)), w)"
      "\<And>ctx u a. svc_SendCoins (sh_service store) ctx u a w = (Some (StatusError code msg), w)"
      "\<And>ctx item. svc_BuyItem (sh_service store) ctx item w = (Some (StatusError code msg), w)"
  shows "gc_reply (fst (AuthHandler_Authenticate lib auth next c w)) = Some (500, Some (errors_H msg)) \<and>
    list_all (\<lambda>handler. gc_reply (fst (handler next c' w)) =
        Some (500, Some (errors_H ''internal server error'')))
      [StoreHandler_GetInfo lib store, StoreHandler_SendCoin lib store, StoreHandler_BuyItem lib store]"
  using assms
  by (auto simp: AuthHandler_Authenticate_def StoreHandler_GetInfo_def StoreHandler_SendCoin_def
      StoreHandler_BuyItem_def handleGRPCError_def http_ok_def gin_JSON_def)

definition down_auth :: "string \<Rightarrow> 'w AuthService" where
  "down_auth msg = \<lparr>svc_Authenticate = (\<lambda>_ _ _ w. (Inl (StatusError Unavailable msg), w))\<rparr>"

definition down_store :: "string \<Rightarrow> 'w StoreService" where
  "down_store msg =
     \<lparr>svc_BuyItem = (\<lambda>_ _ w. (Some (StatusError Unavailable msg), w)),
      svc_SendCoins = (\<lambda>_ _ _ w. (Some (StatusError Unavailable msg), w)),
      svc_GetUserInfo = (\<lambda>_ w. (Some (Inl (StatusError Unavailable msg)), w))\<rparr>"

theorem failure_replies_witness:
  "gc_reply (fst (AuthHandler_Authenticate demo_http (NewAuthHandler (down_auth ''dial tcp 10.0.0.3:9090''))
      (\<lambda>c w. (c, w)) (demo_request [] ''alice pw'') ())) = Some (500, Some (errors_H ''dial tcp 10.0.0.3:9090''))"
  using failure_replies [OF demo_http_ok, of Unavailable "demo_request [] ''alice pw''" _
      "demo_request [] ''bob 30''" _ "NewAuthHandler (down_auth ''dial tcp 10.0.0.3:9090'')" "()"
      "''dial tcp 10.0.0.3:9090''" "NewStoreHandler (down_store ''dial tcp 10.0.0.3:9090'')" "\<lambda>c w. (c, w)"]
  by (simp add: demo_http_def down_auth_def down_store_def NewAuthHandler_def NewStoreHandler_def)

end
