(* ===== verification/Merch_System.thy ===== *)
theory Merch_System
  imports Merch_Http
begin

text \<open>
  The whole system: gateway, store and auth service with their databases. The store asks the
  auth service that the gateway logs in with; the properties here are what a user of the HTTP
  API can rely on.
\<close>

section \<open>The system\<close>

text \<open>
  The store's node with the auth service's node as its peer. The orders in which the services
  visit their maps are parameters.
\<close>

definition merch_auth ::
  "'e argon_lib \<Rightarrow> TokenIssuer \<Rightarrow> string \<Rightarrow> ((goint \<times> string) list \<Rightarrow> (goint \<times> string) list) \<Rightarrow>
   'e auth_node AuthServiceClient" where
  "merch_auth argon issuer secret order =
     auth_client (visit_order order) (auth_server argon issuer secret)"

record map_orders =
  o_names :: "(goint \<times> string) list \<Rightarrow> (goint \<times> string) list"
  o_visit :: "(int32 \<times> string) list \<Rightarrow> (int32 \<times> string) list"
  o_ids :: "(goint \<times> unit) list \<Rightarrow> (goint \<times> unit) list"
  o_goods :: "(Good \<times> uint32) list \<Rightarrow> (Good \<times> uint32) list"

definition merch_system ::
  "http_lib \<Rightarrow> grpc_lib \<Rightarrow> 'e argon_lib \<Rightarrow> TokenIssuer \<Rightarrow> TokenParser \<Rightarrow> string \<Rightarrow> nat list \<Rightarrow>
   map_orders \<Rightarrow> 'e auth_node store_node route list" where
  "merch_system lib rpc argon issuer parser secret sched ord =
     merch lib rpc
       \<lparr>c_sched = sched, c_ids = visit_order (o_ids ord), c_goods = visit_order (o_goods ord)\<rparr>
       (visit_order (o_visit ord)) parser secret (merch_auth argon issuer secret (o_names ord))"

section \<open>Looking up a receiver\<close>

definition user_found :: "auth_db \<Rightarrow> string \<Rightarrow> int option" where
  "user_found db n = map_option u_id (find_user db n)"

lemma merch_auth_GetUserID:
  assumes w: "calm r" "\<not> cancelled ctx" and wf: "wf_auth (durable r)"
  shows "\<exists>r'. asc_GetUserID (merch_auth argon issuer secret order) ctx \<lparr>uidq_Username = n\<rparr> r =
    (case user_found (durable r) n of
       None \<Rightarrow> Inl (StatusError NotFound ''user not found'')
     | Some i \<Rightarrow> Inr \<lparr>uidr_UserID = int32_of_int (word_of_int i)\<rparr>, r')"
proof -
  have upd: "r\<lparr>durable := durable r\<rparr> = r" by simp
  show ?thesis
    using assms
    by (cases "find_user (durable r) n")
      (simp_all add: user_found_def merch_auth_def auth_client_def AuthServerGRPC_GetUserID_def
        PgUsersRepository_UsersRepository_def UsersRepository_GetUserID_def NewUsersRepository_def
        auth_QueryRow_calm auth_query_cases select_user_rows first_row_def Let_def)
qed

lemma user_found_range:
  assumes "wf_auth db" "user_found db n = Some i"
  shows "sint (int32_of_int (word_of_int i)) = i" "int4_range i"
proof -
  from assms show "int4_range i"
    by (auto simp: user_found_def wf_auth_def dest: find_user_SomeD)
  then show "sint (int32_of_int (word_of_int i)) = i"
    by (simp add: sint_int32_in_range sint_goint_of_int4)
qed

section \<open>Sending coins over HTTP\<close>

text \<open>How a transfer that the store refuses is answered.\<close>

fun http_send_refusal :: "refusal \<Rightarrow> nat \<times> json option" where
  "http_send_refusal SelfTransfer = (400, Some (errors_H ''from_user must differ from to_user''))"
| "http_send_refusal NoAccount = (400, Some (errors_H ''user not found''))"
| "http_send_refusal TooMuch = (500, Some (errors_H ''internal server error''))"
| "http_send_refusal _ = (400, Some (errors_H ''insufficient funds''))"

lemma send_coins_served:
  assumes lib: "http_ok lib" and rpc: "grpc_ok rpc"
    and h: "gin_GetHeader c authHeaderName = ''Bearer '' @ token" "CHR 0x20 \<notin> set token"
    and tok: "ParseToken parser secret token = Inr claims" "int4_range (sint (cl_UserID claims))"
    and body: "bind_sendCoinRequestBody lib (gc_body c) = Some body"
    and w: "calm w" "wf_db (durable w)" "calm (remote w)" "wf_auth (durable (remote w))"
  shows "let u = sint (cl_UserID claims); opened = bank_open u (bank_of (durable w));
      receiver = user_found (durable (remote w)) (scb_ToUsername body);
      sending = (\<lambda>t. bank_send u t (uint (scb_Amount body)) opened)
    in \<exists>w'. gin_serve (merch_system lib rpc argon issuer parser secret sched ord) ''POST'' ''/api/sendCoin'' c w =
      (Some (case receiver of
         None \<Rightarrow> (400, Some (errors_H ''user not found''))
       | Some t \<Rightarrow> (case fst (sending t) of None \<Rightarrow> (200, None) | Some r \<Rightarrow> http_send_refusal r)), w') \<and>
      bank_of (durable w') = (case receiver of None \<Rightarrow> opened | Some t \<Rightarrow> snd (sending t))"
proof -
  let ?ctx = "call_ctx lib rpc c token"
  let ?client = "merch_auth argon issuer secret (o_names ord)"
  let ?u = "sint (cl_UserID claims)"
  let ?opened = "bank_open ?u (bank_of (durable w))"
  let ?n = "scb_ToUsername body"
  have b: "bearer_token (gin_GetHeader c authHeaderName) = Some token"
    using h by (simp add: bearer_token_iff)
  have c: "caller parser secret ?ctx = Some (cl_UserID claims)"
    using tok by (simp add: caller_call_ctx [OF lib rpc])
  have live: "\<not> cancelled (WithTimeout (WithValue ?ctx userIdContextKey (AnyInt (cl_UserID claims)))
      store_contextTimeLimit)"
    using call_ctx_live [OF lib rpc, of c token] by (simp add: WithTimeout_def)
  note serve = merch_system_def serve_SendCoin [OF lib b] body
  from merch_auth_GetUserID [OF w(3) live w(4), of argon issuer secret "o_names ord" ?n]
  obtain r' where id: "asc_GetUserID ?client
      (WithTimeout (WithValue ?ctx userIdContextKey (AnyInt (cl_UserID claims))) store_contextTimeLimit)
      \<lparr>uidq_Username = ?n\<rparr> (remote w) =
    (case user_found (durable (remote w)) ?n of
       None \<Rightarrow> Inl (StatusError NotFound ''user not found'')
     | Some i \<Rightarrow> Inr \<lparr>uidr_UserID = int32_of_int (word_of_int i)\<rparr>, r')" by blast
  note reply = SendCoins_reply [OF w(1) call_ctx_live [OF lib rpc] w(2) c tok(2) id,
    of "\<lparr>c_sched = sched, c_ids = visit_order (o_ids ord), c_goods = visit_order (o_goods ord)\<rparr>"
      "visit_order (o_visit ord)" "scb_Amount body"]
  show ?thesis
  proof (cases "user_found (durable (remote w)) ?n")
    case None
    with reply show ?thesis
      by (auto simp: Let_def serve rpc_error_status [OF rpc] handleGRPCError_reply [OF lib])
  next
    case (Some t)
    note t = user_found_range(1) [OF w(4) Some]
    obtain res bk where send: "bank_send ?u t (uint (scb_Amount body)) ?opened = (res, bk)" by fastforce
    show ?thesis
    proof (cases res)
      case None
      with reply Some t send show ?thesis by (auto simp: Let_def serve)
    next
      case (Some r)
      with reply \<open>user_found (durable (remote w)) ?n = _\<close> t send show ?thesis
        by (cases r) (auto simp: Let_def serve rpc_error_status [OF rpc] handleGRPCError_reply [OF lib])
    qed
  qed
qed

text \<open>
  C11. \<open>POST /api/sendCoin\<close> end to end. For the holder of a valid token on healthy connections, the
  receiver is looked up in the auth service by name; the reply is 200 exactly when that user
  exists and the abstract transfer is possible, and then the transfer has been committed. An
  unknown name and every refusal have their own answer, and then nothing but accounts has been
  opened.
\<close>

theorem http_send_coins:
  assumes lib: "http_ok lib" and rpc: "grpc_ok rpc"
    and h: "gin_GetHeader c authHeaderName = ''Bearer '' @ token" "CHR 0x20 \<notin> set token"
    and tok: "ParseToken parser secret token = Inr claims" "int4_range (sint (cl_UserID claims))"
    and body: "bind_sendCoinRequestBody lib (gc_body c) = Some body"
    and w: "calm w" "wf_db (durable w)" "calm (remote w)" "wf_auth (durable (remote w))"
  shows "let u = sint (cl_UserID claims); opened = bank_open u (bank_of (durable w));
      receiver = user_found (durable (remote w)) (scb_ToUsername body);
      sending = (\<lambda>t. bank_send u t (uint (scb_Amount body)) opened)
    in \<exists>w'. gin_serve (merch_system lib rpc argon issuer parser secret sched ord) ''POST'' ''/api/sendCoin'' c w =
      (Some (case receiver of
         None \<Rightarrow> (400, Some (errors_H ''user not found''))
       | Some t \<Rightarrow> (case fst (sending t) of None \<Rightarrow> (200, None) | Some r \<Rightarrow> http_send_refusal r)), w') \<and>
      bank_of (durable w') = (case receiver of None \<Rightarrow> opened | Some t \<Rightarrow> snd (sending t))"
  by (rule send_coins_served [OF assms])

section \<open>The user's page\<close>

lemma remote_durable [simp]: "remote (w\<lparr>durable := d\<rparr>) = remote w"
  by (cases w) simp

lemma ledger_ok_open [simp]: "ledger_ok (bank_open u b) = ledger_ok b"
  by (simp add: ledger_ok_def bank_open_def split: option.split)

lemma account_open: "accounts (bank_open u b) u \<noteq> None"
  by (auto simp: bank_open_def split: option.splits)

lemma userInfoCase_calm:
  fixes w :: "'e auth_node store_node"
  assumes w: "calm w" "\<not> cancelled ctx" "calm (remote w)" "wf_db (durable w)"
      "ledger_ok (bank_of (durable w))"
    and u: "int4_range (sint u)" "accounts (bank_of (durable w)) (sint u) \<noteq> None"
  shows "\<exists>info w'. UserInfoCase_GetUserInfo sched (visit_order o3)
      (store_userInfoCase (visit_order o2) (merch_auth argon issuer secret o1)) ctx u w = (Inr info, w') \<and>
    durable w' = durable w \<and>
    main_exact (auth_name (durable (remote w))) (bank_of (durable w)) (sint u) (tui_Username info)
      (tui_Balance info) \<and>
    goods_exact (bank_of (durable w)) (sint u) (tui_Goods info) \<and>
    history_exact (auth_name (durable (remote w))) (bank_of (durable w)) (sint u)
      (tui_CoinTransferHistory info)"
proof -
  from directory.GetUserInfo_healthy [OF w(4,5) u w(1-3), of sched o3 o2 o1 argon issuer secret]
  obtain info w' where r: "UserInfoCase_GetUserInfo sched (visit_order o3)
      (store_userInfoCase (visit_order o2) (merch_auth argon issuer secret o1)) ctx u w = (Inr info, w')"
    and g: "goods_exact (bank_of (durable w)) (sint u) (tui_Goods info)"
    by (auto simp: merch_auth_def)
  from directory.GetUserInfo_sound [OF w(4,5) u(1) r [unfolded merch_auth_def]]
    r g show ?thesis by auto
qed

text \<open>What an answer to \<open>GET /api/info\<close> says about a user, compared with the bank.\<close>

definition info_right :: "(int \<Rightarrow> string) \<Rightarrow> bank \<Rightarrow> int \<Rightarrow> GwUserInfo \<Rightarrow> bool" where
  "info_right name b u info \<longleftrightarrow>
     accounts b u = Some (uint (gui_Balance info)) \<and>
     distinct (map gii_Name (gui_Inventory info)) \<and>
     (\<forall>i \<in> set (gui_Inventory info). gii_Quantity i = owned b u (gii_Name i)) \<and>
     (\<forall>item. owned b u item \<noteq> 0 \<longrightarrow> item \<in> gii_Name ` set (gui_Inventory info)) \<and>
     map (\<lambda>t. (rt_From t, uint (rt_Amount t))) (gth_Received (gui_TransferHistory info)) =
       map (\<lambda>(i, a). (name i, a)) (incoming_of b u) \<and>
     map (\<lambda>t. (snt_To t, uint (snt_Amount t))) (gth_Sent (gui_TransferHistory info)) =
       map (\<lambda>(i, a). (name i, a)) (outcoming_of b u)"

lemma inj_g_Name: "inj (g_Name :: Good \<Rightarrow> string)"
  by (rule injI) (auto intro: Good.equality)

lemma info_right_converted:
  assumes rng: "range_order rng"
    and m: "main_exact name b u (tui_Username info) (tui_Balance info)"
    and g: "goods_exact b u (tui_Goods info)"
    and h: "history_exact name b u (tui_CoinTransferHistory info)"
  shows "\<exists>page. convertToUserInfo (convertToUserInfoResponse rng info) = Some page \<and>
    info_right name b u page"
proof -
  let ?goods = "tui_Goods info"
  have d: "distinct (map fst ?goods)" using g by (simp add: goods_exact_def)
  have q: "gomap_get 0 ?goods \<lparr>g_Name = item\<rparr> = owned b u item" for item
    using g by (simp add: goods_exact_def shown_quantity_def)
  have names: "\<lparr>g_Name = g_Name x\<rparr> = x" for x :: Good by simp
  have entry: "map_of ?goods x = Some n \<Longrightarrow> n = owned b u (g_Name x)" for x n
    using q [of "g_Name x"] by (simp add: gomap_get_def names)
  have "distinct (map fst (rng ?goods))"
    using map_of_range_order [OF rng d] by simp
  moreover have "inj_on g_Name X" for X :: "Good set" using inj_g_Name by (rule inj_on_subset) simp
  ultimately have "distinct (map (\<lambda>x. g_Name (fst x)) (rng ?goods))"
    using distinct_map [of g_Name "map fst (rng ?goods)"] by (simp add: comp_def)
  moreover have "\<forall>(x, n) \<in> set (rng ?goods). n = owned b u (g_Name x)"
    using entry d by (auto simp: range_order_set [OF rng] map_of_eq_Some_iff)
  moreover have "\<exists>n. (\<lparr>g_Name = item\<rparr>, n) \<in> set (rng ?goods)" if "owned b u item \<noteq> 0" for item
    using that q [of item] by (auto simp: gomap_get_def range_order_set [OF rng] split: option.splits
        dest: map_of_SomeD)
  ultimately show ?thesis using m h
    by (force simp: convertToUserInfo_def convertToUserInfoResponse_def append_items_map
        append_received_map append_sent_map info_right_def main_exact_def history_exact_def
        named_pairs_def comp_def case_prod_beta image_iff)
qed

text \<open>
  C13. \<open>GET /api/info\<close> end to end. In every state that the running service can reach, while the
  connections are healthy, the holder of a valid token gets 200 and a page on which the balance
  is that of the account, every item the user owns is listed once with its quantity (modulo
  \<open>2 ^ 32\<close>) and no other, and the received and sent transfers are those of the ledger in order,
  with the names the auth service has for the ids. This holds for every schedule of the
  goroutines and every order in which the maps are visited; only the caller's account may be
  opened.
\<close>

theorem http_info:
  fixes w :: "'e auth_node store_node"
  assumes lib: "http_ok lib" and rpc: "grpc_ok rpc"
    and h: "gin_GetHeader c authHeaderName = ''Bearer '' @ token" "CHR 0x20 \<notin> set token"
    and tok: "ParseToken parser secret token = Inr claims" "int4_range (sint (cl_UserID claims))"
    and w: "calm w" "calm (remote w)"
      "store_run parser secret (merch_auth argon issuer secret (o_names ord)) w"
  shows "\<exists>info w'. gin_serve (merch_system lib rpc argon issuer parser secret sched ord) ''GET'' ''/api/info'' c w =
      (Some (200, Some (json_UserInfo info)), w') \<and>
    bank_of (durable w') = bank_open (sint (cl_UserID claims)) (bank_of (durable w)) \<and>
    info_right (auth_name (durable (remote w))) (bank_of (durable w')) (sint (cl_UserID claims)) info"
proof -
  let ?u = "cl_UserID claims"
  let ?ctx = "call_ctx lib rpc c token"
  let ?ctx' = "WithValue ?ctx userIdContextKey (AnyInt ?u)"
  note ok = store_run_facts [OF w(3)]
  have b: "bearer_token (gin_GetHeader c authHeaderName) = Some token"
    using h by (simp add: bearer_token_iff)
  have c: "caller parser secret ?ctx = Some ?u"
    using tok by (simp add: caller_call_ctx [OF lib rpc])
  obtain d where e: "BalancesRepository_EnsureBalanceCreated store_balances ?ctx' ?u StartBalance w =
      (None, w\<lparr>durable := d\<rparr>)"
    and d: "wf_db d" "bank_of d = bank_open (sint ?u) (bank_of (durable w))"
    using ensure_store [OF w(1) call_ctx_live [OF lib rpc] tok(2) ok(1)] by blast
  have "calm (w\<lparr>durable := d\<rparr>)" "\<not> cancelled ?ctx'" "calm (remote (w\<lparr>durable := d\<rparr>))"
    "wf_db (durable (w\<lparr>durable := d\<rparr>))" "ledger_ok (bank_of (durable (w\<lparr>durable := d\<rparr>)))"
    "accounts (bank_of (durable (w\<lparr>durable := d\<rparr>))) (sint ?u) \<noteq> None"
    using w call_ctx_live [OF lib rpc, of c token] d ok(3) account_open by simp_all
  from userInfoCase_calm [OF this(1-5) tok(2) this(6), of sched "o_ids ord" "o_visit ord" argon issuer
      secret "o_names ord"]
  obtain info w' where r: "UserInfoCase_GetUserInfo sched (visit_order (o_ids ord))
      (store_userInfoCase (visit_order (o_visit ord)) (merch_auth argon issuer secret (o_names ord)))
      ?ctx' ?u (w\<lparr>durable := d\<rparr>) = (Inr info, w')"
    and d': "durable w' = d"
    and i: "main_exact (auth_name (durable (remote w))) (bank_of d) (sint ?u) (tui_Username info)
        (tui_Balance info)"
      "goods_exact (bank_of d) (sint ?u) (tui_Goods info)"
      "history_exact (auth_name (durable (remote w))) (bank_of d) (sint ?u)
        (tui_CoinTransferHistory info)"
    by auto
  from info_right_converted [OF range_order_visit_order i, of "o_goods ord"] obtain page where
    p: "convertToUserInfo (convertToUserInfoResponse (visit_order (o_goods ord)) info) = Some page"
      "info_right (auth_name (durable (remote w))) (bank_of d) (sint ?u) page" by blast
  have "gin_serve (merch_system lib rpc argon issuer parser secret sched ord) ''GET'' ''/api/info'' c w =
      (Some (200, Some (json_UserInfo page)), w')"
    using e r p(1) by (simp add: merch_system_def serve_GetInfo [OF lib b] store_server_methods
        chain_caller [OF c] StoreServerGRPC_GetUserInfo_def NewStoreServerGRPC_def)
  with p(2) d d' show ?thesis by auto
qed

end
