(* ===== verification/Merch_Login.thy ===== *)
theory Merch_Login
  imports Merch_System
begin

text \<open>
  Logging in over HTTP, and what the token that a login returns stands for: the path of a
  password from the gateway through the auth service to the store.
\<close>

section \<open>POST /api/auth\<close>

definition login_ctx :: "grpc_lib \<Rightarrow> gin_context \<Rightarrow> go_context" where
  "login_ctx rpc c = rpc_context rpc (WithTimeout (gc_request_ctx c) gateway_contextTimeLimit)"

lemma durable_remote [simp]: "durable (w\<lparr>remote := r\<rparr>) = durable w"
  by (cases w) simp

lemma serve_login:
  fixes w :: "'e auth_node store_node"
  assumes lib: "http_ok lib" and rpc: "grpc_ok rpc"
  shows "\<exists>w'. gin_serve (merch_system lib rpc argon issuer parser secret sched ord) ''POST'' ''/api/auth'' c w =
    (Some (case bind_authRequestBody lib (gc_body c) of
       None \<Rightarrow> (400, Some (errors_H ''invalid request body''))
     | Some body \<Rightarrow>
         (case fst (Authenticator_Authenticate (auth_authenticator argon issuer secret) (login_ctx rpc c)
                 (arb_Username body) (arb_Password body) (remote w)) of
            Inr token \<Rightarrow> (200, Some (JObject [(''token'', JString token)]))
          | Inl err \<Rightarrow>
              if errors_Is err (AuthError (CredentialsMismatchError []))
              then (401, Some (errors_H ''mismatched credentials''))
              else (500, Some (errors_H ''internal server error'')))), w') \<and>
    durable w' = durable w \<and>
    durable (remote w') = (case bind_authRequestBody lib (gc_body c) of
       None \<Rightarrow> durable (remote w)
     | Some body \<Rightarrow> durable (snd (Authenticator_Authenticate (auth_authenticator argon issuer secret)
         (login_ctx rpc c) (arb_Username body) (arb_Password body) (remote w))))"
proof (cases "bind_authRequestBody lib (gc_body c)")
  case None
  then show ?thesis
    by (simp add: merch_system_def gateway_defs AuthHandler_Authenticate_def gin_JSON_def)
next
  case (Some body)
  let ?req = "\<lparr>ar_Username = arb_Username body, ar_Password = arb_Password body\<rparr>"
  from Authenticate_codes [of argon issuer secret "login_ctx rpc c" ?req "remote w"]
  obtain r r1 r' where a: "Authenticator_Authenticate (auth_authenticator argon issuer secret)
      (login_ctx rpc c) (arb_Username body) (arb_Password body) (remote w) = (r, r1)"
    and s: "AuthServerGRPC_Authenticate (auth_server argon issuer secret) (login_ctx rpc c) ?req (remote w) =
      (case r of Inr token \<Rightarrow> Inr \<lparr>ar_Token = token\<rparr>
       | Inl err \<Rightarrow> Inl (if errors_Is err (AuthError (CredentialsMismatchError []))
           then StatusError Unauthenticated ''mismatched credentials''
           else StatusError Internal ''internal server error''), r')"
    and d: "durable r' = durable r1"
    by auto
  show ?thesis using Some a s d
    by (cases r) (auto simp: merch_system_def gateway_defs AuthHandler_Authenticate_def gin_JSON_def
        GwAuthAdapter_Authenticate_def merch_auth_def auth_client_def remote_AuthServiceClient_def
        remote_call_def login_ctx_def Let_def rpc_error_status [OF rpc] http_okD(4) [OF lib])
qed

text \<open>
  C9. Login end to end, in every state and under every failure. A body that does not decode is
  answered with 400 and nobody is asked. Otherwise the auth service authenticates, and its result
  is answered with 200 and the token, with 401 exactly for wrong credentials, or with a 500
  that tells nothing of the failure; the store is not involved.
\<close>

theorem http_login:
  fixes w :: "'e auth_node store_node"
  assumes lib: "http_ok lib" and rpc: "grpc_ok rpc"
  shows "\<exists>w'. gin_serve (merch_system lib rpc argon issuer parser secret sched ord) ''POST'' ''/api/auth'' c w =
    (Some (case bind_authRequestBody lib (gc_body c) of
       None \<Rightarrow> (400, Some (errors_H ''invalid request body''))
     | Some body \<Rightarrow>
         (case fst (Authenticator_Authenticate (auth_authenticator argon issuer secret) (login_ctx rpc c)
                 (arb_Username body) (arb_Password body) (remote w)) of
            Inr token \<Rightarrow> (200, Some (JObject [(''token'', JString token)]))
          | Inl err \<Rightarrow>
              if errors_Is err (AuthError (CredentialsMismatchError []))
              then (401, Some (errors_H ''mismatched credentials''))
              else (500, Some (errors_H ''internal server error'')))), w') \<and>
    durable w' = durable w \<and>
    durable (remote w') = (case bind_authRequestBody lib (gc_body c) of
       None \<Rightarrow> durable (remote w)
     | Some body \<Rightarrow> durable (snd (Authenticator_Authenticate (auth_authenticator argon issuer secret)
         (login_ctx rpc c) (arb_Username body) (arb_Password body) (remote w))))"
  by (rule serve_login [OF assms])

section \<open>What a token stands for\<close>

lemma auth_known_facts:
  assumes "auth_known db n = Some u" "wf_auth db"
  shows "usr_Username u = n" "int4_range (sint (usr_ID u))"
  using assms
  by (auto simp: auth_known_def row_info_def wf_auth_def sint_goint_of_int4 dest: find_user_SomeD)

lemma login_identifies:
  fixes w :: "'e auth_node store_node"
  assumes lib: "http_ok lib" and rpc: "grpc_ok rpc" and argon: "argon_ok argon" and jwt: "jwt_lib_ok jwt"
    and wf: "wf_auth (durable (remote w))"
    and body: "bind_authRequestBody lib (gc_body c) = Some body"
    and login: "gin_serve (merch_system lib rpc argon (NewJWTTokenIssuer jwt now) parser secret sched ord)
      ''POST'' ''/api/auth'' c w = (Some (200, Some (JObject [(''token'', JString token)])), w')"
    and later: "later < (now + tokenTimeLimit) div second * second"
  shows "\<exists>u claims. auth_known (durable (remote w')) (arb_Username body) = Some u \<and>
    ParseToken (NewJWTTokenParser jwt later) secret token = Inr claims \<and>
    cl_UserID claims = usr_ID u \<and> cl_Username claims = arb_Username body \<and>
    int4_range (sint (usr_ID u)) \<and>
    (\<forall>q. argon_made argon q (usr_PasswordHash u) \<longrightarrow> arb_Password body = q)"
proof -
  let ?issuer = "NewJWTTokenIssuer jwt now"
  obtain r r1 where a: "Authenticator_Authenticate (auth_authenticator argon ?issuer secret)
      (login_ctx rpc c) (arb_Username body) (arb_Password body) (remote w) = (r, r1)" by fastforce
  from serve_login [OF lib rpc, of argon ?issuer parser secret sched ord c w] login body a
  have r: "r = Inr token" and d: "durable (remote w') = durable r1"
    by (auto split: sum.splits if_splits)
  from Authenticate_run_safe [OF argon wf a] r d obtain u where
    wf': "wf_auth (durable (remote w'))"
    and u: "auth_known (durable (remote w')) (arb_Username body) = Some u"
    and i: "JWTTokenIssuer_IssueToken jwt now secret (usr_ID u) (usr_Username u) tokenTimeLimit = Inr token"
    and q: "\<forall>q. argon_made argon q (usr_PasswordHash u) \<longrightarrow> arb_Password body = q"
    by (auto simp: NewJWTTokenIssuer_def)
  from issued_parses [OF jwt i later] obtain claims where
    "JWTTokenParser_ParseToken jwt later secret token = Inr claims"
    "cl_UserID claims = usr_ID u" "cl_Username claims = usr_Username u" by blast
  then have "ParseToken (NewJWTTokenParser jwt later) secret token = Inr claims \<and>
      cl_UserID claims = usr_ID u \<and> cl_Username claims = arb_Username body \<and> int4_range (sint (usr_ID u))"
    using auth_known_facts [OF u wf'] by (simp add: NewJWTTokenParser_def)
  with u q show ?thesis by blast
qed

text \<open>
  C10. Log in, then use the token. If a login over HTTP returns a token, under any failures, then
  the store (with the same secret) parses that token, until it expires, to the user that is
  registered in the auth service under the given name, and the given password is the one that
  user's stored hash was made from: nobody acts for another user without that user's password.
\<close>

theorem login_token_identifies:
  fixes w :: "'e auth_node store_node"
  assumes lib: "http_ok lib" and rpc: "grpc_ok rpc" and argon: "argon_ok argon" and jwt: "jwt_lib_ok jwt"
    and wf: "wf_auth (durable (remote w))"
    and body: "bind_authRequestBody lib (gc_body c) = Some body"
    and login: "gin_serve (merch_system lib rpc argon (NewJWTTokenIssuer jwt now) parser secret sched ord)
      ''POST'' ''/api/auth'' c w = (Some (200, Some (JObject [(''token'', JString token)])), w')"
    and later: "later < (now + tokenTimeLimit) div second * second"
  shows "\<exists>u claims. auth_known (durable (remote w')) (arb_Username body) = Some u \<and>
    ParseToken (NewJWTTokenParser jwt later) secret token = Inr claims \<and>
    cl_UserID claims = usr_ID u \<and> cl_Username claims = arb_Username body \<and>
    int4_range (sint (usr_ID u)) \<and>
    (\<forall>q. argon_made argon q (usr_PasswordHash u) \<longrightarrow> arb_Password body = q)"
  by (rule login_identifies [OF assms])

section \<open>Witnesses\<close>

definition demo_orders :: map_orders where
  "demo_orders = \<lparr>o_names = rev, o_visit = (\<lambda>xs. xs), o_ids = rev, o_goods = (\<lambda>xs. xs)\<rparr>"

definition demo_system :: "unit auth_node store_node" where
  "demo_system =
     \<lparr>durable = migrated_db, tx_state = TxClosed, faults = [], logs = [], remote = demo_auth_world []\<rparr>"

lemma demo_system_simps [simp]:
  "durable demo_system = migrated_db" "remote demo_system = demo_auth_world []" "calm demo_system"
  by (simp_all add: demo_system_def calm_def)

lemma demo_bound: "bind_authRequestBody demo_http ''alice pw'' =
    Some \<lparr>arb_Username = ''alice'', arb_Password = ''pw''\<rparr>"
  "bind_sendCoinRequestBody demo_http ''bob 30'' = Some \<lparr>scb_ToUsername = ''bob'', scb_Amount = 30\<rparr>"
  by (simp_all add: demo_http_def)

lemma demo_login_ctx: "\<not> cancelled (login_ctx demo_grpc (demo_request header body))"
  by (simp add: login_ctx_def demo_grpc_def demo_request_def request_def WithTimeout_def background_def)

lemma demo_authenticate:
  "\<exists>r1. Authenticator_Authenticate (auth_authenticator demo_argon (NewJWTTokenIssuer demo_jwt 0) ''k'')
      (login_ctx demo_grpc (demo_request header body)) ''alice'' ''pw'' (demo_auth_world []) =
    (Inr ''alice.k'', r1)"
proof -
  have "show_int 1 = ''1''" by code_simp
  then show ?thesis
    by (simp add: Authenticator_Authenticate_def PgUsersRepository_UsersRepository_def demo_login_ctx
        TryGetUserInfo_calm wf_demo_auth known_demo_auth)
      (simp add: demo_argon_def NewJWTTokenIssuer_def JWTTokenIssuer_IssueToken_def demo_jwt_def
        demo_claims_def second_def tokenTimeLimit_def)
qed

theorem http_login_witness:
  "\<exists>w'. gin_serve (merch_system demo_http demo_grpc demo_argon (NewJWTTokenIssuer demo_jwt 0) demo_parser
      ''k'' [] demo_orders) ''POST'' ''/api/auth'' (demo_request [] ''alice pw'') demo_system =
    (Some (200, Some (JObject [(''token'', JString ''alice.k'')])), w') \<and> durable w' = migrated_db"
proof -
  obtain r1 where "Authenticator_Authenticate (auth_authenticator demo_argon (NewJWTTokenIssuer demo_jwt 0) ''k'')
      (login_ctx demo_grpc (demo_request [] ''alice pw'')) ''alice'' ''pw'' (demo_auth_world []) =
    (Inr ''alice.k'', r1)" using demo_authenticate by blast
  with http_login [OF demo_http_ok demo_grpc_ok, of demo_argon "NewJWTTokenIssuer demo_jwt 0" demo_parser "''k''"
      "[]" demo_orders "demo_request [] ''alice pw''" demo_system]
  show ?thesis by (auto simp: demo_bound)
qed

lemma demo_login:
  "\<exists>w'. gin_serve (merch_system demo_http demo_grpc demo_argon (NewJWTTokenIssuer demo_jwt 0)
      parser ''k'' sched ord) ''POST'' ''/api/auth'' (demo_request [] ''alice pw'') demo_system =
    (Some (200, Some (JObject [(''token'', JString ''alice.k'')])), w') \<and>
    auth_known (durable (remote w')) ''alice'' =
      Some \<lparr>usr_ID = 1, usr_Username = ''alice'', usr_PasswordHash = ''h:pw''\<rparr>"
proof -
  obtain r1 where a: "Authenticator_Authenticate (auth_authenticator demo_argon (NewJWTTokenIssuer demo_jwt 0) ''k'')
      (login_ctx demo_grpc (demo_request [] ''alice pw'')) ''alice'' ''pw'' (demo_auth_world []) =
    (Inr ''alice.k'', r1)" using demo_authenticate by blast
  from serve_login [OF demo_http_ok demo_grpc_ok, of demo_argon "NewJWTTokenIssuer demo_jwt 0" parser
      "''k''" sched ord "demo_request [] ''alice pw''" demo_system] a
  obtain w' where l: "gin_serve (merch_system demo_http demo_grpc demo_argon (NewJWTTokenIssuer demo_jwt 0)
      parser ''k'' sched ord) ''POST'' ''/api/auth'' (demo_request [] ''alice pw'') demo_system =
    (Some (200, Some (JObject [(''token'', JString ''alice.k'')])), w')"
    and d: "durable (remote w') = durable r1"
    by (auto simp: demo_bound)
  have "auth_known (durable r1) ''alice'' = auth_known demo_auth_db ''alice''"
    using Authenticate_run_safe [OF demo_argon_ok wf_demo_auth a] known_demo_auth
    by (auto simp: demo_auth_world_def)
  with l d known_demo_auth(1) [of "[]"] show ?thesis by (simp add: demo_auth_world_def)
qed

theorem login_token_identifies_witness:
  "\<exists>claims. ParseToken (NewJWTTokenParser demo_jwt second) ''k'' ''alice.k'' = Inr claims \<and>
    cl_UserID claims = 1 \<and> cl_Username claims = ''alice''"
proof -
  obtain w' where l: "gin_serve (merch_system demo_http demo_grpc demo_argon (NewJWTTokenIssuer demo_jwt 0)
      demo_parser ''k'' [] demo_orders) ''POST'' ''/api/auth'' (demo_request [] ''alice pw'') demo_system =
    (Some (200, Some (JObject [(''token'', JString ''alice.k'')])), w')"
    and k: "auth_known (durable (remote w')) ''alice'' =
      Some \<lparr>usr_ID = 1, usr_Username = ''alice'', usr_PasswordHash = ''h:pw''\<rparr>"
    using demo_login by blast
  have "wf_auth (durable (remote demo_system))" using wf_demo_auth by simp
  from login_token_identifies [OF demo_http_ok demo_grpc_ok demo_argon_ok demo_jwt_ok this _ l, of _ second]
  show ?thesis using k by (auto simp: demo_bound second_def tokenTimeLimit_def)
qed

theorem http_send_coins_witness:
  "\<exists>w'. gin_serve (merch_system demo_http demo_grpc demo_argon demo_issuer demo_parser ''k'' [2, 0] demo_orders)
      ''POST'' ''/api/sendCoin'' (demo_request ''Bearer alice.k'' ''bob 30'') demo_system =
    (Some (200, None), w') \<and> accounts (bank_of (durable w')) 2 = Some 1030"
proof -
  have found: "user_found (durable (remote demo_system)) ''bob'' = Some 2"
    by (simp add: user_found_def find_user_def demo_auth_world_def demo_auth_db_def)
  have "fst (bank_send 1 2 30 (bank_open 1 (bank_of migrated_db))) = None \<and>
      accounts (snd (bank_send 1 2 30 (bank_open 1 (bank_of migrated_db)))) 2 = Some 1030"
    by (simp add: bank_send_def bank_open_def bank_transfer_def bank_of_def migrated_db_def
        start_coins_def coin_limit_def)
  moreover have "int4_range (sint (cl_UserID demo_claims))" by (simp add: demo_tokens int4_range_def)
  ultimately show ?thesis
    using http_send_coins [OF demo_http_ok demo_grpc_ok _ _ demo_tokens(1) _ _ _ _ _ _, of
      "demo_request ''Bearer alice.k'' ''bob 30''" "\<lparr>scb_ToUsername = ''bob'', scb_Amount = 30\<rparr>"
      demo_system demo_argon demo_issuer "[2, 0]" demo_orders] found
    by (auto simp: demo_tokens Let_def demo_bound wf_demo_auth wf_migrated_db)
qed

theorem http_info_witness:
  "\<exists>info w'. gin_serve (merch_system demo_http demo_grpc demo_argon demo_issuer demo_parser ''k'' [2, 0] demo_orders)
      ''GET'' ''/api/info'' (demo_request ''Bearer alice.k'' []) demo_system =
    (Some (200, Some (json_UserInfo info)), w') \<and> uint (gui_Balance info) = 1000"
proof -
  have "store_run demo_parser ''k'' (merch_auth demo_argon demo_issuer ''k'' (o_names demo_orders)) demo_system"
    by (rule run_start) simp
  from http_info [OF demo_http_ok demo_grpc_ok _ _ demo_tokens(1) _ _ _ this, of
      "demo_request ''Bearer alice.k'' []" "[2, 0]"]
  obtain info w' where "gin_serve (merch_system demo_http demo_grpc demo_argon demo_issuer demo_parser ''k'' [2, 0]
      demo_orders) ''GET'' ''/api/info'' (demo_request ''Bearer alice.k'' []) demo_system =
      (Some (200, Some (json_UserInfo info)), w')"
    "bank_of (durable w') = bank_open 1 (bank_of migrated_db)"
    "info_right (auth_name (durable (remote demo_system))) (bank_of (durable w')) 1 info"
    by (auto simp: demo_tokens int4_range_def)
  moreover have "accounts (bank_open 1 (bank_of migrated_db)) 1 = Some 1000"
    by (simp add: bank_open_def bank_of_def migrated_db_def start_coins_def)
  ultimately show ?thesis by (auto simp: info_right_def)
qed

end
