(* ===== verification/Store_Concurrency.thy ===== *)
theory Store_Concurrency
  imports Store_Outcomes
begin

text \<open>
  Purchases and transfers that run at the same time. Each transaction function of the store is
  written out as the program of SQL statements that it sends, and shown to be that program for
  every executor; sessions then interleave their programs statement by statement on one
  database. PostgreSQL at \<open>READ COMMITTED\<close> is modelled by what the code relies on: a session sees
  the committed state with its own writes on top, and a row that a session has updated or
  selected \<open>FOR UPDATE\<close> is locked against the others until the session ends.
\<close>

section \<open>Transactions as programs of statements\<close>

datatype prog =
    Stop "error option"
  | AskQuery store_sql "arg list" "row \<Rightarrow> prog"
  | AskExec store_sql "arg list" "error + nat \<Rightarrow> prog"

primrec run_prog ::
  "(store_sql, 'w) QueryExecuter \<Rightarrow> go_context \<Rightarrow> prog \<Rightarrow> 'w \<Rightarrow> error option \<times> 'w" where
  "run_prog ex ctx (Stop r) w = (r, w)"
| "run_prog ex ctx (AskQuery q args k) w =
     (case QueryRow ex ctx q args w of (row, w) \<Rightarrow> run_prog ex ctx (k row) w)"
| "run_prog ex ctx (AskExec q args k) w =
     (case Exec ex ctx q args w of (r, w) \<Rightarrow> run_prog ex ctx (k r) w)"

text \<open>What \<open>LockAndGetUserBalance\<close> makes of the row, and \<open>GetGoodInfo\<close> of its row.\<close>

definition locked_balance :: "goint \<Rightarrow> row \<Rightarrow> error + uint32" where
  "locked_balance userId row =
     (case Scan1 scan_uint32 row of
        Inl err \<Rightarrow>
          if errors_Is err ErrNoRows
          then Inl (StoreError (UserNotFoundError
                  (''user with id '' @ show_int (sint userId) @ '' not found'')))
          else Inl (WrapError ''failed to lock user row'' err)
      | Inr balance \<Rightarrow> Inr balance)"

definition good_of_row :: "string \<Rightarrow> row \<Rightarrow> error + GoodInfo" where
  "good_of_row name row =
     (case Scan3 scan_int scan_string scan_uint32 row of
        Inl err \<Rightarrow>
          if errors_Is err ErrNoRows
          then Inl (StoreError (GoodNotFoundError (''good '' @ name @ '' not found'')))
          else Inl (WrapError ''failed to find good'' err)
      | Inr (goodId, goodName, price) \<Rightarrow>
          Inr \<lparr>gi_Id = goodId, gi_Name = goodName, gi_Price = price\<rparr>)"

definition buy_insert :: "goint \<Rightarrow> GoodInfo \<Rightarrow> prog" where
  "buy_insert userId good = AskExec SqlInsertPurchase [AInt userId, AInt (gi_Id good)] (\<lambda>r.
     case r of
       Inl err \<Rightarrow> Stop (Some (WrapError ''failed to process purchase''
         (WrapError ''failed to insert purchase record'' err)))
     | Inr _ \<Rightarrow> Stop None)"

definition buy_debit :: "goint \<Rightarrow> GoodInfo \<Rightarrow> prog" where
  "buy_debit userId good = AskExec SqlPurchaseDebit [AUint32 (gi_Price good), AInt userId] (\<lambda>r.
     case r of
       Inl err \<Rightarrow> Stop (Some (WrapError ''failed to process purchase''
         (WrapError ''failed to update user balance'' err)))
     | Inr _ \<Rightarrow> buy_insert userId good)"

definition buy_prog :: "goint \<Rightarrow> GoodInfo \<Rightarrow> prog" where
  "buy_prog userId good = AskQuery SqlLockBalance [AInt userId] (\<lambda>row.
     case locked_balance userId row of
       Inl err \<Rightarrow> Stop (Some (WrapError ''failed to lock and get user balance'' err))
     | Inr balance \<Rightarrow>
         if balance < gi_Price good
         then Stop (Some (StoreError (InsufficientBalanceError ''insufficient balance'')))
         else buy_debit userId good)"

definition send_failed :: "string \<Rightarrow> error \<Rightarrow> prog" where
  "send_failed msg err =
     Stop (Some (WrapError ''failed to proceed transaction'' (WrapError msg err)))"

definition send_insert :: "goint \<Rightarrow> goint \<Rightarrow> uint32 \<Rightarrow> prog" where
  "send_insert f t a = AskExec SqlInsertTransaction [AInt f, AInt t, AUint32 a] (\<lambda>r.
     case r of
       Inl err \<Rightarrow> send_failed ''failed to insert transaction record'' err
     | Inr _ \<Rightarrow> Stop None)"

definition send_credit :: "goint \<Rightarrow> goint \<Rightarrow> uint32 \<Rightarrow> prog" where
  "send_credit f t a = AskExec SqlTransferCredit [AUint32 a, AInt t] (\<lambda>r.
     case r of
       Inl err \<Rightarrow> send_failed ''failed to update balance for toUser'' err
     | Inr _ \<Rightarrow> send_insert f t a)"

definition send_debit :: "goint \<Rightarrow> goint \<Rightarrow> uint32 \<Rightarrow> prog" where
  "send_debit f t a = AskExec SqlTransferDebit [AUint32 a, AInt f] (\<lambda>r.
     case r of
       Inl err \<Rightarrow> send_failed ''failed to update balance for fromUser'' err
     | Inr rowsAffected \<Rightarrow>
         if rowsAffected = 0
         then Stop (Some (WrapError ''failed to proceed transaction''
                (StoreError (InsufficientBalanceError []))))
         else send_credit f t a)"

definition send_prog :: "goint \<Rightarrow> goint \<Rightarrow> uint32 \<Rightarrow> prog" where
  "send_prog f t a = AskQuery SqlLockBalance [AInt f] (\<lambda>row.
     case locked_balance f row of
       Inl err \<Rightarrow> Stop (Some (WrapError
         (''failed to lock and get balance for user '' @ show_int (sint f)) err))
     | Inr balance \<Rightarrow>
         if balance < a
         then Stop (Some (StoreError (InsufficientBalanceError
                (''user '' @ show_int (sint f) @ '' has insufficient balance''))))
         else send_debit f t a)"

lemmas prog_defs = buy_prog_def buy_debit_def buy_insert_def send_prog_def send_debit_def
  send_credit_def send_insert_def send_failed_def

lemma run_buy_debit:
  "run_prog ex ctx (buy_debit u good) w =
     (case PurchaseHandler_ProcessPurchase ctx ex u good w of
        (Some err, w) \<Rightarrow> (Some (WrapError ''failed to process purchase'' err), w)
      | (None, w) \<Rightarrow> (None, w))"
  by (auto simp: buy_debit_def buy_insert_def PurchaseHandler_ProcessPurchase_def
      split: prod.split sum.split)

lemma run_send_debit:
  "run_prog ex ctx (send_debit f t a) w =
     (case TransactionProceeder_ProceedTransaction ctx ex a f t w of
        (Some err, w) \<Rightarrow> (Some (WrapError ''failed to proceed transaction'' err), w)
      | (None, w) \<Rightarrow> (None, w))"
  by (auto simp: send_debit_def send_credit_def send_insert_def send_failed_def
      TransactionProceeder_ProceedTransaction_def split: prod.split sum.split)

lemma LockAndGetUserBalance_row:
  "BalancesRepository_LockAndGetUserBalance br ctx ex u w =
     (case QueryRow ex ctx SqlLockBalance [AInt u] w of (row, w) \<Rightarrow> (locked_balance u row, w))"
  by (simp add: BalancesRepository_LockAndGetUserBalance_def locked_balance_def
      split: prod.split sum.split)

text \<open>
  The bridge from the model to the code. The programs are the code: for every executor and world, the function that \<open>BuyItem\<close> or
  \<open>SendCoins\<close> hands to the transaction manager does what running the program does, and
  \<open>GetGoodInfo\<close> is its query with the row read by \<open>good_of_row\<close>.
\<close>

theorem programs_are_code:
  "run_prog ex ctx (buy_prog u good) w = buy_item_tx store_purchaseCase u good ctx ex w \<and>
   run_prog ex ctx (send_prog f t a) w = send_coins_tx (store_sendCoinsCase client) f t a ctx ex w \<and>
   GoodsRepository_GetGoodInfo gr ctx name v =
     (case QueryRow (gr_querier gr) ctx SqlFindGood [AString name] v of (row, v) \<Rightarrow> (good_of_row name row, v))"
proof (intro conjI)
  show "run_prog ex ctx (buy_prog u good) w = buy_item_tx store_purchaseCase u good ctx ex w"
    by (auto simp: buy_prog_def run_buy_debit buy_item_tx_def store_purchaseCase_def
        NewPurchaseCase_def BalancesRepository_UserBalanceLocker_def LockAndGetUserBalance_row
        NewPurchaseHandler_def split: prod.split sum.split option.split)
  show "run_prog ex ctx (send_prog f t a) w = send_coins_tx (store_sendCoinsCase client) f t a ctx ex w"
    by (auto simp: send_prog_def run_send_debit send_coins_tx_def store_sendCoinsCase_def
        NewSendCoinsCase_def BalancesRepository_UserBalanceLocker_def LockAndGetUserBalance_row
        NewTransactionProceeder_def split: prod.split sum.split option.split)
  show "GoodsRepository_GetGoodInfo gr ctx name v =
     (case QueryRow (gr_querier gr) ctx SqlFindGood [AString name] v of (row, v) \<Rightarrow> (good_of_row name row, v))"
    by (simp add: GoodsRepository_GetGoodInfo_def good_of_row_def split: prod.split sum.split)
qed

section \<open>Sessions\<close>

text \<open>
  A request with its user ids known (a transfer's receiver has been looked up). A session is a
  request that has not started, a transaction with the writes it has made, the account rows it
  has locked and the rest of its program, or a request that is done.
\<close>

datatype request = BuyReq goint string | SendReq goint goint uint32

datatype session =
    Fresh request
  | Running request "(store_sql \<times> arg list) list" "int list" prog
  | Ended request "error option"

text \<open>The database as a session sees it: its own writes on top of the committed state.\<close>

fun replay :: "(store_sql \<times> arg list) list \<Rightarrow> store_db \<Rightarrow> store_db" where
  "replay [] d = d"
| "replay ((q, args) # log) d =
     (case store_exec q args d of Inl _ \<Rightarrow> replay log d | Inr (_, d') \<Rightarrow> replay log d')"

text \<open>
  The account rows a statement must lock: the one it selects \<open>FOR UPDATE\<close> or updates, and those
  that an inserted foreign key refers to.
\<close>

fun arg_key :: "arg \<Rightarrow> int list" where
  "arg_key (AInt u) = [sint u]"
| "arg_key _ = []"

definition lock_keys :: "store_sql \<Rightarrow> arg list \<Rightarrow> int list" where
  "lock_keys q args =
     (case q of
        SqlLockBalance \<Rightarrow> concat (map arg_key args)
      | SqlPurchaseDebit \<Rightarrow> concat (map arg_key args)
      | SqlTransferDebit \<Rightarrow> concat (map arg_key args)
      | SqlTransferCredit \<Rightarrow> concat (map arg_key args)
      | SqlInsertPurchase \<Rightarrow> concat (map arg_key (take 1 args))
      | SqlInsertTransaction \<Rightarrow> concat (map arg_key args)
      | _ \<Rightarrow> [])"

fun held_locks :: "session \<Rightarrow> int list" where
  "held_locks (Running _ _ locks _) = locks"
| "held_locks _ = []"

fun wanted_locks :: "session \<Rightarrow> int list" where
  "wanted_locks (Running _ _ _ (AskQuery q args _)) = lock_keys q args"
| "wanted_locks (Running _ _ _ (AskExec q args _)) = lock_keys q args"
| "wanted_locks _ = []"

text \<open>No other session holds a row that session \<open>i\<close> needs next.\<close>

definition granted :: "session list \<Rightarrow> nat \<Rightarrow> bool" where
  "granted ss i =
     list_all (\<lambda>j. j = i \<or> list_all (\<lambda>u. u \<notin> set (held_locks (ss ! j))) (wanted_locks (ss ! i)))
       [0..<length ss]"

definition query_row :: "store_sql \<Rightarrow> arg list \<Rightarrow> store_db \<Rightarrow> row" where
  "query_row q args d =
     (case store_query q args d of Inl e \<Rightarrow> Inl e | Inr (rs, _) \<Rightarrow> first_row rs)"

text \<open>
  The next action of a session. A purchase first reads the good, a transfer first opens the
  receiver's account; a program that has stopped is committed or rolled back by
  \<open>WithinTransaction\<close>. (No program sends a statement after one that failed.)
\<close>

fun session_next :: "store_db \<Rightarrow> session \<Rightarrow> session \<times> store_db" where
  "session_next d (Fresh (BuyReq u item)) =
     (case good_of_row item (query_row SqlFindGood [AString item] d) of
        Inl err \<Rightarrow> (Ended (BuyReq u item) (Some (WrapError ''failed to get good info'' err)), d)
      | Inr good \<Rightarrow> (Running (BuyReq u item) [] [] (buy_prog u good), d))"
| "session_next d (Fresh (SendReq f t a)) =
     (if t = f
      then (Ended (SendReq f t a)
              (Some (StoreError (InvalidArgumentsError ''from_user must differ from to_user''))), d)
      else (case store_exec SqlEnsureBalance [AInt t, AUint32 StartBalance] d of
              Inl err \<Rightarrow> (Ended (SendReq f t a) (Some (WrapError
                (''failed to ensure balance for user '' @ show_int (sint t)) err)), d)
            | Inr (_, d') \<Rightarrow> (Running (SendReq f t a) [] [] (send_prog f t a), d')))"
| "session_next d (Running rq log locks (Stop None)) = (Ended rq None, replay log d)"
| "session_next d (Running rq log locks (Stop (Some err))) =
     (Ended rq (Some (WrapError ''failed to execute logic within transaction'' err)), d)"
| "session_next d (Running rq log locks (AskQuery q args k)) =
     (let v = replay log d
      in (Running rq log (locks @ filter (has_account v) (lock_keys q args)) (k (query_row q args v)), d))"
| "session_next d (Running rq log locks (AskExec q args k)) =
     (let v = replay log d; locks' = locks @ filter (has_account v) (lock_keys q args)
      in (case store_exec q args v of
            Inl e \<Rightarrow> (Running rq log locks' (k (Inl e)), d)
          | Inr (n, _) \<Rightarrow> (Running rq (log @ [(q, args)]) locks' (k (Inr n)), d)))"
| "session_next d (Ended rq r) = (Ended rq r, d)"

section \<open>Interleaving\<close>

record conc =
  committed :: store_db
  sessions :: "session list"

text \<open>
  Any session whose locks are free makes its next step; at any time a running transaction may
  be aborted (a lost connection, a deadlock that the server breaks), a request may arrive, and
  the interceptor of some call may open an account.
\<close>

inductive conc_step :: "conc \<Rightarrow> conc \<Rightarrow> bool" where
  advance: "i < length (sessions c) \<Longrightarrow> granted (sessions c) i \<Longrightarrow>
    session_next (committed c) (sessions c ! i) = (s, d) \<Longrightarrow>
    conc_step c \<lparr>committed = d, sessions = (sessions c)[i := s]\<rparr>"
| abort: "i < length (sessions c) \<Longrightarrow> sessions c ! i = Running rq log locks p \<Longrightarrow>
    conc_step c (c\<lparr>sessions := (sessions c)[i := Ended rq (Some e)]\<rparr>)"
| arrive: "conc_step c (c\<lparr>sessions := sessions c @ [Fresh rq]\<rparr>)"
| account: "store_exec SqlEnsureBalance [AInt u, AUint32 StartBalance] (committed c) = Inr (n, d) \<Longrightarrow>
    conc_step c (c\<lparr>committed := d\<rparr>)"

inductive conc_reach :: "store_db \<Rightarrow> conc \<Rightarrow> bool" for d0 where
  reach_start: "conc_reach d0 \<lparr>committed = d0, sessions = []\<rparr>"
| reach_step: "conc_reach d0 c \<Longrightarrow> conc_step c c' \<Longrightarrow> conc_reach d0 c'"

inductive_cases conc_stepE: "conc_step c c'"

end
