(* ===== verification/Store_Concurrency_Facts.thy ===== *)
theory Store_Concurrency_Facts
  imports Store_Concurrency
begin

text \<open>
  Serializability of the interleaved sessions: the row locks keep what a session has read valid
  until it commits, so that each commit is the abstract purchase or transfer on the state it
  commits to. And what the locks do not give: two opposite transfers can wait for each other.
\<close>

section \<open>Running the statements of a purchase or a transfer\<close>

text \<open>A change that leaves the rows outside \<open>X\<close> alone and closes no account.\<close>

definition frame :: "int set \<Rightarrow> store_db \<Rightarrow> store_db \<Rightarrow> bool" where
  "frame X d d' \<longleftrightarrow> goods d' = goods d \<and>
     (\<forall>u v. map_of (balances d) u = Some v \<longrightarrow>
        (\<exists>v'. map_of (balances d') u = Some v' \<and> (u \<notin> X \<longrightarrow> v' = v)))"

lemma frame_refl [simp]: "frame X d d"
  by (simp add: frame_def)

lemma frame_row:
  "frame X d d' \<Longrightarrow> map_of (balances d) u = Some v \<Longrightarrow> u \<notin> X \<Longrightarrow> map_of (balances d') u = Some v"
  by (auto simp: frame_def)

lemma frame_account: "frame X d d' \<Longrightarrow> has_account d u \<Longrightarrow> has_account d' u"
  by (force simp: frame_def has_account_def)

lemma frame_good: "frame X d d' \<Longrightarrow> pg_good_is d' n g = pg_good_is d n g"
  by (simp add: frame_def pg_good_is_def find_good_def)

lemma frame_mono: "frame X d d' \<Longrightarrow> X \<subseteq> Y \<Longrightarrow> frame Y d d'"
  unfolding frame_def by (meson subsetD)

lemma update_frame:
  "map_of (balances d) u = Some v \<Longrightarrow> p v \<Longrightarrow>
   frame {u} d (d\<lparr>balances := update_rows u p f (balances d)\<rparr>)"
  by (auto simp: frame_def map_of_update_rows)

lemma purchase_replay:
  assumes wf: "wf_db d" and g: "pg_good_is d item good"
    and v: "map_of (balances d) (sint u) = Some v" "uint (gi_Price good) \<le> v"
    and log: "log = [(SqlPurchaseDebit, [AUint32 (gi_Price good), AInt u]),
      (SqlInsertPurchase, [AInt u, AInt (gi_Id good)])]"
  shows "bank_buy (sint u) item (bank_of d) = Inr (bank_of (replay log d))"
    "wf_db (replay log d)" "frame {sint u} d (replay log d)"
proof -
  obtain r where r: "find_good d item = Some r" "sint (gi_Id good) = good_id r"
    "uint (gi_Price good) = good_price r" using g by (auto simp: pg_good_is_def)
  have ranges: "int4_range (good_price r)" "int4_range (good_id r)" "int4_range (sint u)"
    "int4_range v" "0 \<le> v"
    using wf find_good_SomeD(1) [OF r(1)] wf_db_balance [OF wf v(1)] by (auto simp: wf_db_def)
  have pos: "0 \<le> good_price r" using r(3) uint_nonnegative [of "gi_Price good"] by simp
  define d1 where "d1 = d\<lparr>balances := update_rows (sint u) (\<lambda>_. True) (\<lambda>b. b - good_price r) (balances d)\<rparr>"
  define d2 where "d2 = d1\<lparr>purchases := purchases d1 @ [\<lparr>p_user = sint u, p_good = good_id r\<rparr>]\<rparr>"
  have s1: "sql_update_balance (sint u) (\<lambda>_. True) (\<lambda>b. b - good_price r) d = Inr (1, d1)"
    using v r(3) ranges pos by (simp add: sql_update_balance_eq [OF wf] d1_def int4_range_def)
  have "has_good d1 (good_id r)" "has_account d1 (sint u)"
    using find_good_SomeD(1) [OF r(1)] v(1) by (auto simp: d1_def has_good_def has_account_def map_of_update_rows)
  then have s2: "sql_insert_purchase (sint u) (good_id r) d1 = Inr (1, d2)"
    by (simp add: sql_insert_purchase_def d2_def)
  have rep: "replay log d = d2"
    using ranges r(2,3) s1 s2 by (simp add: log store_exec_cases)
  from purchase_refines [OF wf r(1) v(1) _ s1 s2] v(2) r(3) show
    "bank_buy (sint u) item (bank_of d) = Inr (bank_of (replay log d))" "wf_db (replay log d)"
    by (simp_all add: rep)
  show "frame {sint u} d (replay log d)"
    unfolding rep d2_def d1_def using update_frame [OF v(1), of "\<lambda>_. True"]
    by (simp add: frame_def)
qed

lemma transfer_replay:
  assumes wf: "wf_db d" and ne: "sint f \<noteq> sint t"
    and v: "map_of (balances d) (sint f) = Some v" "uint a \<le> v"
    and r: "map_of (balances d) (sint t) = Some r" "r + uint a \<le> coin_limit"
    and log: "log = [(SqlTransferDebit, [AUint32 a, AInt f]), (SqlTransferCredit, [AUint32 a, AInt t]),
      (SqlInsertTransaction, [AInt f, AInt t, AUint32 a])]"
  shows "bank_transfer (sint f) (sint t) (uint a) (bank_of d) = Inr (bank_of (replay log d))"
    "wf_db (replay log d)" "frame {sint f, sint t} d (replay log d)"
proof -
  have ranges: "int4_range (sint f)" "int4_range (sint t)" "int4_range v" "0 \<le> r" "int4_range r"
    using wf_db_balance [OF wf v(1)] wf_db_balance [OF wf r(1)] by auto
  have a: "0 \<le> uint a" "int4_range (uint a)"
    using v(2) ranges(3) uint_nonnegative [of a] unfolding int4_range_def by linarith+
  have v': "int4_range (v - uint a)" "0 \<le> v - uint a"
    using v(2) ranges(3) a(1) unfolding int4_range_def by linarith+
  have r': "int4_range (r + uint a)" "0 \<le> r + uint a"
    using r(2) ranges(4) a(1) unfolding int4_range_def coin_limit_def by linarith+
  define d1 where "d1 = d\<lparr>balances := update_rows (sint f) (\<lambda>b. uint a \<le> b) (\<lambda>b. b - uint a) (balances d)\<rparr>"
  define d2 where "d2 = d1\<lparr>balances := update_rows (sint t) (\<lambda>_. True) (\<lambda>b. b + uint a) (balances d1)\<rparr>"
  define d3 where "d3 = d2\<lparr>transactions := transactions d2 @
    [\<lparr>t_from = sint f, t_to = sint t, t_amount = uint a\<rparr>]\<rparr>"
  have s1: "sql_update_balance (sint f) (\<lambda>b. uint a \<le> b) (\<lambda>b. b - uint a) d = Inr (1, d1)"
    using v(2) v' by (simp add: sql_update_balance_eq [OF wf] d1_def v(1))
  have wf1: "wf_db d1" using wf s1 by (rule wf_db_update_balance)
  have r1: "map_of (balances d1) (sint t) = Some r"
    using r ne by (simp add: d1_def map_of_update_rows)
  have s2: "sql_update_balance (sint t) (\<lambda>_. True) (\<lambda>b. b + uint a) d1 = Inr (1, d2)"
    using r1 r' by (simp add: sql_update_balance_eq [OF wf1] d2_def)
  have "has_account d2 (sint f)" "has_account d2 (sint t)"
    using v(1) r(1) by (auto simp: d2_def d1_def has_account_def map_of_update_rows)
  then have s3: "sql_insert_transaction (sint f) (sint t) (uint a) d2 = Inr (1, d3)"
    by (simp add: sql_insert_transaction_def d3_def)
  have rep: "replay log d = d3"
    using ranges a s1 s2 s3 by (simp add: log store_exec_cases)
  from transfer_refines [OF wf ne a(2) s1 _ s2 s3] show
    "bank_transfer (sint f) (sint t) (uint a) (bank_of d) = Inr (bank_of (replay log d))"
    "wf_db (replay log d)" by (simp_all add: rep)
  show "frame {sint f, sint t} d (replay log d)"
    unfolding rep d3_def d2_def d1_def by (auto simp: frame_def map_of_update_rows)
qed

section \<open>The invariant\<close>

text \<open>What a session knows about the committed state, phase by phase of its program.\<close>

definition buy_inv :: "store_db \<Rightarrow> goint \<Rightarrow> string \<Rightarrow> (store_sql \<times> arg list) list \<Rightarrow> int list \<Rightarrow> prog \<Rightarrow> bool"
  where
  "buy_inv d u item log locks p \<longleftrightarrow>
     (\<exists>err. p = Stop (Some err)) \<or>
     (\<exists>good. pg_good_is d item good \<and>
       (p = buy_prog u good \<and> log = [] \<or>
        (\<exists>v. map_of (balances d) (sint u) = Some v \<and> uint (gi_Price good) \<le> v \<and> sint u \<in> set locks \<and>
          (p = buy_debit u good \<and> log = [] \<or>
           p = buy_insert u good \<and> log = [(SqlPurchaseDebit, [AUint32 (gi_Price good), AInt u])] \<or>
           p = Stop None \<and> log = [(SqlPurchaseDebit, [AUint32 (gi_Price good), AInt u]),
             (SqlInsertPurchase, [AInt u, AInt (gi_Id good)])]))))"

definition send_inv ::
  "store_db \<Rightarrow> goint \<Rightarrow> goint \<Rightarrow> uint32 \<Rightarrow> (store_sql \<times> arg list) list \<Rightarrow> int list \<Rightarrow> prog \<Rightarrow> bool" where
  "send_inv d f t a log locks p \<longleftrightarrow>
     (\<exists>err. p = Stop (Some err)) \<or>
     sint f \<noteq> sint t \<and> has_account d (sint t) \<and>
     (p = send_prog f t a \<and> log = [] \<and> locks = [] \<or>
      (\<exists>v. map_of (balances d) (sint f) = Some v \<and> uint a \<le> v \<and> sint f \<in> set locks \<and>
        (p = send_debit f t a \<and> log = [] \<or>
         p = send_credit f t a \<and> log = [(SqlTransferDebit, [AUint32 a, AInt f])] \<or>
         (\<exists>r. map_of (balances d) (sint t) = Some r \<and> r + uint a \<le> coin_limit \<and> sint t \<in> set locks \<and>
           (p = send_insert f t a \<and> log = [(SqlTransferDebit, [AUint32 a, AInt f]),
              (SqlTransferCredit, [AUint32 a, AInt t])] \<or>
            p = Stop None \<and> log = [(SqlTransferDebit, [AUint32 a, AInt f]),
              (SqlTransferCredit, [AUint32 a, AInt t]),
              (SqlInsertTransaction, [AInt f, AInt t, AUint32 a])])))))"

fun session_inv :: "store_db \<Rightarrow> session \<Rightarrow> bool" where
  "session_inv d (Running (BuyReq u item) log locks p) = buy_inv d u item log locks p"
| "session_inv d (Running (SendReq f t a) log locks p) = send_inv d f t a log locks p"
| "session_inv d _ = True"

definition conc_inv :: "conc \<Rightarrow> bool" where
  "conc_inv c \<longleftrightarrow> wf_db (committed c) \<and> (\<forall>s \<in> set (sessions c). session_inv (committed c) s) \<and>
     (\<forall>i j. i < length (sessions c) \<longrightarrow> j < length (sessions c) \<longrightarrow> i \<noteq> j \<longrightarrow>
        set (held_locks (sessions c ! i)) \<inter> set (held_locks (sessions c ! j)) = {})"

text \<open>What others do outside the locked rows does not disturb a session.\<close>

lemma session_inv_frame:
  assumes "session_inv d s" "frame X d d'" "set (held_locks s) \<inter> X = {}"
  shows "session_inv d' s"
proof (cases s)
  case (Running rq log locks p)
  have row: "map_of (balances d') u = Some v" if "map_of (balances d) u = Some v" "u \<in> set locks" for u v
    using frame_row [OF assms(2) that(1)] that(2) assms(3) Running by auto
  show ?thesis
  proof (cases rq)
    case (BuyReq u item)
    with Running assms(1) row show ?thesis
      by (simp add: buy_inv_def frame_good [OF assms(2)]) blast
  next
    case (SendReq f t a)
    with Running assms(1) row frame_account [OF assms(2)] show ?thesis
      by (simp add: send_inv_def) blast
  qed
qed simp_all

definition committed_op :: "request \<Rightarrow> store_db \<Rightarrow> store_db \<Rightarrow> bool" where
  "committed_op rq d d' =
     (case rq of
        BuyReq u item \<Rightarrow> bank_buy (sint u) item (bank_of d) = Inr (bank_of d')
      | SendReq f t a \<Rightarrow> bank_transfer (sint f) (sint t) (uint a) (bank_of d) = Inr (bank_of d'))"

text \<open>The rows read by a program, as its scans see them.\<close>

lemma locked_balance_row:
  assumes "wf_db d" "locked_balance u (query_row SqlLockBalance [AInt u] d) = Inr b"
  shows "map_of (balances d) (sint u) = Some (uint b)"
proof -
  have "int4_range (sint u)"
    using assms(2) by (auto simp: locked_balance_def query_row_def store_query_cases split: if_splits)
  moreover obtain v where v: "map_of (balances d) (sint u) = Some v"
    using assms calculation
    by (auto simp: locked_balance_def query_row_def store_query_cases sql_balance_rows_eq first_row_def
        split: option.splits)
  ultimately show ?thesis
    using assms wf_db_balance [OF assms(1) v]
    by (simp add: locked_balance_def query_row_def store_query_cases sql_balance_rows_eq first_row_def
        scan_uint32_int_cell) (auto simp: uint_uint32_of_int4)
qed

lemma good_of_row_is:
  assumes "wf_db d" "good_of_row item (query_row SqlFindGood [AString item] d) = Inr good"
  shows "pg_good_is d item good"
proof -
  obtain r where r: "find_good d item = Some r"
    using assms by (auto simp: good_of_row_def query_row_def store_query_cases sql_good_rows_eq
        first_row_def split: option.splits)
  have ranges: "int4_range (good_id r)" "int4_range (good_price r)"
    using assms(1) find_good_SomeD(1) [OF r] by (auto simp: wf_db_def)
  have "scan_uint32 (int_cell (good_price r)) = Inr (gi_Price good)"
    "gi_Id good = word_of_int (good_id r)" "gi_Name good = good_name r"
    using assms r by (auto simp: good_of_row_def query_row_def store_query_cases sql_good_rows_eq
        first_row_def split: sum.splits if_splits)
  moreover from this have "gi_Price good = word_of_int (good_price r)" "0 \<le> good_price r"
    using ranges by (auto simp: scan_uint32_int_cell_iff split: if_splits)
  ultimately show ?thesis using r ranges find_good_SomeD(2) [OF r]
    by (simp add: pg_good_is_def sint_goint_of_int4 uint_uint32_of_int4)
qed

section \<open>One step of one session\<close>

text \<open>Everything that the next action of a session does to the others and to the bank.\<close>

definition step_ok :: "store_db \<Rightarrow> session \<Rightarrow> session \<Rightarrow> store_db \<Rightarrow> bool" where
  "step_ok d s s' d' \<longleftrightarrow> wf_db d' \<and> session_inv d' s' \<and> frame (set (held_locks s)) d d' \<and>
     set (held_locks s') \<subseteq> set (held_locks s) \<union> set (wanted_locks s) \<and>
     (case (s, s') of
        (Running _ _ _ _, Ended rq None) \<Rightarrow> committed_op rq d d'
      | (Fresh (SendReq f t a), Running _ _ _ _) \<Rightarrow> bank_of d' = bank_open (sint t) (bank_of d)
      | _ \<Rightarrow> d' = d)"

lemma ensure_step:
  assumes wf: "wf_db d" and e: "store_exec SqlEnsureBalance [AInt t, AUint32 StartBalance] d = Inr (n, d')"
  shows "wf_db d'" "has_account d' (sint t)" "bank_of d' = bank_open (sint t) (bank_of d)"
    "frame {} d d'"
proof -
  have "uint StartBalance = 1000" by (simp add: StartBalance_def)
  with e have r: "int4_range (sint t)" and s: "sql_ensure_balance (sint t) 1000 d = Inr (n, d')"
    by (auto simp: store_exec_cases split: if_splits)
  show "wf_db d'" using wf r s by (rule wf_db_ensure)
  show "has_account d' (sint t)" using s by (rule has_account_ensure)
  show "bank_of d' = bank_open (sint t) (bank_of d)" using s by (rule bank_of_ensure)
  show "frame {} d d'" using s
    by (auto simp: sql_ensure_balance_start frame_def has_account_def map_add_def split: if_splits)
qed

lemma lock_keys_simps [simp]:
  "lock_keys SqlLockBalance [AInt u] = [sint u]"
  "lock_keys SqlPurchaseDebit [AUint32 a, AInt u] = [sint u]"
  "lock_keys SqlTransferDebit [AUint32 a, AInt u] = [sint u]"
  "lock_keys SqlTransferCredit [AUint32 a, AInt u] = [sint u]"
  "lock_keys SqlInsertPurchase [AInt u, AInt g] = [sint u]"
  "lock_keys SqlInsertTransaction [AInt f, AInt t, AUint32 a] = [sint f, sint t]"
  by (simp_all add: lock_keys_def)

text \<open>The next action of each program, with the row locks it takes.\<close>

abbreviation locking :: "int list \<Rightarrow> int \<Rightarrow> store_db \<Rightarrow> int list" where
  "locking locks u v \<equiv> locks @ filter (has_account v) [u]"

lemma next_programs:
  "session_next d (Running rq log locks (buy_prog u good)) =
     (Running rq log (locking locks (sint u) (replay log d))
       (case locked_balance u (query_row SqlLockBalance [AInt u] (replay log d)) of
          Inl err \<Rightarrow> Stop (Some (WrapError ''failed to lock and get user balance'' err))
        | Inr balance \<Rightarrow>
            if balance < gi_Price good
            then Stop (Some (StoreError (InsufficientBalanceError ''insufficient balance'')))
            else buy_debit u good), d)"
  "session_next d (Running rq log locks (send_prog f t a)) =
     (Running rq log (locking locks (sint f) (replay log d))
       (case locked_balance f (query_row SqlLockBalance [AInt f] (replay log d)) of
          Inl err \<Rightarrow> Stop (Some (WrapError
            (''failed to lock and get balance for user '' @ show_int (sint f)) err))
        | Inr balance \<Rightarrow>
            if balance < a
            then Stop (Some (StoreError (InsufficientBalanceError
                   (''user '' @ show_int (sint f) @ '' has insufficient balance''))))
            else send_debit f t a), d)"
  by (simp_all add: buy_prog_def send_prog_def Let_def)

lemma next_exec:
  assumes "session_next d (Running rq log locks (AskExec q args k)) = (s', d')"
  shows "d' = d \<and>
    (\<exists>e locks'. s' = Running rq log locks' (k (Inl e)) \<and> set locks' \<subseteq> set locks \<union> set (lock_keys q args) \<or>
     (\<exists>n v. store_exec q args (replay log d) = Inr (n, v) \<and>
       s' = Running rq (log @ [(q, args)])
         (locks @ filter (has_account (replay log d)) (lock_keys q args)) (k (Inr n))))"
  using assms by (auto simp: Let_def split: sum.splits)

lemma buy_inv_stopped [simp]: "buy_inv d u item log locks (Stop (Some e))"
  by (simp add: buy_inv_def)

lemma send_inv_stopped [simp]: "send_inv d f t a log locks (Stop (Some e))"
  by (simp add: send_inv_def)

lemma buy_inv_going:
  assumes "pg_good_is d item good" "map_of (balances d) (sint u) = Some v"
    "uint (gi_Price good) \<le> v" "sint u \<in> set locks"
  shows "buy_inv d u item [] locks (buy_debit u good)"
    "buy_inv d u item [(SqlPurchaseDebit, [AUint32 (gi_Price good), AInt u])] locks (buy_insert u good)"
    "buy_inv d u item [(SqlPurchaseDebit, [AUint32 (gi_Price good), AInt u]),
       (SqlInsertPurchase, [AInt u, AInt (gi_Id good)])] locks (Stop None)"
  using assms unfolding buy_inv_def by blast+

lemma buy_step:
  assumes wf: "wf_db d" and inv: "buy_inv d u item log locks p" and p: "\<nexists>r. p = Stop r"
    and n: "session_next d (Running (BuyReq u item) log locks p) = (s', d')"
  shows "step_ok d (Running (BuyReq u item) log locks p) s' d'"
proof -
  from inv p obtain good where g: "pg_good_is d item good" and
    c: "p = buy_prog u good \<and> log = [] \<or>
      (\<exists>v. map_of (balances d) (sint u) = Some v \<and> uint (gi_Price good) \<le> v \<and> sint u \<in> set locks \<and>
        (p = buy_debit u good \<and> log = [] \<or>
         p = buy_insert u good \<and> log = [(SqlPurchaseDebit, [AUint32 (gi_Price good), AInt u])]))"
    by (auto simp: buy_inv_def)
  have wants: "wanted_locks (Running rq lg ls (buy_prog u good)) = [sint u]"
    "wanted_locks (Running rq lg ls (buy_debit u good)) = [sint u]"
    "wanted_locks (Running rq lg ls (buy_insert u good)) = [sint u]" for rq lg ls
    by (simp_all add: buy_prog_def buy_debit_def buy_insert_def)
  from c consider "p = buy_prog u good" "log = []"
    | v where "map_of (balances d) (sint u) = Some v" "uint (gi_Price good) \<le> v" "sint u \<in> set locks"
        "p = buy_debit u good" "log = []"
    | v where "map_of (balances d) (sint u) = Some v" "uint (gi_Price good) \<le> v" "sint u \<in> set locks"
        "p = buy_insert u good" "log = [(SqlPurchaseDebit, [AUint32 (gi_Price good), AInt u])]"
    by blast
  then show ?thesis
  proof cases
    case 1
    show ?thesis
    proof (cases "locked_balance u (query_row SqlLockBalance [AInt u] d)")
      case (Inl e)
      with 1 n wf show ?thesis by (auto simp: next_programs step_ok_def wants split: if_splits)
    next
      case (Inr b)
      note v = locked_balance_row [OF wf Inr]
      have "\<not> uint b < uint (gi_Price good) \<Longrightarrow>
          buy_inv d u item [] (locks @ [sint u]) (buy_debit u good)"
        using buy_inv_going(1) [OF g v, of "locks @ [sint u]"] by simp
      with 1 n wf Inr v show ?thesis
        by (auto simp: next_programs step_ok_def wants has_account_def word_less_def)
    qed
  next
    case 2
    with next_exec [OF n [unfolded 2(4) buy_debit_def]] wf buy_inv_going(2) [OF g 2(1,2)] show ?thesis
      by (auto simp: step_ok_def wants split: if_splits)
  next
    case 3
    with next_exec [OF n [unfolded 3(4) buy_insert_def]] wf buy_inv_going(3) [OF g 3(1,2)] show ?thesis
      by (auto simp: step_ok_def wants split: if_splits)
  qed
qed

lemma send_inv_going:
  assumes "sint f \<noteq> sint t" "has_account d (sint t)" "map_of (balances d) (sint f) = Some v"
    "uint a \<le> v" "sint f \<in> set locks"
  shows "send_inv d f t a [] locks (send_debit f t a)"
    "send_inv d f t a [(SqlTransferDebit, [AUint32 a, AInt f])] locks (send_credit f t a)"
    "\<lbrakk>map_of (balances d) (sint t) = Some r; r + uint a \<le> coin_limit; sint t \<in> set locks\<rbrakk> \<Longrightarrow>
      send_inv d f t a [(SqlTransferDebit, [AUint32 a, AInt f]), (SqlTransferCredit, [AUint32 a, AInt t])]
        locks (send_insert f t a)"
    "\<lbrakk>map_of (balances d) (sint t) = Some r; r + uint a \<le> coin_limit; sint t \<in> set locks\<rbrakk> \<Longrightarrow>
      send_inv d f t a [(SqlTransferDebit, [AUint32 a, AInt f]), (SqlTransferCredit, [AUint32 a, AInt t]),
        (SqlInsertTransaction, [AInt f, AInt t, AUint32 a])] locks (Stop None)"
  using assms unfolding send_inv_def by blast+

text \<open>A credit that succeeds after the debit: the receiver's row and its limit.\<close>

lemma credit_after_debit:
  assumes wf: "wf_db d" and ne: "sint f \<noteq> sint t" and t: "has_account d (sint t)"
    and v: "map_of (balances d) (sint f) = Some v" "uint a \<le> v"
    and e: "store_exec SqlTransferCredit [AUint32 a, AInt t]
      (replay [(SqlTransferDebit, [AUint32 a, AInt f])] d) = Inr (n, d')"
  shows "\<exists>r. map_of (balances d) (sint t) = Some r \<and> r + uint a \<le> coin_limit"
    "has_account (replay [(SqlTransferDebit, [AUint32 a, AInt f])] d) (sint t)"
proof -
  let ?d1 = "replay [(SqlTransferDebit, [AUint32 a, AInt f])] d"
  obtain r where r: "map_of (balances d) (sint t) = Some r" using t by (auto simp: has_account_def)
  have d1: "wf_db ?d1 \<and> map_of (balances ?d1) (sint t) = Some r"
  proof (cases "store_exec SqlTransferDebit [AUint32 a, AInt f] d")
    case (Inl e)
    with wf r show ?thesis by simp
  next
    case (Inr x)
    obtain n d1 where x: "x = (n, d1)" by fastforce
    with Inr have s: "sql_update_balance (sint f) (\<lambda>b. uint a \<le> b) (\<lambda>b. b - uint a) d = Inr (n, d1)"
      by (auto simp: store_exec_cases split: if_splits)
    then have "map_of (balances d1) (sint t) = Some r"
      using r ne v by (auto simp: sql_update_balance_eq [OF wf] map_of_update_rows split: if_splits)
    with Inr x wf_db_update_balance [OF wf s] show ?thesis by simp
  qed
  from e have "sql_update_balance (sint t) (\<lambda>_. True) (\<lambda>b. b + uint a) ?d1 = Inr (n, d')"
    by (auto simp: store_exec_cases split: if_splits)
  with d1 have "int4_range (r + uint a)" by (auto simp: sql_update_balance_eq split: if_splits)
  with r show "\<exists>r. map_of (balances d) (sint t) = Some r \<and> r + uint a \<le> coin_limit"
    by (auto simp: int4_range_def coin_limit_def)
  show "has_account ?d1 (sint t)" using d1 by (simp add: has_account_def)
qed

lemma send_step:
  assumes wf: "wf_db d" and inv: "send_inv d f t a log locks p" and p: "\<nexists>r. p = Stop r"
    and n: "session_next d (Running (SendReq f t a) log locks p) = (s', d')"
  shows "step_ok d (Running (SendReq f t a) log locks p) s' d'"
proof -
  let ?debit = "(SqlTransferDebit, [AUint32 a, AInt f])"
  let ?credit = "(SqlTransferCredit, [AUint32 a, AInt t])"
  from inv p have ne: "sint f \<noteq> sint t" and t: "has_account d (sint t)" and
    c: "p = send_prog f t a \<and> log = [] \<and> locks = [] \<or>
      (\<exists>v. map_of (balances d) (sint f) = Some v \<and> uint a \<le> v \<and> sint f \<in> set locks \<and>
        (p = send_debit f t a \<and> log = [] \<or> p = send_credit f t a \<and> log = [?debit] \<or>
         (\<exists>r. map_of (balances d) (sint t) = Some r \<and> r + uint a \<le> coin_limit \<and> sint t \<in> set locks \<and>
           p = send_insert f t a \<and> log = [?debit, ?credit])))"
    by (auto simp: send_inv_def)
  have wants: "wanted_locks (Running rq lg ls (send_prog f t a)) = [sint f]"
    "wanted_locks (Running rq lg ls (send_debit f t a)) = [sint f]"
    "wanted_locks (Running rq lg ls (send_credit f t a)) = [sint t]"
    "wanted_locks (Running rq lg ls (send_insert f t a)) = [sint f, sint t]" for rq lg ls
    by (simp_all add: send_prog_def send_debit_def send_credit_def send_insert_def)
  from c consider "p = send_prog f t a" "log = []" "locks = []"
    | v where "map_of (balances d) (sint f) = Some v" "uint a \<le> v" "sint f \<in> set locks"
        "p = send_debit f t a" "log = []"
    | v where "map_of (balances d) (sint f) = Some v" "uint a \<le> v" "sint f \<in> set locks"
        "p = send_credit f t a" "log = [?debit]"
    | v r where "map_of (balances d) (sint f) = Some v" "uint a \<le> v" "sint f \<in> set locks"
        "map_of (balances d) (sint t) = Some r" "r + uint a \<le> coin_limit" "sint t \<in> set locks"
        "p = send_insert f t a" "log = [?debit, ?credit]"
    by blast
  then show ?thesis
  proof cases
    case 1
    show ?thesis
    proof (cases "locked_balance f (query_row SqlLockBalance [AInt f] d)")
      case (Inl e)
      with 1 n wf show ?thesis by (auto simp: next_programs step_ok_def wants split: if_splits)
    next
      case (Inr b)
      note v = locked_balance_row [OF wf Inr]
      have "\<not> uint b < uint a \<Longrightarrow> send_inv d f t a [] (locks @ [sint f]) (send_debit f t a)"
        using send_inv_going(1) [OF ne t v, of a "locks @ [sint f]"] by simp
      with 1 n wf Inr v show ?thesis
        by (auto simp: next_programs step_ok_def wants has_account_def word_less_def)
    qed
  next
    case 2
    with next_exec [OF n [unfolded 2(4) send_debit_def]] wf send_inv_going(2) [OF ne t 2(1,2)]
    show ?thesis by (auto simp: step_ok_def wants send_failed_def split: if_splits)
  next
    case 3
    have "send_inv d f t a [?debit, ?credit] (locking locks (sint t) (replay [?debit] d)) (send_insert f t a)"
      if "store_exec SqlTransferCredit [AUint32 a, AInt t] (replay [?debit] d) = Inr (m, x)" for m x
      using credit_after_debit [OF wf ne t 3(1,2) that] 3(3)
      by (auto intro: send_inv_going(3) [OF ne t 3(1,2)])
    with next_exec [OF n [unfolded 3(4) send_credit_def]] wf 3 show ?thesis
      by (auto simp: step_ok_def wants send_failed_def split: if_splits)
  next
    case 4
    with next_exec [OF n [unfolded 4(7) send_insert_def]] wf send_inv_going(4) [OF ne t 4(1,2)]
    show ?thesis by (auto simp: step_ok_def wants send_failed_def split: if_splits)
  qed
qed

lemma stopped_step:
  assumes wf: "wf_db d" and inv: "session_inv d (Running rq log locks (Stop r))"
    and n: "session_next d (Running rq log locks (Stop r)) = (s', d')"
  shows "step_ok d (Running rq log locks (Stop r)) s' d'"
proof (cases r)
  case (Some e)
  with wf n show ?thesis by (auto simp: step_ok_def)
next
  case None
  show ?thesis
  proof (cases rq)
    case (BuyReq u item)
    with None inv obtain good v where g: "pg_good_is d item good"
      and v: "map_of (balances d) (sint u) = Some v" "uint (gi_Price good) \<le> v" "sint u \<in> set locks"
      and log: "log = [(SqlPurchaseDebit, [AUint32 (gi_Price good), AInt u]),
        (SqlInsertPurchase, [AInt u, AInt (gi_Id good)])]"
      by (auto simp: buy_inv_def buy_prog_def buy_debit_def buy_insert_def)
    note rep = purchase_replay [OF wf g v(1,2) log]
    with None n BuyReq v(3) show ?thesis
      by (auto simp: step_ok_def committed_op_def intro: frame_mono)
  next
    case (SendReq f t a)
    with None inv obtain v r where ne: "sint f \<noteq> sint t"
      and v: "map_of (balances d) (sint f) = Some v" "uint a \<le> v" "sint f \<in> set locks"
      and r: "map_of (balances d) (sint t) = Some r" "r + uint a \<le> coin_limit" "sint t \<in> set locks"
      and log: "log = [(SqlTransferDebit, [AUint32 a, AInt f]), (SqlTransferCredit, [AUint32 a, AInt t]),
        (SqlInsertTransaction, [AInt f, AInt t, AUint32 a])]"
      by (auto simp: send_inv_def send_prog_def send_debit_def send_credit_def send_insert_def)
    note rep = transfer_replay [OF wf ne v(1,2) r(1,2) log]
    with None n SendReq v(3) r(3) show ?thesis
      by (auto simp: step_ok_def committed_op_def intro: frame_mono)
  qed
qed

lemma fresh_step:
  assumes wf: "wf_db d" and n: "session_next d (Fresh rq) = (s', d')"
  shows "step_ok d (Fresh rq) s' d'"
proof (cases rq)
  case (BuyReq u item)
  show ?thesis
  proof (cases "good_of_row item (query_row SqlFindGood [AString item] d)")
    case (Inl e)
    with BuyReq n wf show ?thesis by (auto simp: step_ok_def)
  next
    case (Inr good)
    have "buy_inv d u item [] [] (buy_prog u good)"
      using good_of_row_is [OF wf Inr] unfolding buy_inv_def by blast
    with Inr BuyReq n wf show ?thesis by (auto simp: step_ok_def)
  qed
next
  case (SendReq f t a)
  show ?thesis
  proof (cases "t = f \<or> (\<exists>e. store_exec SqlEnsureBalance [AInt t, AUint32 StartBalance] d = Inl e)")
    case True
    with SendReq n wf show ?thesis by (auto simp: step_ok_def split: if_splits)
  next
    case False
    then obtain m where e: "store_exec SqlEnsureBalance [AInt t, AUint32 StartBalance] d = Inr (m, d')"
      and s': "s' = Running (SendReq f t a) [] [] (send_prog f t a)" and ne: "t \<noteq> f"
      using SendReq n by (auto split: sum.splits)
    have "sint f \<noteq> sint t" using ne sint_goint_inject by blast
    then have "send_inv d' f t a [] [] (send_prog f t a)"
      using ensure_step(2) [OF wf e] unfolding send_inv_def by blast
    with ensure_step [OF wf e] SendReq s' show ?thesis by (auto simp: step_ok_def)
  qed
qed

lemma session_step:
  assumes wf: "wf_db d" and inv: "session_inv d s" and n: "session_next d s = (s', d')"
  shows "step_ok d s s' d'"
proof (cases s)
  case (Fresh rq)
  with fresh_step wf n show ?thesis by blast
next
  case (Ended rq r)
  with wf n show ?thesis by (auto simp: step_ok_def)
next
  case (Running rq log locks p)
  show ?thesis
  proof (cases "\<exists>r. p = Stop r")
    case True
    with Running stopped_step [OF wf] inv n show ?thesis by blast
  next
    case False
    with Running inv n buy_step [OF wf] send_step [OF wf] show ?thesis by (cases rq) auto
  qed
qed

section \<open>Steps of all sessions\<close>

lemma granted_disjoint:
  assumes "granted ss i" "j < length ss" "j \<noteq> i"
  shows "set (wanted_locks (ss ! i)) \<inter> set (held_locks (ss ! j)) = {}"
  using assms by (auto simp: granted_def list_all_iff)

lemma conc_inv_update:
  assumes inv: "conc_inv c" and i: "i < length (sessions c)"
    and wf: "wf_db d'" and s': "session_inv d' s'" and fr: "frame (set (held_locks (sessions c ! i))) (committed c) d'"
    and held: "\<And>j. j < length (sessions c) \<Longrightarrow> j \<noteq> i \<Longrightarrow>
      set (held_locks s') \<inter> set (held_locks (sessions c ! j)) = {}"
  shows "conc_inv \<lparr>committed = d', sessions = (sessions c)[i := s']\<rparr>"
proof -
  have dis: "set (held_locks (sessions c ! j)) \<inter> set (held_locks (sessions c ! k)) = {}"
    if "j < length (sessions c)" "k < length (sessions c)" "j \<noteq> k" for j k
    using inv that by (simp add: conc_inv_def)
  have "session_inv d' ((sessions c)[i := s'] ! j)" if "j < length (sessions c)" for j
  proof (cases "j = i")
    case True
    with s' i show ?thesis by simp
  next
    case False
    have "session_inv (committed c) (sessions c ! j)" using inv that by (simp add: conc_inv_def)
    from session_inv_frame [OF this fr dis [OF that i False]] False show ?thesis by simp
  qed
  then have "\<forall>s \<in> set ((sessions c)[i := s']). session_inv d' s"
    by (auto simp: in_set_conv_nth simp del: nth_list_update)
  moreover have "set (held_locks ((sessions c)[i := s'] ! j)) \<inter>
      set (held_locks ((sessions c)[i := s'] ! k)) = {}"
    if "j < length (sessions c)" "k < length (sessions c)" "j \<noteq> k" for j k
    using that i dis held [of j] held [of k] by (cases "j = i"; cases "k = i") auto
  ultimately show ?thesis using wf by (simp add: conc_inv_def)
qed

lemma advance_facts:
  assumes inv: "conc_inv c" and i: "i < length (sessions c)" and g: "granted (sessions c) i"
    and n: "session_next (committed c) (sessions c ! i) = (s', d')"
  shows "step_ok (committed c) (sessions c ! i) s' d'"
    "conc_inv \<lparr>committed = d', sessions = (sessions c)[i := s']\<rparr>"
proof -
  have "wf_db (committed c)" "session_inv (committed c) (sessions c ! i)"
    using inv i by (auto simp: conc_inv_def)
  from session_step [OF this n] show ok: "step_ok (committed c) (sessions c ! i) s' d'" .
  have "set (held_locks s') \<inter> set (held_locks (sessions c ! j)) = {}"
    if j: "j < length (sessions c)" "j \<noteq> i" for j
  proof -
    have "set (held_locks (sessions c ! i)) \<inter> set (held_locks (sessions c ! j)) = {}"
      using inv i j by (simp add: conc_inv_def)
    with granted_disjoint [OF g j] ok show ?thesis by (auto simp: step_ok_def)
  qed
  with ok show "conc_inv \<lparr>committed = d', sessions = (sessions c)[i := s']\<rparr>"
    by (intro conc_inv_update [OF inv i]) (simp_all add: step_ok_def)
qed

lemma step_ok_bank:
  assumes "step_ok d s s' d'"
  shows "bank_steps (bank_of d) (bank_of d')"
proof -
  have "bank_of d' = bank_of d \<or> (\<exists>u. bank_of d' = bank_open u (bank_of d)) \<or>
      (\<exists>rq. committed_op rq d d')"
    using assms by (auto simp: step_ok_def split: session.splits request.splits option.splits)
  moreover have "bank_step (bank_of d) (bank_of d')" if "committed_op rq d d'" for rq
    using that by (auto simp: committed_op_def split: request.splits
        intro: step_buy step_transfer [of "uint _"] uint_nonnegative)
  ultimately show ?thesis
    using steps_refl [of "bank_of d"] step_open bank_step_steps by metis
qed

lemma conc_step_inv:
  assumes "conc_step c c'" "conc_inv c"
  shows "conc_inv c' \<and> bank_steps (bank_of (committed c)) (bank_of (committed c'))"
  using assms(1)
proof cases
  case (advance i s d)
  note f = advance_facts [OF assms(2) advance(2-4)]
  with step_ok_bank [OF f(1)] advance(1) show ?thesis by simp
next
  case (abort i rq log locks p e)
  have "conc_inv \<lparr>committed = committed c, sessions = (sessions c)[i := Ended rq (Some e)]\<rparr>"
    using assms(2) by (intro conc_inv_update [OF assms(2) abort(2)]) (simp_all add: conc_inv_def)
  then show ?thesis unfolding abort(1) by (simp add: conc_inv_def steps_refl)
next
  case (arrive rq)
  have "conc_inv (c\<lparr>sessions := sessions c @ [Fresh rq]\<rparr>)"
    using assms(2) by (auto simp: conc_inv_def nth_append less_Suc_eq)
  with arrive show ?thesis by (simp add: steps_refl)
next
  case (account u n d)
  have wf: "wf_db (committed c)" using assms(2) by (simp add: conc_inv_def)
  note e = ensure_step [OF wf account(2)]
  have "conc_inv (c\<lparr>committed := d\<rparr>)"
    using assms(2) e(1) session_inv_frame [OF _ e(4)] by (auto simp: conc_inv_def)
  moreover have "bank_steps (bank_of (committed c)) (bank_of d)"
    unfolding e(3) by (rule bank_step_steps) (rule step_open)
  ultimately show ?thesis using account(1) by simp
qed

lemma conc_reach_inv:
  assumes "conc_reach d0 c" "wf_db d0"
  shows "conc_inv c \<and> bank_steps (bank_of d0) (bank_of (committed c))"
  using assms
proof (induction rule: conc_reach.induct)
  case reach_start
  then show ?case by (simp add: conc_inv_def steps_refl)
next
  case (reach_step c c')
  with conc_step_inv [of c c'] show ?case by (auto intro: bank_steps_trans)
qed

section \<open>Serial runs\<close>
















section \<open>Waiting\<close>

lemma locked_balance_of:
  assumes "wf_db d" "map_of (balances d) (sint u) = Some v"
  shows "locked_balance u (query_row SqlLockBalance [AInt u] d) = Inr (word_of_int v)"
  using assms wf_db_balance [OF assms]
  by (simp add: locked_balance_def query_row_def store_query_cases sql_balance_rows_eq first_row_def
      scan_uint32_int_cell)

text \<open>The first three actions of a transfer whose sender can pay and whose receiver is known.\<close>

lemma transfer_actions:
  assumes wf: "wf_db d" and ne: "f \<noteq> t" and v: "map_of (balances d) (sint f) = Some v" "uint a \<le> v"
    and t: "map_of (balances d) (sint t) = Some w"
  shows "session_next d (Fresh (SendReq f t a)) = (Running (SendReq f t a) [] [] (send_prog f t a), d)"
    "session_next d (Running rq [] [] (send_prog f t a)) = (Running rq [] [sint f] (send_debit f t a), d)"
    "session_next d (Running rq [] locks (send_debit f t a)) =
       (Running rq [(SqlTransferDebit, [AUint32 a, AInt f])] (locks @ [sint f]) (send_credit f t a), d)"
proof -
  have acc: "has_account d (sint f)" "int4_range (sint t)" "has_account d (sint t)"
    using v(1) t wf_db_balance [OF wf t] by (auto simp: has_account_def)
  have r: "int4_range (sint f)" "0 \<le> v" "int4_range v" using wf_db_balance [OF wf v(1)] by auto
  have a: "int4_range (uint a)" "int4_range (v - uint a)" "0 \<le> v - uint a"
    using v(2) r uint_nonnegative [of a] unfolding int4_range_def by linarith+
  show "session_next d (Fresh (SendReq f t a)) = (Running (SendReq f t a) [] [] (send_prog f t a), d)"
    using ne acc(2,3) by (simp add: store_exec_cases sql_ensure_balance_def StartBalance_def int4_range_def)
  have "\<not> word_of_int v < a" using v(2) r by (simp add: word_less_def uint_uint32_of_int4)
  with acc(1) show "session_next d (Running rq [] [] (send_prog f t a)) = (Running rq [] [sint f] (send_debit f t a), d)"
    by (simp add: next_programs locked_balance_of [OF wf v(1)])
  show "session_next d (Running rq [] locks (send_debit f t a)) =
       (Running rq [(SqlTransferDebit, [AUint32 a, AInt f])] (locks @ [sint f]) (send_credit f t a), d)"
    using r(1) a v acc(1)
    by (simp add: send_debit_def Let_def store_exec_cases sql_update_balance_eq [OF wf])
qed

lemma two_sessions:
  "granted [x, y] 0 \<longleftrightarrow> set (wanted_locks x) \<inter> set (held_locks y) = {}"
  "granted [x, y] (Suc 0) \<longleftrightarrow> set (wanted_locks y) \<inter> set (held_locks x) = {}"
  by (auto simp: granted_def list_all_iff)

lemma advance_first:
  assumes "conc_reach d0 \<lparr>committed = d, sessions = [x, y]\<rparr>"
    and "set (wanted_locks x) \<inter> set (held_locks y) = {}" "session_next d x = (x', d)"
  shows "conc_reach d0 \<lparr>committed = d, sessions = [x', y]\<rparr>"
  using reach_step [OF assms(1) advance [of 0 _ x' d]] assms(2,3) by (simp add: two_sessions)

lemma advance_second:
  assumes "conc_reach d0 \<lparr>committed = d, sessions = [x, y]\<rparr>"
    and "set (wanted_locks y) \<inter> set (held_locks x) = {}" "session_next d y = (y', d)"
  shows "conc_reach d0 \<lparr>committed = d, sessions = [x, y']\<rparr>"
  using reach_step [OF assms(1) advance [of 1 _ y' d]] assms(2,3) by (simp add: two_sessions)

lemma wants:
  "wanted_locks (Running rq log locks (send_prog f t a)) = [sint f]"
  "wanted_locks (Running rq log locks (send_debit f t a)) = [sint f]"
  "wanted_locks (Running rq log locks (send_credit f t a)) = [sint t]"
  by (simp_all add: send_prog_def send_debit_def send_credit_def)

text \<open>The rows that a session locks are those of its request.\<close>

fun request_rows :: "request \<Rightarrow> int set" where
  "request_rows (BuyReq u item) = {sint u}"
| "request_rows (SendReq f t a) = {sint f, sint t}"

fun own_rows :: "session \<Rightarrow> bool" where
  "own_rows (Running rq log locks p) = (set locks \<subseteq> request_rows rq)"
| "own_rows _ = True"

lemma inv_wants:
  assumes "session_inv d (Running rq log locks p)"
  shows "set (wanted_locks (Running rq log locks p)) \<subseteq> request_rows rq"
proof (cases rq)
  case (BuyReq u item)
  with assms show ?thesis by (auto simp: buy_inv_def buy_prog_def buy_debit_def buy_insert_def)
next
  case (SendReq f t a)
  with assms show ?thesis
    by (auto simp: send_inv_def send_prog_def send_debit_def send_credit_def send_insert_def)
qed

lemma next_request:
  "session_next d (Running rq log locks p) = (Running rq' log' locks' p', d') \<Longrightarrow> rq' = rq"
  by (cases p) (auto simp: Let_def split: sum.splits option.splits elim: session_next.elims)

lemma next_own_rows:
  assumes "wf_db d" "session_inv d s" "own_rows s" "session_next d s = (s', d')"
  shows "own_rows s'"
proof -
  have held: "set (held_locks s') \<subseteq> set (held_locks s) \<union> set (wanted_locks s)"
    using session_step [OF assms(1,2,4)] by (simp add: step_ok_def)
  show ?thesis
  proof (cases s')
    case (Running rq log locks p)
    show ?thesis
    proof (cases s)
      case fresh: (Fresh rq0)
      with held Running show ?thesis by simp
    next
      case run: (Running rq0 log0 locks0 p0)
      with assms(4) Running have "rq = rq0" using next_request by metis
      with held run Running assms(2,3) inv_wants show ?thesis by fastforce
    next
      case (Ended rq0 r)
      with assms(4) Running show ?thesis by simp
    qed
  qed simp_all
qed

lemma conc_step_own_rows:
  assumes "conc_step c c'" "conc_inv c" "list_all own_rows (sessions c)"
  shows "list_all own_rows (sessions c')"
  using assms(1)
proof cases
  case (advance i s d)
  have "own_rows s"
    using next_own_rows [OF _ _ _ advance(4)] assms(2,3) advance(2)
    by (simp add: conc_inv_def list_all_length)
  with advance(1,2) assms(3) show ?thesis by (simp add: list_all_length nth_list_update)
next
  case (abort i rq log locks p e)
  with assms(3) show ?thesis by (simp add: list_all_length nth_list_update)
qed (use assms(3) in \<open>auto simp: list_all_iff\<close>)

lemma conc_reach_own_rows:
  assumes "conc_reach d0 c" "wf_db d0"
  shows "list_all own_rows (sessions c)"
  using assms
proof (induction rule: conc_reach.induct)
  case (reach_step c c')
  with conc_step_own_rows [of c c'] conc_reach_inv [of d0 c] show ?case by blast
qed simp

lemma holder_granted:
  assumes r: "conc_reach d0 c" "wf_db d0" and i: "i < length (sessions c)"
    and s: "sessions c ! i = Running (BuyReq u item) log locks p" and l: "locks \<noteq> []"
  shows "granted (sessions c) i"
proof -
  have inv: "conc_inv c" using conc_reach_inv [OF r] ..
  then have "session_inv (committed c) (sessions c ! i)" using i by (simp add: conc_inv_def)
  with s have w: "set (wanted_locks (sessions c ! i)) \<subseteq> {sint u}"
    using inv_wants [of "committed c" "BuyReq u item"] by simp
  have "own_rows (sessions c ! i)" using conc_reach_own_rows [OF r] i by (simp add: list_all_length)
  with s l have "sint u \<in> set (held_locks (sessions c ! i))" by (cases locks) auto
  with inv i have "sint u \<notin> set (held_locks (sessions c ! j))" if "j < length (sessions c)" "j \<noteq> i" for j
    using that unfolding conc_inv_def by blast
  with w show ?thesis by (auto simp: granted_def list_all_iff)
qed

text \<open>A run for the examples: user 1 buys a cup, statement by statement.\<close>

definition cup :: GoodInfo where
  "cup = \<lparr>gi_Id = 2, gi_Name = ''cup'', gi_Price = 20\<rparr>"

definition cup_paid :: session where
  "cup_paid = Running (BuyReq 1 ''cup'')
     [(SqlPurchaseDebit, [AUint32 20, AInt 1]), (SqlInsertPurchase, [AInt 1, AInt 2])] [1, 1, 1] (Stop None)"

lemma advance_only:
  assumes "conc_reach d0 \<lparr>committed = d, sessions = [x]\<rparr>" "session_next d x = (x', d)"
  shows "conc_reach d0 \<lparr>committed = d, sessions = [x']\<rparr>"
  using reach_step [OF assms(1) advance [of 0 _ x' d]] assms(2) by (simp add: granted_def)

lemma cup_actions:
  "session_next demo_db (Fresh (BuyReq 1 ''cup'')) = (Running (BuyReq 1 ''cup'') [] [] (buy_prog 1 cup), demo_db)"
  "session_next demo_db (Running rq [] [] (buy_prog 1 cup)) = (Running rq [] [1] (buy_debit 1 cup), demo_db)"
  "session_next demo_db (Running rq [] [1] (buy_debit 1 cup)) =
     (Running rq [(SqlPurchaseDebit, [AUint32 20, AInt 1])] [1, 1] (buy_insert 1 cup), demo_db)"
  "session_next demo_db (Running rq [(SqlPurchaseDebit, [AUint32 20, AInt 1])] [1, 1] (buy_insert 1 cup)) =
     (Running rq [(SqlPurchaseDebit, [AUint32 20, AInt 1]), (SqlInsertPurchase, [AInt 1, AInt 2])]
       [1, 1, 1] (Stop None), demo_db)"
  by (simp_all add: run_defs prog_defs query_row_def good_of_row_def locked_balance_def cup_def Let_def)

lemma cup_run: "conc_reach demo_db \<lparr>committed = demo_db, sessions = [cup_paid]\<rparr>"
proof -
  have "conc_reach demo_db \<lparr>committed = demo_db, sessions = [Fresh (BuyReq 1 ''cup'')]\<rparr>"
    using reach_step [OF reach_start arrive [of _ "BuyReq 1 ''cup''"]] by simp
  from advance_only [OF advance_only [OF advance_only [OF advance_only [OF this cup_actions(1)]
      cup_actions(2)] cup_actions(3)] cup_actions(4)]
  show ?thesis by (simp add: cup_paid_def)
qed

definition cup_bought :: conc where
  "cup_bought = \<lparr>committed = replay [(SqlPurchaseDebit, [AUint32 20, AInt 1]),
     (SqlInsertPurchase, [AInt 1, AInt 2])] demo_db, sessions = [Ended (BuyReq 1 ''cup'') None]\<rparr>"


lemma cup_granted: "granted [cup_paid] 0"
  by (simp add: granted_def)

lemma cup_committed: "conc_reach demo_db cup_bought"
  using reach_step [OF cup_run advance [of 0 _ "Ended (BuyReq 1 ''cup'') None" "committed cup_bought"]]
    cup_granted by (simp add: cup_bought_def cup_paid_def)

text \<open>Two opposite transfers, each with its sender's row updated.\<close>

definition crossed :: "goint \<Rightarrow> goint \<Rightarrow> uint32 \<Rightarrow> uint32 \<Rightarrow> session list" where
  "crossed f t a b =
     [Running (SendReq f t a) [(SqlTransferDebit, [AUint32 a, AInt f])] [sint f, sint f] (send_credit f t a),
      Running (SendReq t f b) [(SqlTransferDebit, [AUint32 b, AInt t])] [sint t, sint t] (send_credit t f b)]"

lemma crossed_reach:
  assumes "wf_db d" "f \<noteq> t"
    and "map_of (balances d) (sint f) = Some v" "uint a \<le> v"
    and "map_of (balances d) (sint t) = Some w" "uint b \<le> w"
  shows "conc_reach d \<lparr>committed = d, sessions = crossed f t a b\<rparr>"
proof -
  have ne: "sint f \<noteq> sint t" "t \<noteq> f" using assms(2) sint_goint_inject by blast+
  note x = transfer_actions [OF assms(1-4) assms(5)]
  note y = transfer_actions [OF assms(1) ne(2) assms(5,6,3)]
  note x3 = x(3) [where locks = "[sint f]", simplified append.simps]
  note y3 = y(3) [where locks = "[sint t]", simplified append.simps]
  let ?x = "SendReq f t a" and ?y = "SendReq t f b"
  have "conc_reach d \<lparr>committed = d, sessions = [Fresh ?x, Fresh ?y]\<rparr>"
    using reach_step [OF reach_step [OF reach_start arrive [of _ ?x]] arrive [of _ ?y]] by simp
  note r1 = advance_first [OF this _ x(1)]
  have "conc_reach d \<lparr>committed = d, sessions = [Running ?x [] [] (send_prog f t a),
      Running ?y [] [] (send_prog t f b)]\<rparr>"
    by (rule advance_second [OF r1 _ y(1)]) simp_all
  note r2 = advance_first [OF this _ x(2)]
  have "conc_reach d \<lparr>committed = d, sessions = [Running ?x [] [sint f] (send_debit f t a),
      Running ?y [] [sint t] (send_debit t f b)]\<rparr>"
    by (rule advance_second [OF r2 _ y(2)]) (use ne in \<open>simp_all add: wants\<close>)
  note r3 = advance_first [OF this _ x3]
  show ?thesis unfolding crossed_def
    by (rule advance_second [OF r3 _ y3]) (use ne in \<open>simp_all add: wants\<close>)
qed

section \<open>Properties\<close>



text \<open>
  C4. A commit is the request, done at once. When a transaction commits, the effect on the
  database of that moment is exactly the abstract purchase or transfer that was asked for: the
  balance that the transaction read and checked before, statement by statement between those
  of others, is still the one it pays from.
\<close>

theorem concurrent_commit_atomic:
  assumes "conc_reach d0 c" "wf_db d0"
    and "i < length (sessions c)" "granted (sessions c) i"
    and "sessions c ! i = Running rq log locks p"
    and "session_next (committed c) (sessions c ! i) = (Ended rq None, d')"
  shows "case rq of
      BuyReq u item \<Rightarrow> bank_buy (sint u) item (bank_of (committed c)) = Inr (bank_of d')
    | SendReq f t a \<Rightarrow>
        bank_transfer (sint f) (sint t) (uint a) (bank_of (committed c)) = Inr (bank_of d')"
proof -
  have "conc_inv c" using conc_reach_inv [OF assms(1,2)] ..
  from advance_facts(1) [OF this assms(3,4,6)] assms(5) show ?thesis
    by (simp add: step_ok_def committed_op_def)
qed

theorem concurrent_commit_atomic_witness:
  "bank_buy 1 ''cup'' (bank_of demo_db) = Inr (bank_of (committed cup_bought))"
  using concurrent_commit_atomic [OF cup_run wf_demo_db, of 0 "BuyReq 1 ''cup''"
      "[(SqlPurchaseDebit, [AUint32 20, AInt 1]), (SqlInsertPurchase, [AInt 1, AInt 2])]" "[1, 1, 1]"
      "Stop None" "committed cup_bought"] cup_granted
  by (simp add: cup_paid_def cup_bought_def)

text \<open>
  C35. Opposite transfers can wait for each other for ever. In any well-formed database in which
  two users can pay each other, the two transfers reach a state in which neither can take its next
  step: each has updated its sender's row and needs the row that the other holds. (The code takes
  the sender's lock first and the receiver's second, whoever they are; only the server's
  deadlock detection, an abort, ends this state.)
\<close>

theorem transfers_can_deadlock:
  assumes "wf_db d" "f \<noteq> t"
    and "map_of (balances d) (sint f) = Some v" "uint a \<le> v"
    and "map_of (balances d) (sint t) = Some w" "uint b \<le> w"
  shows "\<exists>c. conc_reach d c \<and> committed c = d \<and>
    (\<exists>x y. sessions c = [x, y] \<and>
       (\<exists>log locks. x = Running (SendReq f t a) log locks (send_credit f t a)) \<and>
       (\<exists>log locks. y = Running (SendReq t f b) log locks (send_credit t f b)) \<and>
       \<not> granted [x, y] 0 \<and> \<not> granted [x, y] 1)"
  using crossed_reach [OF assms] sint_goint_inject assms(2)
  by (intro exI [of _ "\<lparr>committed = d, sessions = crossed f t a b\<rparr>"]) (auto simp: crossed_def two_sessions wants)

theorem transfers_can_deadlock_witness:
  "\<exists>c. conc_reach demo_db c \<and> committed c = demo_db \<and>
    (\<exists>x y. sessions c = [x, y] \<and>
       (\<exists>log locks. x = Running (SendReq 1 2 100) log locks (send_credit 1 2 100)) \<and>
       (\<exists>log locks. y = Running (SendReq 2 1 30) log locks (send_credit 2 1 30)) \<and>
       \<not> granted [x, y] 0 \<and> \<not> granted [x, y] 1)"
  by (rule transfers_can_deadlock [of demo_db 1 2 1000 100 1000 30])
    (rule wf_demo_db, simp_all add: demo_db_def)

end
