(* ===== verification/Store_Info_Commits.thy ===== *)
theory Store_Info_Commits
  imports Store_Info_Service Store_Concurrency_Facts "HOL-Library.Sublist"
begin

text \<open>
  The user info use case while other transactions commit. \<open>GetUserInfo\<close> reads in four requests
  that belong to no transaction, so each of them sees the database that is committed at its
  moment. A busy connection is the one of \<open>Pg_Driver\<close> on which every request finds the next of
  a list of coming databases; \<open>snapshots\<close> are the lists that the interleavings of
  \<open>Store_Concurrency\<close> produce.
\<close>

section \<open>A busy connection\<close>

record ('d, 'r) busy_node = "('d, 'r) node" +
  coming :: "'d list"

definition tick :: "('d, 'r) busy_node \<Rightarrow> ('d, 'r) busy_node" where
  "tick w = (case coming w of [] \<Rightarrow> w | d # ds \<Rightarrow> w\<lparr>durable := d, coming := ds\<rparr>)"

definition busy_pool :: "('q, 'd) sql \<Rightarrow> ('q, ('d, 'r) busy_node) QueryExecuter" where
  "busy_pool S =
     \<lparr>QueryRow = (\<lambda>ctx q args w. pool_QueryRow S ctx q args (tick w)),
      Query = (\<lambda>ctx q args w. pool_Query S ctx q args (tick w)),
      RowsClose = (\<lambda>rows w. w),
      Exec = (\<lambda>ctx q args w. pool_Exec S ctx q args (tick w))\<rparr>"

lemma busy_pool_simps [simp]:
  "QueryRow (busy_pool S) ctx q args w = pool_QueryRow S ctx q args (tick w)"
  "Query (busy_pool S) ctx q args w = pool_Query S ctx q args (tick w)"
  "RowsClose (busy_pool S) rows w = w"
  by (simp_all add: busy_pool_def)

lemma processRows_busy [simp]:
  "processRows (busy_pool S) rows target w = (processed_rows rows target, w)"
  by (rule processRows_idle) simp

type_synonym 'r busy_store = "(store_db, 'r) busy_node"

abbreviation busy_info :: "'r busy_store PgUserInfoRepository" where
  "busy_info \<equiv> NewUserInfoRepository (busy_pool store_sem) StdoutLogger"

text \<open>The wiring of \<open>StoreApp.Run\<close> on a busy connection.\<close>

definition busy_userInfoCase ::
  "((int32 \<times> string) list \<Rightarrow> (int32 \<times> string) list) \<Rightarrow> 'r AuthServiceClient \<Rightarrow>
   'r busy_store UserInfoCase" where
  "busy_userInfoCase visit client =
     NewUserInfoCase (PgUserInfoRepository_UserInfoRepository busy_info)
       (AuthAdapter_UsernameGetter visit (NewAuthAdapter (remote_AuthServiceClient client)))
       StdoutLogger"

lemma tick_simps [simp]:
  "remote (tick w) = remote w" "faults (tick w) = faults w" "calm (tick w) = calm w"
  by (simp_all add: tick_def calm_def split: list.split)

lemma busy_fetches:
  "UserInfoRepository_FetchUserBalance busy_info ctx u w =
     UserInfoRepository_FetchUserBalance store_info ctx u (tick w)"
  "UserInfoRepository_FetchUserPurchases busy_info ctx u w =
     UserInfoRepository_FetchUserPurchases store_info ctx u (tick w)"
  by (simp_all add: info_repository_defs split: prod.split sum.split)

section \<open>The repository on a busy connection\<close>

text \<open>Whatever a request sees, now or later, is a state of \<open>D\<close>.\<close>

definition busy_in ::
  "store_db set \<Rightarrow> ('r \<Rightarrow> int \<Rightarrow> string) \<Rightarrow> (int \<Rightarrow> string) \<Rightarrow> 'r busy_store \<Rightarrow> bool" where
  "busy_in D nm name w \<longleftrightarrow> reads_in D nm name w \<and> set (coming w) \<subseteq> D"

lemma busy_in_tick: "busy_in D nm name w \<Longrightarrow> busy_in D nm name (tick w)"
  by (auto simp: busy_in_def reads_in_def tick_def split: list.split)

lemma busy_in_reads: "busy_in D nm name w \<Longrightarrow> reads_in D nm name w"
  by (simp add: busy_in_def)

lemma pool_coming:
  fixes w :: "'r busy_store"
  shows "pool_QueryRow store_sem ctx q args w = (r, w') \<Longrightarrow> coming w' = coming w"
    and "pool_Query store_sem ctx q args w = (rs, w') \<Longrightarrow> coming w' = coming w"
  by (auto simp: pool_QueryRow_def pool_Query_def next_outcome_def
      split: if_splits list.splits outcome.splits sum.splits)

lemma pool_busy_in:
  fixes w :: "'r busy_store"
  assumes "busy_in D nm name w"
  shows "pool_QueryRow store_sem ctx q args w = (r, w') \<Longrightarrow> busy_in D nm name w'"
    and "pool_Query store_sem ctx q args w = (rs, w') \<Longrightarrow> busy_in D nm name w'"
  using assms reads_in_keeps [of D nm name w w']
  by (auto simp only: busy_in_def pool_coming intro: pool_keeps)

lemma busy_balance_keeps:
  assumes "busy_in D nm name w" "UserInfoRepository_FetchUserBalance busy_info ctx u w = (r, w')"
  shows "busy_in D nm name w'"
proof -
  obtain row w1 where q: "pool_QueryRow store_sem ctx SqlSelectBalance [AInt u] (tick w) = (row, w1)"
    by fastforce
  with assms(2) have "w' = w1" by (auto simp: info_repository_defs split: sum.splits if_splits)
  with pool_busy_in(1) [OF busy_in_tick [OF assms(1)] q] show ?thesis by simp
qed

lemma busy_purchases_keeps:
  assumes "busy_in D nm name w" "UserInfoRepository_FetchUserPurchases busy_info ctx u w = (r, w')"
  shows "busy_in D nm name w'"
proof -
  obtain rows w1 where q: "pool_Query store_sem ctx SqlPurchaseCounts [AInt u] (tick w) = (rows, w1)"
    by fastforce
  with assms(2) have "w' = w1" by (auto simp: info_repository_defs split: sum.splits)
  with pool_busy_in(2) [OF busy_in_tick [OF assms(1)] q] show ?thesis by simp
qed

lemma busy_transfers_keeps:
  assumes "busy_in D nm name w" "UserInfoRepository_FetchUserCoinTransfers busy_info ctx u w = (r, w')"
  shows "busy_in D nm name w'"
proof -
  obtain outs w1 where q1: "pool_Query store_sem ctx SqlOutcoming [AInt u] (tick w) = (outs, w1)"
    by fastforce
  obtain ins w2 where q2: "pool_Query store_sem ctx SqlIncoming [AInt u] (tick w1) = (ins, w2)"
    by fastforce
  from assms(2) q1 q2 have "w' = w1 \<or> w' = w2"
    by (cases outs; cases ins) (auto simp: info_repository_defs split: sum.splits)
  moreover have "busy_in D nm name w1" by (rule pool_busy_in(2) [OF busy_in_tick [OF assms(1)] q1])
  ultimately show ?thesis using pool_busy_in(2) [OF busy_in_tick q2] by blast
qed

lemma busy_transfers_in:
  assumes w: "busy_in D nm name w"
    and r: "UserInfoRepository_FetchUserCoinTransfers busy_info ctx u w = (Inr h, w')"
  shows "history_in D (sint u) (raw_pairs (th_IncomingTransfers h)) (raw_pairs (th_OutcomingTransfers h))"
proof -
  from r obtain outs ins w1 where
      q1: "pool_Query store_sem ctx SqlOutcoming [AInt u] (tick w) = (Inr outs, w1)"
      and q2: "pool_Query store_sem ctx SqlIncoming [AInt u] (tick w1) = (Inr ins, w')"
      and p: "processed_rows outs tr_toUserID = Inr (th_OutcomingTransfers h)"
        "processed_rows ins tr_fromUserID = Inr (th_IncomingTransfers h)"
    by (auto elim!: FetchUserCoinTransfers_Inr simp: NewUserInfoRepository_def)
  note s = reads_in_state [OF busy_in_reads [OF busy_in_tick [OF w]]]
    reads_in_state [OF busy_in_reads [OF busy_in_tick [OF pool_busy_in(2) [OF busy_in_tick [OF w] q1]]]]
  from s outcoming_found [OF _ _ q1 p(1)] incoming_found [OF _ _ q2 p(2)] show ?thesis
    by (auto simp: history_in_def)
qed

interpretation busy_repo: user_info_repository "busy_in D nm name" "balance_in D" "goods_in D"
    "history_in D" "PgUserInfoRepository_UserInfoRepository busy_info"
  for D and nm :: "'r \<Rightarrow> int \<Rightarrow> string" and name
proof unfold_locales
  fix ctx u v and w w' :: "'r busy_store"
  assume "busy_in D nm name w"
    "FetchUserBalance (PgUserInfoRepository_UserInfoRepository busy_info) ctx u w = (Inr v, w')"
  then show "balance_in D (sint u) (uint v)"
    using FetchUserBalance_in [OF busy_in_reads [OF busy_in_tick]]
    by (simp add: PgUserInfoRepository_UserInfoRepository_def busy_fetches)
next
  fix ctx u p and w w' :: "'r busy_store"
  assume "busy_in D nm name w"
    "FetchUserPurchases (PgUserInfoRepository_UserInfoRepository busy_info) ctx u w = (Inr p, w')"
  then show "goods_in D (sint u) p"
    using FetchUserPurchases_in [OF busy_in_reads [OF busy_in_tick]]
    by (simp add: PgUserInfoRepository_UserInfoRepository_def busy_fetches)
qed (auto simp: PgUserInfoRepository_UserInfoRepository_def
    dest: busy_balance_keeps busy_purchases_keeps busy_transfers_keeps busy_transfers_in
    intro: history_in_ids)

sublocale auth_directory \<subseteq> busy_names: username_getter
    "busy_in D nm name :: 'r busy_store \<Rightarrow> bool" name "AuthAdapter_UsernameGetter visit name_adapter"
  for D name
  by (rule name_getter) (simp_all add: busy_in_def reads_in_def)

sublocale info_directory \<subseteq> busy: user_info_ports
    "busy_in D nm name :: 'r busy_store \<Rightarrow> bool" "balance_in D" "goods_in D" "history_in D"
    "PgUserInfoRepository_UserInfoRepository busy_info" name
    "AuthAdapter_UsernameGetter visit name_adapter" rng StdoutLogger
  for D name
  by unfold_locales (rule rng)

text \<open>Healthy connections answer, however much is committed in between.\<close>

sublocale info_directory_up \<subseteq> busy_healthy: healthy_user_info
    "busy_in D nm name :: 'r busy_store \<Rightarrow> bool" "balance_in D" "goods_in D" "history_in D"
    "PgUserInfoRepository_UserInfoRepository busy_info" name
    "AuthAdapter_UsernameGetter visit name_adapter" rng StdoutLogger
    "\<lambda>ctx w. calm w \<and> \<not> cancelled ctx \<and> up (remote w)"
    "\<lambda>u. \<forall>d \<in> D. accounts (bank_of d) u \<noteq> None" "goods_full_in D"
  for D name
proof unfold_locales
  fix ctx :: go_context and u :: goint and w :: "'r busy_store"
  assume h: "calm w \<and> \<not> cancelled ctx \<and> up (remote w)" and inv: "busy_in D nm name w"
    and u: "int4_range (sint u)"
  note wf = reads_in_state [OF busy_in_reads [OF busy_in_tick [OF inv]]]
  show "\<forall>d \<in> D. accounts (bank_of d) (sint u) \<noteq> None \<Longrightarrow>
    \<exists>v w'. FetchUserBalance (PgUserInfoRepository_UserInfoRepository busy_info) ctx u w = (Inr v, w') \<and>
      calm w' \<and> \<not> cancelled ctx \<and> up (remote w')"
    using h wf u by (fastforce simp: PgUserInfoRepository_UserInfoRepository_def accounts_bank_of
        busy_fetches FetchUserBalance_calm)
  show "\<exists>p w'. FetchUserPurchases (PgUserInfoRepository_UserInfoRepository busy_info) ctx u w =
      (Inr p, w') \<and> (calm w' \<and> \<not> cancelled ctx \<and> up (remote w')) \<and> goods_full_in D (sint u) p"
    using h wf u FetchUserPurchases_calm [of "tick w" ctx u]
    by (auto simp: PgUserInfoRepository_UserInfoRepository_def busy_fetches goods_full_in_def)
  show "\<exists>h w'. FetchUserCoinTransfers (PgUserInfoRepository_UserInfoRepository busy_info) ctx u w =
      (Inr h, w') \<and> calm w' \<and> \<not> cancelled ctx \<and> up (remote w')"
    using h u
    by (auto simp: PgUserInfoRepository_UserInfoRepository_def info_repository_defs pool_Query_calm
        store_query_cases processed_rows_def process_loop_cells)
qed (auto dest: healthy_getter)

section \<open>The four requests in turn\<close>

text \<open>When every call succeeds and the goroutines run one after the other.\<close>

lemma GetUserInfo_in_turn:
  assumes "GetUsername (uic_usernameGetter uic) ctx u w = (Inr username, w1)"
    and "FetchUserBalance (uic_userRepository uic) ctx u w1 = (Inr balance, w2)"
    and "FetchUserPurchases (uic_userRepository uic) ctx u w2 = (Inr purchased, w3)"
    and "FetchUserCoinTransfers (uic_userRepository uic) ctx u w3 = (Inr tf, w4)"
    and "convertToNamedTransferHistory rng ctx tf (uic_usernameGetter uic) w4 = (Inr h, w5)"
  shows "UserInfoCase_GetUserInfo [0, 0, 1, 2, 2] rng uic ctx u w =
    (Inr \<lparr>tui_Username = username, tui_Balance = balance, tui_Goods = purchased,
       tui_CoinTransferHistory = h\<rparr>, w5)"
  using assms
  by (simp add: UserInfoCase_GetUserInfo_def remaining_calls_def group_start_def group_step_def
      group_ctx_def main_task_def balance_task_def purchases_task_def transfers_task_def
      naming_task_def zero_info_vars_def)

section \<open>What an answer shows\<close>

text \<open>Every part of the page shows a state of \<open>ds\<close>; all of them show \<open>d\<close>.\<close>

definition page_found :: "(int \<Rightarrow> string) \<Rightarrow> store_db list \<Rightarrow> int \<Rightarrow> TotalUserInfo \<Rightarrow> bool" where
  "page_found name ds u info \<longleftrightarrow>
     tui_Username info = name u \<and>
     (\<exists>d \<in> set ds. accounts (bank_of d) u = Some (uint (tui_Balance info))) \<and>
     (\<exists>d \<in> set ds. goods_partial (bank_of d) u (tui_Goods info)) \<and>
     (\<exists>d \<in> set ds. named_pairs (nth_IncomingTransfers (tui_CoinTransferHistory info)) =
        map (\<lambda>(i, a). (name i, a)) (incoming_of (bank_of d) u)) \<and>
     (\<exists>d \<in> set ds. named_pairs (nth_OutcomingTransfers (tui_CoinTransferHistory info)) =
        map (\<lambda>(i, a). (name i, a)) (outcoming_of (bank_of d) u))"

definition page_exact :: "(int \<Rightarrow> string) \<Rightarrow> store_db \<Rightarrow> int \<Rightarrow> TotalUserInfo \<Rightarrow> bool" where
  "page_exact name d u info \<longleftrightarrow>
     main_exact name (bank_of d) u (tui_Username info) (tui_Balance info) \<and>
     goods_exact (bank_of d) u (tui_Goods info) \<and>
     history_exact name (bank_of d) u (tui_CoinTransferHistory info)"

context info_directory
begin

lemma busy_GetUserInfo_found:
  fixes w :: "'r busy_store"
  assumes D: "sound_states (set (durable w # coming w))" and u: "int4_range (sint u)"
    and r: "UserInfoCase_GetUserInfo sched rng (busy_userInfoCase visit client) ctx u w = (Inr info, w')"
  shows "page_found (nm (remote w)) (durable w # coming w) (sint u) info"
proof -
  have "busy_in (set (durable w # coming w)) nm (nm (remote w)) w"
    using D by (auto simp: busy_in_def reads_in_def)
  from busy.GetUserInfo_sound [OF this u r [unfolded busy_userInfoCase_def]] show ?thesis
    unfolding page_found_def busy.history_shown_def lookup_in_defs by blast
qed

end

context info_directory_up
begin

lemma busy_GetUserInfo_answers:
  fixes w :: "'r busy_store"
  assumes D: "sound_states (set (durable w # coming w))" and u: "int4_range (sint u)"
    and acc: "\<forall>d \<in> set (durable w # coming w). accounts (bank_of d) (sint u) \<noteq> None"
    and h: "calm w" "\<not> cancelled ctx" "up (remote w)"
  shows "\<exists>info w'. UserInfoCase_GetUserInfo sched rng (busy_userInfoCase visit client) ctx u w =
      (Inr info, w') \<and> (\<exists>d \<in> set (durable w # coming w). goods_exact (bank_of d) (sint u) (tui_Goods info))"
proof -
  have "busy_in (set (durable w # coming w)) nm (nm (remote w)) w"
    using D by (auto simp: busy_in_def reads_in_def)
  from busy_healthy.GetUserInfo_healthy [OF this u acc, of ctx sched] h show ?thesis
    by (auto simp: busy_userInfoCase_def goods_full_in_def)
qed

text \<open>The balance of one state next to the purchases of the next.\<close>

lemma busy_GetUserInfo_mixes:
  fixes w :: "'r busy_store"
  assumes coming: "coming w = [d1, d2, d3, d4]"
    and wf: "wf_db d1" "wf_db d2" and u: "int4_range (sint u)"
    and v: "accounts (bank_of d1) (sint u) = Some v"
    and h: "calm w" "\<not> cancelled ctx" "up (remote w)"
  shows "\<exists>info w'. UserInfoCase_GetUserInfo [0, 0, 1, 2, 2] rng (busy_userInfoCase visit client) ctx u w =
      (Inr info, w') \<and> uint (tui_Balance info) = v \<and> goods_exact (bank_of d2) (sint u) (tui_Goods info)"
proof -
  let ?getter = "AuthAdapter_UsernameGetter visit name_adapter :: 'r busy_store UsernameGetter"
  obtain n r1 where c1: "GetUsername ?getter ctx u w = (Inr n, w\<lparr>remote := r1\<rparr>)" and up: "up r1"
    using GetUsernames_up [OF h(3,2), of "[u]"]
    by (auto simp: AuthAdapter_UsernameGetter_def AuthAdapter_GetUsername_def)
  define w1 where "w1 = w\<lparr>remote := r1\<rparr>"
  have w1: "durable (tick w1) = d1" "calm (tick w1)" "coming (tick w1) = [d2, d3, d4]" "remote w1 = r1"
    using h coming by (auto simp: w1_def tick_def calm_def)
  have b: "map_of (balances d1) (sint u) = Some v" "uint (word_of_int v :: uint32) = v"
    using v wf_db_balance [OF wf(1)] by (auto simp: accounts_bank_of uint_uint32_of_int4)
  have c2: "UserInfoRepository_FetchUserBalance busy_info ctx u w1 = (Inr (word_of_int v), tick w1)"
    using FetchUserBalance_calm [of "tick w1" ctx u v] w1 wf u b h by (simp add: busy_fetches)
  define w2 where "w2 = tick (tick w1)"
  have w2: "durable w2 = d2" "calm w2" "remote w2 = r1" "coming w2 = [d3, d4]"
    using w1 by (auto simp: w2_def tick_def [of "tick w1"] calm_def)
  obtain p where c3: "UserInfoRepository_FetchUserPurchases busy_info ctx u (tick w1) = (Inr p, w2)"
    and p: "goods_exact (bank_of d2) (sint u) p"
    using FetchUserPurchases_calm [of w2 ctx u] w2 wf u h by (auto simp: busy_fetches w2_def)
  obtain tf w3 where c4: "UserInfoRepository_FetchUserCoinTransfers busy_info ctx u w2 = (Inr tf, w3)"
    and w3: "calm w3" "remote w3 = r1"
    using h(2) u w2 by (auto simp: info_repository_defs pool_Query_calm store_query_cases
        processed_rows_def process_loop_cells)
  obtain m r2 where "GetUsernames ?getter ctx (extractUserIDs rng tf) w3 = (Inr m, w3\<lparr>remote := r2\<rparr>)"
    using GetUsernames_up [of w3 ctx "extractUserIDs rng tf"] h(2) up w3
    by (auto simp: AuthAdapter_UsernameGetter_def)
  then have c5: "\<exists>hs w5. convertToNamedTransferHistory rng ctx tf ?getter w3 = (Inr hs, w5)"
    by (simp add: convertToNamedTransferHistory_def)
  then obtain hs w5 where c5: "convertToNamedTransferHistory rng ctx tf ?getter w3 = (Inr hs, w5)"
    by blast
  have "UserInfoCase_GetUserInfo [0, 0, 1, 2, 2] rng (busy_userInfoCase visit client) ctx u w =
      (Inr \<lparr>tui_Username = n, tui_Balance = word_of_int v, tui_Goods = p,
         tui_CoinTransferHistory = hs\<rparr>, w5)"
    by (rule GetUserInfo_in_turn)
      (use c1 c2 c3 c4 c5 in \<open>simp_all add: busy_userInfoCase_def NewUserInfoCase_def w1_def
        PgUserInfoRepository_UserInfoRepository_def\<close>)
  with p b(2) show ?thesis by simp
qed

end

section \<open>Between the steps of concurrent transactions\<close>

text \<open>
  What successive requests find committed while the transactions of \<open>Store_Concurrency\<close> make
  any number of steps between them.
\<close>

inductive snapshots :: "conc \<Rightarrow> store_db list \<Rightarrow> bool" where
  snap_none: "snapshots c []"
| snap_take: "snapshots c ds \<Longrightarrow> snapshots c (committed c # ds)"
| snap_step: "conc_step c c' \<Longrightarrow> snapshots c' ds \<Longrightarrow> snapshots c ds"

lemma snapshots_steps:
  "snapshots c ds \<Longrightarrow> conc_inv c \<Longrightarrow>
   \<forall>d \<in> set ds. wf_db d \<and> bank_steps (bank_of (committed c)) (bank_of d)"
proof (induction rule: snapshots.induct)
  case (snap_take c ds)
  then show ?case by (simp add: conc_inv_def steps_refl)
next
  case (snap_step c c' ds)
  then show ?case using conc_step_inv [OF snap_step(1) snap_step(4)]
    by (auto intro: bank_steps_trans)
qed simp

text \<open>Later states only add to the histories, and close no account.\<close>

lemma bank_steps_frame:
  "bank_steps b b' \<Longrightarrow> dom (accounts b) \<subseteq> dom (accounts b') \<and> (\<exists>ys. ledger b' = ledger b @ ys)"
  by (induction rule: bank_steps.induct) (auto dest!: bank_step_frame)

lemma later_histories:
  assumes "bank_steps b b'"
  shows "prefix (incoming_of b u) (incoming_of b' u)" "prefix (outcoming_of b u) (outcoming_of b' u)"
  using bank_steps_frame [OF assms] by (auto simp: incoming_of_def outcoming_of_def)

lemma later_accounts: "bank_steps b b' \<Longrightarrow> accounts b u \<noteq> None \<Longrightarrow> accounts b' u \<noteq> None"
  using bank_steps_frame [of b b'] by (auto simp: dom_def)

end
