(* ===== verification/Merch_Info.thy ===== *)
theory Merch_Info
  imports Merch_Login Store_Info_Commits
begin

text \<open>
  The use case \<open>GetUserInfo\<close> by itself, wired to the database and the auth server: its three
  goroutines always come to an end, what it answers under failures, and what it answers while
  others buy and send coins.
\<close>

section \<open>Waiting for the goroutines\<close>

lemma group_step_finished:
  assumes "\<forall>t \<in> set (tasks g). \<exists>e. t = Returned e"
  shows "group_step ctx i (g, w) = (g, w)"
proof (cases "i < length (tasks g)")
  case True
  then obtain e where "tasks g ! i = Returned e" using assms nth_mem by blast
  with True show ?thesis by (simp add: group_step_def)
qed (simp add: group_step_def)

lemma group_run_finished:
  "\<forall>t \<in> set (tasks g). \<exists>e. t = Returned e \<Longrightarrow> group_run ctx rest (g, w) = (g, w)"
  by (induction rest) (simp_all add: group_step_finished)

text \<open>
  The schedule is long enough: \<open>group.Wait()\<close> of \<open>GetUserInfo\<close> returns. Whatever the schedule and whatever the calls
  answer, five more calls after any prefix of the run are enough for all three goroutines to
  return, and no further scheduling changes the group, its variables or the world: the result
  that the use case reads is final.
\<close>

theorem GetUserInfo_returns:
  "let run = group_run ctx (sched @ remaining_calls) (group_start v
       [main_task uic u, purchases_task uic u, transfers_task rng uic u], w)
   in length remaining_calls = 5 \<and> length (tasks (fst run)) = 3 \<and>
      list_all (\<lambda>t. case t of Returned _ \<Rightarrow> True | Calling _ \<Rightarrow> False) (tasks (fst run)) \<and>
      group_run ctx (sched @ remaining_calls @ rest) (group_start v
       [main_task uic u, purchases_task uic u, transfers_task rng uic u], w) = run"
proof -
  let ?start = "(group_start v [main_task uic u, purchases_task uic u, transfers_task rng uic u], w)"
  obtain g w' where run: "group_run ctx (sched @ remaining_calls) ?start = (g, w')" by fastforce
  note returned = info_group_returns [OF run]
  have "group_run ctx (sched @ remaining_calls @ rest) ?start = group_run ctx rest (g, w')"
    using run group_run_append [of ctx "sched @ remaining_calls" rest ?start] by simp
  with run returned show ?thesis
    by (auto simp: group_run_finished remaining_calls_def list_all_iff)
qed

section \<open>Answers under failures\<close>

text \<open>
  The page of a user under failures. Whatever fails (the database, the auth service, in any
  order the goroutines meet it), the use case changes nothing; and an answer without an error has
  the right name, the right balance and the right histories, and shows every
  item with the quantity that the user owns (modulo \<open>2 ^ 32\<close>) or not at all. (An item can be missing when the connection breaks off within the
  purchases.)
\<close>

theorem GetUserInfo_under_failures:
  fixes w :: "'e auth_node store_node"
  assumes "wf_db (durable w)" "ledger_ok (bank_of (durable w))" "int4_range (sint u)"
    and "UserInfoCase_GetUserInfo sched (visit_order o3)
      (store_userInfoCase (visit_order o2) (merch_auth argon issuer secret o1)) ctx u w = (res, w')"
  shows "durable w' = durable w \<and>
    (\<forall>info. res = Inr info \<longrightarrow>
       main_exact (auth_name (durable (remote w))) (bank_of (durable w)) (sint u) (tui_Username info)
         (tui_Balance info) \<and>
       goods_partial (bank_of (durable w)) (sint u) (tui_Goods info) \<and>
       history_exact (auth_name (durable (remote w))) (bank_of (durable w)) (sint u)
         (tui_CoinTransferHistory info))"
  using directory.GetUserInfo_sound [OF assms(1-3) assms(4) [unfolded merch_auth_def]]
  by auto

theorem GetUserInfo_under_failures_witness:
  "\<exists>info w'. UserInfoCase_GetUserInfo [2, 1] (visit_order rev)
      (store_userInfoCase (visit_order rev) (merch_auth demo_argon demo_issuer ''k'' rev)) background 1
      (demo_system\<lparr>durable := demo_db\<rparr>) = (Inr info, w') \<and> durable w' = demo_db \<and>
    uint (tui_Balance info) = 1000"
proof -
  let ?w = "demo_system\<lparr>durable := demo_db\<rparr>"
  have w: "calm ?w" "\<not> cancelled background" "calm (remote ?w)" "ledger_ok (bank_of (durable ?w))" "int4_range (sint (1::goint))"
    "accounts (bank_of (durable ?w)) (sint (1::goint)) \<noteq> None"
    by (auto simp: background_def calm_def demo_system_def demo_auth_world_def ledger_ok_def bank_of_def
        demo_db_def migrated_db_def int4_range_def)
  have wf: "wf_db (durable ?w)" by simp
  from userInfoCase_calm [OF w(1-3) wf w(4-6), of "[2, 1]" rev rev demo_argon demo_issuer "''k''" rev]
  obtain info w' where r: "UserInfoCase_GetUserInfo [2, 1] (visit_order rev)
      (store_userInfoCase (visit_order rev) (merch_auth demo_argon demo_issuer ''k'' rev)) background 1 ?w =
      (Inr info, w')" by blast
  from GetUserInfo_under_failures [OF wf w(4,5) r] r show ?thesis
    by (auto simp: main_exact_def bank_of_def demo_db_def)
qed

section \<open>Answers while others commit\<close>

lemma snapshots_sound:
  assumes c: "conc_reach d0 c" "wf_db d0" "ledger_ok (bank_of d0)" and ds: "snapshots c ds"
  shows "sound_states (set (committed c # ds))"
    and "\<forall>d \<in> set (committed c # ds). bank_steps (bank_of (committed c)) (bank_of d)"
proof -
  have inv: "conc_inv c" "bank_steps (bank_of d0) (bank_of (committed c))"
    using conc_reach_inv [OF c(1,2)] by simp_all
  note later = snapshots_steps [OF ds inv(1)]
  have good: "wf_db d \<and> bank_steps (bank_of (committed c)) (bank_of d)"
    if "d \<in> set (committed c # ds)" for d
    using that later inv(1) by (auto simp: conc_inv_def steps_refl)
  then show "\<forall>d \<in> set (committed c # ds). bank_steps (bank_of (committed c)) (bank_of d)" by blast
  have "\<forall>(f, t, a) \<in> set (ledger (bank_of d0)). 0 \<le> a" using c(3) by (auto simp: ledger_ok_def)
  with good show "sound_states (set (committed c # ds))"
    unfolding sound_states_def
    using ledger_ok_db bank_steps_ledger [OF bank_steps_trans [OF _ inv(2)]] by blast
qed

text \<open>
  C17. The page of a user while others commit. While purchases and transfers of any users interleave
  with the requests of the use case, and whatever fails, an answer has the right name; its
  balance, its inventory (up to items a broken connection leaves out), its received and its sent
  transfers each are those of some state that was committed during the call; and no transfer
  committed before the call is missing. While the connections are healthy there is an answer, with
  the full inventory of such a state. The four parts need not show the same state.
\<close>

theorem GetUserInfo_between_commits:
  fixes w :: "'e auth_node busy_store"
  assumes "conc_reach d0 c" "wf_db d0" "ledger_ok (bank_of d0)"
    and "durable w = committed c" "snapshots c (coming w)" and "int4_range (sint u)"
    and "UserInfoCase_GetUserInfo sched (visit_order o3)
      (busy_userInfoCase (visit_order o2) (merch_auth argon issuer secret o1)) ctx u w = (res, w')"
  shows "(\<forall>info. res = Inr info \<longrightarrow>
      page_found (auth_name (durable (remote w))) (committed c # coming w) (sint u) info \<and>
      prefix (map (\<lambda>(i, a). (auth_name (durable (remote w)) i, a))
          (incoming_of (bank_of (committed c)) (sint u)))
        (named_pairs (nth_IncomingTransfers (tui_CoinTransferHistory info))) \<and>
      prefix (map (\<lambda>(i, a). (auth_name (durable (remote w)) i, a))
          (outcoming_of (bank_of (committed c)) (sint u)))
        (named_pairs (nth_OutcomingTransfers (tui_CoinTransferHistory info)))) \<and>
    (calm w \<and> \<not> cancelled ctx \<and> calm (remote w) \<and>
       accounts (bank_of (committed c)) (sint u) \<noteq> None \<longrightarrow>
     (\<exists>info d. res = Inr info \<and> d \<in> set (committed c # coming w) \<and>
        goods_exact (bank_of d) (sint u) (tui_Goods info)))"
proof -
  note sound = snapshots_sound [OF assms(1-3,5)]
  note r = assms(7) [unfolded merch_auth_def]
  have D: "sound_states (set (durable w # coming w))" using sound(1) assms(4) by simp
  have found: "\<And>info. res = Inr info \<Longrightarrow>
      page_found (auth_name (durable (remote w))) (committed c # coming w) (sint u) info"
    using info_directory.busy_GetUserInfo_found [OF directory.info_directory_axioms D assms(6)] r assms(4)
    by simp
  have answers: "\<exists>info d. res = Inr info \<and> d \<in> set (committed c # coming w) \<and>
        goods_exact (bank_of d) (sint u) (tui_Goods info)"
    if "calm w" "\<not> cancelled ctx" "calm (remote w)" "accounts (bank_of (committed c)) (sint u) \<noteq> None"
  proof -
    have "\<forall>d \<in> set (durable w # coming w). accounts (bank_of d) (sint u) \<noteq> None"
      using sound(2) later_accounts [OF _ that(4)] assms(4) by simp
    from info_directory_up.busy_GetUserInfo_answers [OF directory.info_directory_up_axioms D assms(6)
        this that(1-3)]
    have "\<exists>info w'. UserInfoCase_GetUserInfo sched (visit_order o3)
        (busy_userInfoCase (visit_order o2) (auth_client (visit_order o1) (auth_server argon issuer secret)))
        ctx u w = (Inr info, w') \<and>
      (\<exists>d \<in> set (durable w # coming w). goods_exact (bank_of d) (sint u) (tui_Goods info))" .
    with r assms(4) show ?thesis by auto
  qed
  have prefix: "prefix (map f (hist (bank_of (committed c)) (sint u))) (map f (hist (bank_of d) (sint u)))"
    if "d \<in> set (committed c # coming w)" "hist = incoming_of \<or> hist = outcoming_of"
    for f :: "int \<times> int \<Rightarrow> string \<times> int" and hist d
    using that sound(2) later_histories by (metis map_mono_prefix)
  show ?thesis
  proof (intro conjI allI impI)
    fix info assume i: "res = Inr info"
    note page = found [OF i, unfolded page_found_def]
    show "page_found (auth_name (durable (remote w))) (committed c # coming w) (sint u) info"
      by (rule found [OF i])
    show "prefix (map (\<lambda>(i, a). (auth_name (durable (remote w)) i, a))
          (incoming_of (bank_of (committed c)) (sint u)))
        (named_pairs (nth_IncomingTransfers (tui_CoinTransferHistory info)))"
      using page prefix [of _ incoming_of] by auto
    show "prefix (map (\<lambda>(i, a). (auth_name (durable (remote w)) i, a))
          (outcoming_of (bank_of (committed c)) (sint u)))
        (named_pairs (nth_OutcomingTransfers (tui_CoinTransferHistory info)))"
      using page prefix [of _ outcoming_of] by auto
  qed (use answers in blast)
qed

definition busy_system :: "unit auth_node busy_store" where
  "busy_system =
     \<lparr>durable = demo_db, tx_state = TxClosed, faults = [], logs = [], remote = remote demo_system,
      coming = [demo_db, committed cup_bought, committed cup_bought, committed cup_bought]\<rparr>"

lemma busy_system_calm: "calm busy_system" "\<not> cancelled background" "calm (remote busy_system)"
  by (simp_all add: busy_system_def calm_def background_def demo_system_def demo_auth_world_def)

lemma ledger_ok_demo_db: "ledger_ok (bank_of demo_db)"
  by (simp add: ledger_ok_def bank_of_def demo_db_def migrated_db_def)

abbreviation cup_world :: conc where
  "cup_world \<equiv> \<lparr>committed = demo_db, sessions = [cup_paid]\<rparr>"

lemma cup_step: "conc_step cup_world cup_bought"
  using advance [of 0 cup_world "Ended (BuyReq 1 ''cup'') None" "committed cup_bought"] cup_granted
  by (simp add: cup_bought_def cup_paid_def)

lemma cup_snapshots: "snapshots cup_world (coming busy_system)"
  using snap_take [OF snap_step [OF cup_step snap_take [OF snap_take [OF snap_take [OF snap_none]]]]]
  by (simp add: busy_system_def)

theorem GetUserInfo_between_commits_witness:
  "\<exists>info. fst (UserInfoCase_GetUserInfo [2, 1] (visit_order rev)
      (busy_userInfoCase (visit_order rev) (merch_auth demo_argon demo_issuer ''k'' rev)) background 1
      busy_system) = Inr info \<and>
    page_found (auth_name (durable (remote busy_system))) (demo_db # coming busy_system) 1 info"
proof -
  obtain res w' where r: "UserInfoCase_GetUserInfo [2, 1] (visit_order rev)
      (busy_userInfoCase (visit_order rev) (merch_auth demo_argon demo_issuer ''k'' rev)) background 1
      busy_system = (res, w')" by fastforce
  have "durable busy_system = committed cup_world" "int4_range (sint (1::goint))"
    "accounts (bank_of (committed cup_world)) (sint (1::goint)) \<noteq> None"
    by (simp_all add: busy_system_def int4_range_def bank_of_def demo_db_def)
  with GetUserInfo_between_commits [OF cup_run wf_demo_db ledger_ok_demo_db _ cup_snapshots _ r]
    busy_system_calm r show ?thesis by auto
qed

text \<open>
  C18. The page can be torn. \<open>GetUserInfo\<close> reads the balance and the inventory in separate requests
  that no transaction holds together: when a purchase of the user commits between the two (a
  possible order for every purchase that is about to commit), the page shows
  the item as bought and the coins as not yet spent. It fits neither the state before the
  purchase nor the one after, whatever names the auth service gives, and there were no others.
\<close>

theorem GetUserInfo_torn:
  fixes w :: "'e auth_node busy_store"
  assumes c: "conc_reach d0 c" "wf_db d0" "i < length (sessions c)" "granted (sessions c) i"
    and buy: "sessions c ! i = Running (BuyReq u item) log locks p"
      "session_next (committed c) (sessions c ! i) = (Ended (BuyReq u item) None, d')"
    and price: "0 < price_of (bank_of (committed c)) item"
    and w: "calm w" "\<not> cancelled ctx" "calm (remote w)" "coming w = [committed c, d', d', d']"
  shows "snapshots c (coming w) \<and>
    (\<exists>info w'. UserInfoCase_GetUserInfo [0, 0, 1, 2, 2] (visit_order o3)
        (busy_userInfoCase (visit_order o2) (merch_auth argon issuer secret o1)) ctx u w = (Inr info, w') \<and>
      shown_quantity (tui_Goods info) item = owned (bank_of (committed c)) (sint u) item + 1 \<and>
      Some (uint (tui_Balance info)) = accounts (bank_of (committed c)) (sint u) \<and>
      (\<forall>name. \<not> page_exact name (committed c) (sint u) info \<and> \<not> page_exact name d' (sint u) info))"
proof -
  have inv: "conc_inv c" using conc_reach_inv [OF c(1,2)] ..
  define c' where "c' = \<lparr>committed = d', sessions = (sessions c)[i := Ended (BuyReq u item) None]\<rparr>"
  have step: "conc_step c c'" unfolding c'_def by (rule advance [OF c(3,4) buy(2)])
  have snap: "snapshots c (coming w)"
    using snap_take [OF snap_step [OF step snap_take [OF snap_take [OF snap_take [OF snap_none]]]]] w(4)
    by (simp add: c'_def)
  have wf: "wf_db (committed c)" "wf_db d'"
    using inv conc_step_inv [OF step inv] by (simp_all add: conc_inv_def c'_def)
  have "bank_buy (sint u) item (bank_of (committed c)) = Inr (bank_of d')"
    using advance_facts(1) [OF inv c(3,4) buy(2)] buy(1) by (simp add: step_ok_def committed_op_def)
  then obtain q v where q: "prices (bank_of (committed c)) item = Some q"
      and v: "accounts (bank_of (committed c)) (sint u) = Some v"
      and b': "accounts (bank_of d') (sint u) = Some (v - q)"
        "bought (bank_of d') = bought (bank_of (committed c)) @ [(sint u, item)]"
    by (auto elim!: bank_buyE)
  have more: "owned (bank_of d') (sint u) item = owned (bank_of (committed c)) (sint u) item + 1"
    by (simp add: owned_def b')
  have u: "int4_range (sint u)" using v wf_db_balance [OF wf(1)] by (auto simp: accounts_bank_of)
  from info_directory_up.busy_GetUserInfo_mixes [OF directory.info_directory_up_axioms w(4) wf u v w(1-3)]
  have "\<exists>info w'. UserInfoCase_GetUserInfo [0, 0, 1, 2, 2] (visit_order o3)
      (busy_userInfoCase (visit_order o2) (auth_client (visit_order o1) (auth_server argon issuer secret)))
      ctx u w = (Inr info, w') \<and> uint (tui_Balance info) = v \<and>
    goods_exact (bank_of d') (sint u) (tui_Goods info)" .
  then obtain info w' where r: "UserInfoCase_GetUserInfo [0, 0, 1, 2, 2] (visit_order o3)
      (busy_userInfoCase (visit_order o2) (merch_auth argon issuer secret o1)) ctx u w = (Inr info, w')"
    and page: "uint (tui_Balance info) = v" "goods_exact (bank_of d') (sint u) (tui_Goods info)"
    by (auto simp: merch_auth_def)
  have "q \<noteq> 0" using price q by (simp add: price_of_def)
  then have "\<not> page_exact name (committed c) (sint u) info" "\<not> page_exact name d' (sint u) info" for name
    using page v b'(1) more by (auto simp: page_exact_def main_exact_def goods_exact_def)
  with snap r page v more show ?thesis by (fastforce simp: goods_exact_def)
qed

theorem GetUserInfo_torn_witness:
  "\<exists>info w'. UserInfoCase_GetUserInfo [0, 0, 1, 2, 2] (visit_order rev)
      (busy_userInfoCase (visit_order rev) (merch_auth demo_argon demo_issuer ''k'' rev)) background 1
      busy_system = (Inr info, w') \<and>
    shown_quantity (tui_Goods info) ''cup'' = 1 \<and> uint (tui_Balance info) = 1000"
proof -
  have "granted (sessions cup_world) 0" "0 < price_of (bank_of (committed cup_world)) ''cup''"
    by (simp_all add: cup_granted price_of_def bank_of_def demo_db_def migrated_db_def seed_goods_def)
  moreover have "session_next demo_db cup_paid = (Ended (BuyReq 1 ''cup'') None, committed cup_bought)"
    by (simp add: cup_paid_def cup_bought_def)
  moreover have "owned (bank_of demo_db) 1 ''cup'' = 0"
    "accounts (bank_of demo_db) 1 = Some 1000"
    by (simp_all add: owned_def bank_of_def demo_db_def migrated_db_def)
  ultimately show ?thesis
    using GetUserInfo_torn [OF cup_run wf_demo_db, of 0 1 "''cup''" _ _ _ "committed cup_bought"
      busy_system background rev rev demo_argon demo_issuer "''k''" rev] busy_system_calm
    by (simp add: cup_paid_def busy_system_def) blast
qed

end
