(* ===== verification/Merch_Config.thy ===== *)
theory Merch_Config
  imports Jwt Database
begin

text \<open>
  The configuration of the three services: the environment lookup and the names of
  \<open>internal/pkg/env\<close>, the config structs of the \<open>bootstrap\<close> packages, and what the three \<open>main\<close>
  functions of \<open>cmd/\<close> make of their defaults and the environment.
\<close>

section \<open>Environment\<close>

text \<open>The environment of a process, as \<open>os.LookupEnv\<close> reads it.\<close>

type_synonym environ = "string \<rightharpoonup> string"

definition TrySetFromEnv :: "environ \<Rightarrow> string \<Rightarrow> string \<Rightarrow> string" where
  "TrySetFromEnv env envName val =
     (case env envName of Some envVal \<Rightarrow> envVal | None \<Rightarrow> val)"

definition EnvGrpcAuthPort :: string where "EnvGrpcAuthPort = ''GRPC_AUTH_PORT''"
definition EnvGrpcStorePort :: string where "EnvGrpcStorePort = ''GRPC_STORE_PORT''"
definition EnvHttpPort :: string where "EnvHttpPort = ''HTTP_PORT''"

definition EnvAuthDatabaseHost :: string where "EnvAuthDatabaseHost = ''DB_AUTH_HOST''"
definition EnvAuthDatabasePort :: string where "EnvAuthDatabasePort = ''DB_AUTH_PORT''"
definition EnvAuthDatabaseUser :: string where "EnvAuthDatabaseUser = ''DB_AUTH_USER''"
definition EnvAuthDatabasePassword :: string where "EnvAuthDatabasePassword = ''DB_AUTH_PASSWORD''"
definition EnvAuthDatabaseName :: string where "EnvAuthDatabaseName = ''DB_AUTH_NAME''"

definition EnvStoreDatabaseHost :: string where "EnvStoreDatabaseHost = ''DB_STORE_HOST''"
definition EnvStoreDatabasePort :: string where "EnvStoreDatabasePort = ''DB_STORE_PORT''"
definition EnvStoreDatabaseUser :: string where "EnvStoreDatabaseUser = ''DB_STORE_USER''"
definition EnvStoreDatabasePassword :: string where "EnvStoreDatabasePassword = ''DB_STORE_PASSWORD''"
definition EnvStoreDatabaseName :: string where "EnvStoreDatabaseName = ''DB_STORE_NAME''"

definition EnvJwtSecret :: string where "EnvJwtSecret = ''JWT_SECRET''"

definition EnvGrpcAuthHost :: string where "EnvGrpcAuthHost = ''GRPC_AUTH_HOST''"
definition EnvGrpcStoreHost :: string where "EnvGrpcStoreHost = ''GRPC_STORE_HOST''"

lemmas env_names = EnvGrpcAuthPort_def EnvGrpcStorePort_def EnvHttpPort_def
  EnvAuthDatabaseHost_def EnvAuthDatabasePort_def EnvAuthDatabaseUser_def
  EnvAuthDatabasePassword_def EnvAuthDatabaseName_def EnvStoreDatabaseHost_def
  EnvStoreDatabasePort_def EnvStoreDatabaseUser_def EnvStoreDatabasePassword_def
  EnvStoreDatabaseName_def EnvJwtSecret_def EnvGrpcAuthHost_def EnvGrpcStoreHost_def

section \<open>Configurations\<close>

record AuthConfig =
  ac_DbSettings :: PostgresSettings
  ac_SecretKey :: string

record StoreConfig =
  sc_DbSettings :: PostgresSettings
  sc_JwtSecret :: string
  sc_GrpcAuthHost :: string
  sc_GrpcAuthPort :: string

record GatewayConfig =
  gc_GrpcAuthHost :: string
  gc_GrpcAuthPort :: string
  gc_GrpcStoreHost :: string
  gc_GrpcStorePort :: string

text \<open>
  Each \<open>main\<close> gives the address that the process listens on and the configuration of its app. A
  variable that is set from the environment is bound anew, in the order of the code.
\<close>

definition auth_main_config :: "environ \<Rightarrow> string \<times> AuthConfig" where
  "auth_main_config env =
     (let secretKey = ''secret-key'';
          grpcPort = '':9090'';
          db = \<lparr>ps_User = ''auth_admin'', ps_Password = ''auth_password'', ps_Host = ''localhost'',
                ps_Port = ''5433'', ps_DBName = ''merch_auth_db'', ps_SSLEnabled = False\<rparr>;
          grpcPort = TrySetFromEnv env EnvGrpcAuthPort grpcPort;
          db = db\<lparr>ps_User := TrySetFromEnv env EnvAuthDatabaseUser (ps_User db)\<rparr>;
          db = db\<lparr>ps_Password := TrySetFromEnv env EnvAuthDatabasePassword (ps_Password db)\<rparr>;
          db = db\<lparr>ps_Host := TrySetFromEnv env EnvAuthDatabaseHost (ps_Host db)\<rparr>;
          db = db\<lparr>ps_Port := TrySetFromEnv env EnvAuthDatabasePort (ps_Port db)\<rparr>;
          db = db\<lparr>ps_DBName := TrySetFromEnv env EnvAuthDatabaseName (ps_DBName db)\<rparr>;
          secretKey = TrySetFromEnv env EnvJwtSecret secretKey
      in (grpcPort, \<lparr>ac_DbSettings = db, ac_SecretKey = secretKey\<rparr>))"

definition store_main_config :: "environ \<Rightarrow> string \<times> StoreConfig" where
  "store_main_config env =
     (let secretKey = ''secret-key'';
          grpcPort = '':9091'';
          db = \<lparr>ps_User = ''store_admin'', ps_Password = ''store_password'', ps_Host = ''localhost'',
                ps_Port = ''5434'', ps_DBName = ''merch_store_db'', ps_SSLEnabled = False\<rparr>;
          grpcAuthPort = '':9090'';
          grpcAuthHost = ''localhost'';
          grpcPort = TrySetFromEnv env EnvGrpcStorePort grpcPort;
          grpcAuthPort = TrySetFromEnv env EnvGrpcAuthPort grpcAuthPort;
          grpcAuthHost = TrySetFromEnv env EnvGrpcAuthHost grpcAuthHost;
          db = db\<lparr>ps_User := TrySetFromEnv env EnvStoreDatabaseUser (ps_User db)\<rparr>;
          db = db\<lparr>ps_Password := TrySetFromEnv env EnvStoreDatabasePassword (ps_Password db)\<rparr>;
          db = db\<lparr>ps_Host := TrySetFromEnv env EnvStoreDatabaseHost (ps_Host db)\<rparr>;
          db = db\<lparr>ps_Port := TrySetFromEnv env EnvStoreDatabasePort (ps_Port db)\<rparr>;
          db = db\<lparr>ps_DBName := TrySetFromEnv env EnvStoreDatabaseName (ps_DBName db)\<rparr>;
          secretKey = TrySetFromEnv env EnvJwtSecret secretKey
      in (grpcPort, \<lparr>sc_DbSettings = db, sc_JwtSecret = secretKey, sc_GrpcAuthHost = grpcAuthHost,
           sc_GrpcAuthPort = grpcAuthPort\<rparr>))"

definition gateway_main_config :: "environ \<Rightarrow> string \<times> GatewayConfig" where
  "gateway_main_config env =
     (let grpcAuthPort = '':9090'';
          grpcStorePort = '':9091'';
          grpcAuthHost = ''localhost'';
          grpcStoreHost = ''localhost'';
          httpPort = '':8080'';
          grpcAuthPort = TrySetFromEnv env EnvGrpcAuthPort grpcAuthPort;
          grpcStorePort = TrySetFromEnv env EnvGrpcStorePort grpcStorePort;
          grpcAuthHost = TrySetFromEnv env EnvGrpcAuthHost grpcAuthHost;
          grpcStoreHost = TrySetFromEnv env EnvGrpcStoreHost grpcStoreHost;
          httpPort = TrySetFromEnv env EnvHttpPort httpPort
      in (httpPort, \<lparr>gc_GrpcAuthHost = grpcAuthHost, gc_GrpcAuthPort = grpcAuthPort,
           gc_GrpcStoreHost = grpcStoreHost, gc_GrpcStorePort = grpcStorePort\<rparr>))"

text \<open>The targets that \<open>Run\<close> passes to \<open>grpc.NewClient\<close>.\<close>

definition store_dials :: "StoreConfig \<Rightarrow> string" where
  "store_dials cfg = sc_GrpcAuthHost cfg @ sc_GrpcAuthPort cfg"

definition gateway_dials :: "GatewayConfig \<Rightarrow> string \<times> string" where
  "gateway_dials cfg =
     (gc_GrpcAuthHost cfg @ gc_GrpcAuthPort cfg, gc_GrpcStoreHost cfg @ gc_GrpcStorePort cfg)"

lemmas main_configs = auth_main_config_def store_main_config_def gateway_main_config_def

section \<open>Properties\<close>

text \<open>
  C31. Three services started in one environment fit together: the store checks tokens with the
  secret that the auth service signs with, and the gateway and the store dial the ports that the
  auth service and the store listen on, at one host for the auth service. So a token issued by
  one is accepted by the other until it expires, as the same user.
\<close>

theorem configs_agree:
  assumes "auth_main_config env = (authPort, auth)" "store_main_config env = (storePort, store)"
    and "gateway_main_config env = (httpPort, gw)"
    and lib: "jwt_lib_ok lib"
    and issued: "JWTTokenIssuer_IssueToken lib now (ac_SecretKey auth) userID username limit = Inr token"
    and later: "later < (now + limit) div second * second"
  shows "(\<exists>authHost storeHost.
       store_dials store = authHost @ authPort \<and>
       gateway_dials gw = (authHost @ authPort, storeHost @ storePort)) \<and>
    ac_SecretKey auth = (case env ''JWT_SECRET'' of Some s \<Rightarrow> s | None \<Rightarrow> ''secret-key'') \<and>
    (\<exists>claims. JWTTokenParser_ParseToken lib later (sc_JwtSecret store) token = Inr claims \<and>
       cl_UserID claims = userID \<and> cl_Username claims = username)"
proof -
  have secret: "sc_JwtSecret store = ac_SecretKey auth"
    using assms(1,2) by (auto simp: main_configs Let_def)
  show ?thesis
    using assms(1-3) issued_parses [OF lib issued later] unfolding secret
    by (auto simp: main_configs Let_def store_dials_def gateway_dials_def TrySetFromEnv_def env_names)
qed

theorem configs_agree_witness:
  "store_dials (snd (store_main_config [''JWT_SECRET'' \<mapsto> ''k'', ''GRPC_AUTH_HOST'' \<mapsto> ''auth''])) = ''auth:9090'' \<and>
   (\<exists>claims. JWTTokenParser_ParseToken demo_jwt second
       (sc_JwtSecret (snd (store_main_config [''JWT_SECRET'' \<mapsto> ''k'', ''GRPC_AUTH_HOST'' \<mapsto> ''auth''])))
       ''alice.k'' = Inr claims \<and> cl_UserID claims = 1)"
proof -
  let ?env = "[''JWT_SECRET'' \<mapsto> ''k'', ''GRPC_AUTH_HOST'' \<mapsto> ''auth'']"
  have secret: "ac_SecretKey (snd (auth_main_config ?env)) = ''k''"
    by (simp add: auth_main_config_def Let_def TrySetFromEnv_def env_names)
  have "show_int 1 = ''1''" by code_simp
  then have "JWTTokenIssuer_IssueToken demo_jwt 0 (ac_SecretKey (snd (auth_main_config ?env))) 1 ''alice''
      (3600 * second) = Inr ''alice.k''"
    unfolding secret by (simp add: JWTTokenIssuer_IssueToken_def demo_jwt_def demo_claims_def second_def)
  from configs_agree [OF prod.collapse [symmetric] prod.collapse [symmetric] prod.collapse [symmetric]
      demo_jwt_ok this, of second]
  have "\<exists>claims. JWTTokenParser_ParseToken demo_jwt second (sc_JwtSecret (snd (store_main_config ?env)))
      ''alice.k'' = Inr claims \<and> cl_UserID claims = 1"
    by (auto simp: second_def)
  moreover have "store_dials (snd (store_main_config ?env)) = ''auth:9090''"
    by (simp add: store_main_config_def store_dials_def Let_def TrySetFromEnv_def env_names)
  ultimately show ?thesis by simp
qed

text \<open>
  The connection URL does not determine the settings: nothing is escaped, so a password with
  an \<open>@\<close> in it is read as the end of the credentials, and its rest as part of the host.
\<close>

theorem GetURL_ambiguous:
  "GetURL (p\<lparr>ps_Password := a @ ''@'' @ b, ps_Host := h\<rparr>) =
   GetURL (p\<lparr>ps_Password := a, ps_Host := b @ ''@'' @ h\<rparr>)"
  by (simp add: GetURL_def)

end
