(* ===== verification/Merch_Main.thy ===== *)
theory Merch_Main
  imports Merch_Login Merch_Config
begin

text \<open>
  The three processes as they are started: the app structs and constructors of the \<open>bootstrap\<close>
  packages, what each \<open>Run\<close> assembles from its app, what each \<open>main\<close> hands to its app, and the
  three wired together in one environment. (The order in which the goroutines of a process
  start and stop is the subject of \<open>Merch_Lifecycle\<close>.)
\<close>

section \<open>The auth service\<close>

record 'w AuthApp =
  aa_cfg :: AuthConfig
  aa_logger :: "'w Logger"
  aa_grpcServer :: "'w AuthServerGRPC option"
  aa_dbpool :: "(auth_sql, 'w) QueryExecuter option"

definition NewAuthApp :: "AuthConfig \<Rightarrow> 'w Logger \<Rightarrow> 'w AuthApp" where
  "NewAuthApp cfg logger =
     \<lparr>aa_cfg = cfg, aa_logger = logger, aa_grpcServer = None, aa_dbpool = None\<rparr>"

text \<open>\<open>Run\<close> from the pool it has opened to the server it is about to start.\<close>

definition AuthApp_Run ::
  "'e argon_lib \<Rightarrow> TokenIssuer \<Rightarrow> (auth_sql, ('d, 'e) node) QueryExecuter \<Rightarrow> ('d, 'e) node AuthApp \<Rightarrow>
   ('d, 'e) node AuthApp" where
  "AuthApp_Run lib tokenIssuer dbpool a =
     (let logger = aa_logger a;
          a = a\<lparr>aa_dbpool := Some dbpool\<rparr>;
          passwordHasher = NewArgonPasswordHasher lib;
          postgresUserRepository = PgUsersRepository_UsersRepository (NewUsersRepository dbpool logger);
          authenticator = NewAuthenticator postgresUserRepository
            (ArgonPasswordHasher_PasswordHasher passwordHasher) tokenIssuer (ac_SecretKey (aa_cfg a));
          authServer = NewAuthServerGRPC (Authenticator_iface_of authenticator) postgresUserRepository logger
      in a\<lparr>aa_grpcServer := Some authServer\<rparr>)"

definition auth_main :: "environ \<Rightarrow> 'e auth_node AuthApp" where
  "auth_main env = NewAuthApp (snd (auth_main_config env)) StdoutLogger"

lemma auth_main_server:
  "aa_grpcServer (AuthApp_Run lib issuer (pool auth_sem) (auth_main env)) =
     Some (auth_server lib issuer (ac_SecretKey (snd (auth_main_config env))))"
  by (simp add: AuthApp_Run_def auth_main_def NewAuthApp_def Let_def auth_server_def
      auth_authenticator_def)

section \<open>The store\<close>

text \<open>The two sides of \<open>pgxpool.Pool\<close> that the store uses.\<close>

record 'w pgx_pool =
  pool_queries :: "(store_sql, 'w) QueryExecuter"
  pool_begins :: "(store_sql, 'w) TxBeginner"

record 'w StoreApp =
  sa_cfg :: StoreConfig
  sa_logger :: "'w Logger"
  sa_server :: "'w MerchStoreServiceClient option"
  sa_dbpool :: "'w pgx_pool option"

definition NewStoreApp :: "StoreConfig \<Rightarrow> 'w Logger \<Rightarrow> 'w StoreApp" where
  "NewStoreApp cfg logger =
     \<lparr>sa_cfg = cfg, sa_logger = logger, sa_server = None, sa_dbpool = None\<rparr>"

text \<open>Likewise, with the client of the auth service that \<open>Run\<close> has dialed.\<close>

definition StoreApp_Run ::
  "info_choices \<Rightarrow> ((int32 \<times> string) list \<Rightarrow> (int32 \<times> string) list) \<Rightarrow> TokenParser \<Rightarrow> 'w pgx_pool \<Rightarrow>
   'w AuthServiceClient \<Rightarrow> 'w StoreApp \<Rightarrow> 'w StoreApp" where
  "StoreApp_Run ch visit tokenParser dbpool client a =
     (let logger = sa_logger a;
          authService = NewAuthAdapter client;
          a = a\<lparr>sa_dbpool := Some dbpool\<rparr>;
          txManager = DelegateTxManager_TxManager (NewDelegateTxManager (pool_begins dbpool) logger);
          purchaseHandler = NewPurchaseHandler;
          goodsRepository = NewGoodsRepository (pool_queries dbpool);
          balancesRepository = NewBalancesRepository (pool_queries dbpool);
          userInfoRepository = NewUserInfoRepository (pool_queries dbpool) logger;
          transactionProceeder = NewTransactionProceeder;
          purchaseCase = NewPurchaseCase (PgGoodsRepository_GoodsRepository goodsRepository)
            (BalancesRepository_UserBalanceLocker balancesRepository) purchaseHandler txManager;
          sendCoinsCase = NewSendCoinsCase txManager (AuthAdapter_UserIDFetcher authService)
            (BalancesRepository_UserBalanceLocker balancesRepository)
            (BalancesRepository_BalanceEnsurer balancesRepository) transactionProceeder;
          userInfoCase = NewUserInfoCase (PgUserInfoRepository_UserInfoRepository userInfoRepository)
            (AuthAdapter_UsernameGetter visit authService) logger;
          server = createGRPCServer ch purchaseCase sendCoinsCase userInfoCase logger tokenParser
            (sc_JwtSecret (sa_cfg a)) (BalancesRepository_BalanceEnsurer balancesRepository)
      in a\<lparr>sa_server := Some server\<rparr>)"

definition store_main :: "environ \<Rightarrow> 'r store_node StoreApp" where
  "store_main env = NewStoreApp (snd (store_main_config env)) StdoutLogger"

definition store_pool :: "'r store_node pgx_pool" where
  "store_pool = \<lparr>pool_queries = pool store_sem, pool_begins = pool_beginner store_sem\<rparr>"

lemma store_main_server:
  "sa_server (StoreApp_Run ch visit parser store_pool (remote_AuthServiceClient client) (store_main env)) =
     Some (store_server ch visit parser (sc_JwtSecret (snd (store_main_config env))) client)"
  by (simp add: StoreApp_Run_def store_main_def store_pool_def NewStoreApp_def Let_def store_server_def
      store_purchaseCase_def store_sendCoinsCase_def store_userInfoCase_def store_txManager_def)

section \<open>The gateway\<close>

record 'w GatewayApp =
  ga_cfg :: GatewayConfig
  ga_logger :: "'w Logger"
  ga_server :: "'w route list option"

definition NewGatewayApp :: "GatewayConfig \<Rightarrow> 'w Logger \<Rightarrow> 'w GatewayApp" where
  "NewGatewayApp cfg logger = \<lparr>ga_cfg = cfg, ga_logger = logger, ga_server = None\<rparr>"

text \<open>\<open>Run\<close> over the two connections it has created; the HTTP server is given by its routes.\<close>

definition GatewayApp_Run ::
  "http_lib \<Rightarrow> grpc_lib \<Rightarrow> 'w AuthServiceClient \<Rightarrow> 'w MerchStoreServiceClient \<Rightarrow> 'w GatewayApp \<Rightarrow>
   'w GatewayApp" where
  "GatewayApp_Run lib rpc grpcAuthConn grpcStoreConn a =
     a\<lparr>ga_server := Some (gateway lib rpc grpcAuthConn grpcStoreConn)\<rparr>"

definition gateway_main :: "environ \<Rightarrow> 'e auth_node store_node GatewayApp" where
  "gateway_main env = NewGatewayApp (snd (gateway_main_config env)) StdoutLogger"

section \<open>The system of one environment\<close>

text \<open>
  The three processes started in one environment, each dialing the others as the configurations
  say, at the time at which a request is served.
\<close>

definition merch_main ::
  "http_lib \<Rightarrow> grpc_lib \<Rightarrow> 'e argon_lib \<Rightarrow> jwt_lib \<Rightarrow> int \<Rightarrow> environ \<Rightarrow> nat list \<Rightarrow> map_orders \<Rightarrow>
   'e auth_node store_node route list" where
  "merch_main lib rpc argon jwt now env sched ord =
     (let auth = AuthApp_Run argon (NewJWTTokenIssuer jwt now) (pool auth_sem) (auth_main env);
          client = auth_client (visit_order (o_names ord)) (the (aa_grpcServer auth));
          store = StoreApp_Run
            \<lparr>c_sched = sched, c_ids = visit_order (o_ids ord), c_goods = visit_order (o_goods ord)\<rparr>
            (visit_order (o_visit ord)) (NewJWTTokenParser jwt now) store_pool
            (remote_AuthServiceClient client) (store_main env);
          gw = GatewayApp_Run lib rpc (remote_AuthServiceClient client) (the (sa_server store))
            (gateway_main env)
      in the (ga_server gw))"

lemma same_secret:
  "sc_JwtSecret (snd (store_main_config env)) = ac_SecretKey (snd (auth_main_config env))"
  by (simp add: main_configs Let_def)

lemma merch_main_eq:
  "merch_main lib rpc argon jwt now env sched ord =
     merch_system lib rpc argon (NewJWTTokenIssuer jwt now) (NewJWTTokenParser jwt now)
       (ac_SecretKey (snd (auth_main_config env))) sched ord"
  by (simp add: merch_main_def Let_def auth_main_server store_main_server GatewayApp_Run_def
      merch_system_def merch_def merch_auth_def same_secret)

section \<open>Properties\<close>

lemma login_sends:
  fixes w v :: "'e auth_node store_node"
  assumes lib: "http_ok lib" and rpc: "grpc_ok rpc" and argon: "argon_ok argon" and jwt: "jwt_lib_ok jwt"
    and wf: "wf_auth (durable (remote w))"
    and creds: "bind_authRequestBody lib (gc_body c) = Some creds"
    and login: "gin_serve (merch_main lib rpc argon jwt now env sched ord) ''POST'' ''/api/auth'' c w =
      (Some (200, Some (JObject [(''token'', JString token)])), w1)"
    and later: "later < (now + tokenTimeLimit) div second * second"
    and h: "gin_GetHeader c' authHeaderName = ''Bearer '' @ token" "CHR 0x20 \<notin> set token"
    and body: "bind_sendCoinRequestBody lib (gc_body c') = Some body"
    and v: "calm v" "wf_db (durable v)" "calm (remote v)" "wf_auth (durable (remote v))"
  shows "\<exists>owner. auth_known (durable (remote w1)) (arb_Username creds) = Some owner \<and>
    (\<forall>q. argon_made argon q (usr_PasswordHash owner) \<longrightarrow> arb_Password creds = q) \<and>
    (let u = sint (usr_ID owner); opened = bank_open u (bank_of (durable v));
         receiver = user_found (durable (remote v)) (scb_ToUsername body);
         sending = (\<lambda>t. bank_send u t (uint (scb_Amount body)) opened)
     in \<exists>v'. gin_serve (merch_main lib rpc argon jwt later env sched' ord') ''POST'' ''/api/sendCoin'' c' v =
       (Some (case receiver of
          None \<Rightarrow> (400, Some (errors_H ''user not found''))
        | Some t \<Rightarrow> (case fst (sending t) of None \<Rightarrow> (200, None) | Some r \<Rightarrow> http_send_refusal r)), v') \<and>
       bank_of (durable v') = (case receiver of None \<Rightarrow> opened | Some t \<Rightarrow> snd (sending t)))"
proof -
  from login_identifies [OF lib rpc argon jwt wf creds login [unfolded merch_main_eq] later]
  obtain u claims where u: "auth_known (durable (remote w1)) (arb_Username creds) = Some u"
      "\<forall>q. argon_made argon q (usr_PasswordHash u) \<longrightarrow> arb_Password creds = q"
    and p: "ParseToken (NewJWTTokenParser jwt later) (ac_SecretKey (snd (auth_main_config env))) token = Inr claims"
    and i: "cl_UserID claims = usr_ID u" "int4_range (sint (usr_ID u))"
    by auto
  from send_coins_served [OF lib rpc h p i(2) [folded i(1)] body v, of argon
      "NewJWTTokenIssuer jwt later" sched' ord'] u i
  show ?thesis by (auto simp: merch_main_eq Let_def)
qed

text \<open>Alice logs in and sends thirty coins to Bob.\<close>

lemma demo_logged_in:
  "\<exists>w'. gin_serve (merch_main demo_http demo_grpc demo_argon demo_jwt 0 [''JWT_SECRET'' \<mapsto> ''k''] []
      demo_orders) ''POST'' ''/api/auth'' (demo_request [] ''alice pw'') demo_system =
    (Some (200, Some (JObject [(''token'', JString ''alice.k'')])), w') \<and>
    auth_known (durable (remote w')) ''alice'' =
      Some \<lparr>usr_ID = 1, usr_Username = ''alice'', usr_PasswordHash = ''h:pw''\<rparr>"
proof -
  have "ac_SecretKey (snd (auth_main_config [''JWT_SECRET'' \<mapsto> ''k''])) = ''k''"
    by (simp add: auth_main_config_def Let_def TrySetFromEnv_def env_names)
  with demo_login show ?thesis unfolding merch_main_eq by metis
qed

lemma demo_sending:
  "wf_auth (durable (remote demo_system))" "calm (remote demo_system)" "wf_db (durable demo_system)"
  "user_found (durable (remote demo_system)) ''bob'' = Some 2"
  "second < (0 + tokenTimeLimit) div second * second"
  "gin_GetHeader (demo_request ''Bearer alice.k'' ''bob 30'') authHeaderName = ''Bearer '' @ ''alice.k''"
  "fst (bank_send 1 2 30 (bank_open 1 (bank_of migrated_db))) = None"
  "accounts (snd (bank_send 1 2 30 (bank_open 1 (bank_of migrated_db)))) 1 = Some 970"
  "accounts (snd (bank_send 1 2 30 (bank_open 1 (bank_of migrated_db)))) 2 = Some 1030"
proof -
  show "wf_auth (durable (remote demo_system))" "calm (remote demo_system)" "wf_db (durable demo_system)"
    using wf_migrated_db wf_demo_auth by simp_all
  show "gin_GetHeader (demo_request ''Bearer alice.k'' ''bob 30'') authHeaderName = ''Bearer '' @ ''alice.k''"
    by simp
  show "user_found (durable (remote demo_system)) ''bob'' = Some 2"
    by (simp add: user_found_def find_user_def demo_auth_world_def demo_auth_db_def)
  show "second < (0 + tokenTimeLimit) div second * second" by (simp add: second_def tokenTimeLimit_def)
qed (simp_all add: bank_send_def bank_open_def bank_transfer_def bank_of_def migrated_db_def
    start_coins_def coin_limit_def)

lemma demo_session:
  "\<exists>v'. gin_serve (merch_main demo_http demo_grpc demo_argon demo_jwt second [''JWT_SECRET'' \<mapsto> ''k''] []
      demo_orders) ''POST'' ''/api/sendCoin'' (demo_request ''Bearer alice.k'' ''bob 30'') demo_system =
    (Some (200, None), v') \<and>
    bank_of (durable v') = snd (bank_send 1 2 30 (bank_open 1 (bank_of migrated_db)))"
proof -
  obtain w' where l: "gin_serve (merch_main demo_http demo_grpc demo_argon demo_jwt 0 [''JWT_SECRET'' \<mapsto> ''k''] []
      demo_orders) ''POST'' ''/api/auth'' (demo_request [] ''alice pw'') demo_system =
    (Some (200, Some (JObject [(''token'', JString ''alice.k'')])), w')"
    and k: "auth_known (durable (remote w')) ''alice'' =
      Some \<lparr>usr_ID = 1, usr_Username = ''alice'', usr_PasswordHash = ''h:pw''\<rparr>"
    using demo_logged_in by blast
  show ?thesis
    using login_sends [OF demo_http_ok demo_grpc_ok demo_argon_ok demo_jwt_ok demo_sending(1) _ l
        demo_sending(5,6), of "\<lparr>arb_Username = ''alice'', arb_Password = ''pw''\<rparr>"
        "\<lparr>scb_ToUsername = ''bob'', scb_Amount = 30\<rparr>" demo_system "[]" demo_orders] k
      demo_sending(1-4,7)
    by (auto simp: Let_def demo_bound)
qed

text \<open>
  C32. Log in, then spend. In the system that the three \<open>main\<close>s start in one environment, whatever
  it sets: a token from \<open>POST /api/auth\<close>, under any failures, is one that the user registered under
  that name can spend with until it expires, in any later state, and the password was that
  user's. \<open>POST /api/sendCoin\<close> with the token moves coins from that user's account and no other, as
  the abstract transfer says.
\<close>

theorem login_then_send:
  fixes w v :: "'e auth_node store_node"
  assumes lib: "http_ok lib" and rpc: "grpc_ok rpc" and argon: "argon_ok argon" and jwt: "jwt_lib_ok jwt"
    and wf: "wf_auth (durable (remote w))"
    and creds: "bind_authRequestBody lib (gc_body c) = Some creds"
    and login: "gin_serve (merch_main lib rpc argon jwt now env sched ord) ''POST'' ''/api/auth'' c w =
      (Some (200, Some (JObject [(''token'', JString token)])), w1)"
    and later: "later < (now + tokenTimeLimit) div second * second"
    and h: "gin_GetHeader c' authHeaderName = ''Bearer '' @ token" "CHR 0x20 \<notin> set token"
    and body: "bind_sendCoinRequestBody lib (gc_body c') = Some body"
    and v: "calm v" "wf_db (durable v)" "calm (remote v)" "wf_auth (durable (remote v))"
  shows "\<exists>owner. auth_known (durable (remote w1)) (arb_Username creds) = Some owner \<and>
    (\<forall>q. argon_made argon q (usr_PasswordHash owner) \<longrightarrow> arb_Password creds = q) \<and>
    (let u = sint (usr_ID owner); opened = bank_open u (bank_of (durable v));
         receiver = user_found (durable (remote v)) (scb_ToUsername body);
         sending = (\<lambda>t. bank_send u t (uint (scb_Amount body)) opened)
     in \<exists>v'. gin_serve (merch_main lib rpc argon jwt later env sched' ord') ''POST'' ''/api/sendCoin'' c' v =
       (Some (case receiver of
          None \<Rightarrow> (400, Some (errors_H ''user not found''))
        | Some t \<Rightarrow> (case fst (sending t) of None \<Rightarrow> (200, None) | Some r \<Rightarrow> http_send_refusal r)), v') \<and>
       bank_of (durable v') = (case receiver of None \<Rightarrow> opened | Some t \<Rightarrow> snd (sending t)))"
  by (rule login_sends [OF assms])

theorem login_then_send_witness:
  "\<exists>v'. gin_serve (merch_main demo_http demo_grpc demo_argon demo_jwt second [''JWT_SECRET'' \<mapsto> ''k''] []
      demo_orders) ''POST'' ''/api/sendCoin'' (demo_request ''Bearer alice.k'' ''bob 30'') demo_system =
    (Some (200, None), v') \<and>
    accounts (bank_of (durable v')) 1 = Some 970 \<and> accounts (bank_of (durable v')) 2 = Some 1030"
proof -
  obtain w' where l: "gin_serve (merch_main demo_http demo_grpc demo_argon demo_jwt 0 [''JWT_SECRET'' \<mapsto> ''k''] []
      demo_orders) ''POST'' ''/api/auth'' (demo_request [] ''alice pw'') demo_system =
    (Some (200, Some (JObject [(''token'', JString ''alice.k'')])), w')"
    and k: "auth_known (durable (remote w')) ''alice'' =
      Some \<lparr>usr_ID = 1, usr_Username = ''alice'', usr_PasswordHash = ''h:pw''\<rparr>"
    using demo_logged_in by blast
  show ?thesis
    using login_then_send [OF demo_http_ok demo_grpc_ok demo_argon_ok demo_jwt_ok demo_sending(1) _ l
        demo_sending(5,6), of "\<lparr>arb_Username = ''alice'', arb_Password = ''pw''\<rparr>"
        "\<lparr>scb_ToUsername = ''bob'', scb_Amount = 30\<rparr>" demo_system "[]" demo_orders] k
      demo_sending
    by (auto simp: Let_def demo_bound)
qed

end
