(* ===== verification/Merch_Types.thy ===== *)
theory Merch_Types
  imports Merch_System
begin

text \<open>
  The types of the public interface: a typing judgement for the JSON that the gateway writes, the
  reply types of its routes as the \<open>json\<close> tags of \<open>internal/gateway/domain/user.go\<close> and the
  handlers give them, and type soundness: whatever is sent, and whatever fails behind the
  gateway, every reply has the type of its route, so no handler panics.
\<close>

section \<open>Types of JSON values\<close>

datatype json_type = StringT | Uint32T | ArrayT json_type | ObjectT "(string \<times> json_type) list"

inductive has_type :: "json \<Rightarrow> json_type \<Rightarrow> bool" where
  type_string: "has_type (JString s) StringT"
| type_number: "n < 2 ^ 32 \<Longrightarrow> has_type (JNumber n) Uint32T"
| type_array: "(\<And>v. v \<in> set vs \<Longrightarrow> has_type v t) \<Longrightarrow> has_type (JArray vs) (ArrayT t)"
| type_object: "list_all2 (\<lambda>f ft. fst f = fst ft \<and> has_type (snd f) (snd ft)) fs fts \<Longrightarrow>
    has_type (JObject fs) (ObjectT fts)"

inductive_simps has_type_simps [simp]:
  "has_type (JString s) t" "has_type (JNumber n) t" "has_type (JArray vs) t" "has_type (JObject fs) t"
  "has_type v StringT" "has_type v Uint32T"

section \<open>The replies of the routes\<close>

definition transferT :: "string \<Rightarrow> json_type" where
  "transferT who = ObjectT [(who, StringT), (''amount'', Uint32T)]"

definition UserInfoT :: json_type where
  "UserInfoT = ObjectT
     [(''balance'', Uint32T),
      (''inventory'', ArrayT (ObjectT [(''type'', StringT), (''quantity'', Uint32T)])),
      (''coinHistory'', ObjectT
         [(''received'', ArrayT (transferT ''fromUser'')), (''sent'', ArrayT (transferT ''toUser''))])]"

text \<open>
  The page as the example of the README documents it: other keys for the names of an item, of a
  sender and of a receiver.
\<close>

definition ReadmeInfoT :: json_type where
  "ReadmeInfoT = ObjectT
     [(''balance'', Uint32T),
      (''inventory'', ArrayT (ObjectT [(''name'', StringT), (''quantity'', Uint32T)])),
      (''coinHistory'', ObjectT
         [(''received'', ArrayT (transferT ''fromUsername'')), (''sent'', ArrayT (transferT ''toUsername''))])]"

text \<open>What a route answers with 200: a value of a type, or an empty body.\<close>

definition api_routes :: "((string \<times> string) \<times> json_type option) list" where
  "api_routes =
     [((''GET'', ''/healthz''), None),
      ((''POST'', ''/api/auth''), Some (ObjectT [(''token'', StringT)])),
      ((''GET'', ''/api/info''), Some UserInfoT),
      ((''POST'', ''/api/sendCoin''), None),
      ((''GET'', ''/api/buy/:item''), None)]"

definition errorsT :: json_type where
  "errorsT = ObjectT [(''errors'', StringT)]"

fun body_typed :: "json option \<Rightarrow> json_type option \<Rightarrow> bool" where
  "body_typed None None = True"
| "body_typed (Some v) (Some t) = has_type v t"
| "body_typed _ _ = False"

definition reply_typed :: "json_type option \<Rightarrow> nat \<times> json option \<Rightarrow> bool" where
  "reply_typed t r \<longleftrightarrow>
     (fst r = 200 \<and> body_typed (snd r) t) \<or>
     (fst r \<in> {400, 401, 500} \<and> body_typed (snd r) (Some errorsT))"

fun answer_typed :: "json_type option \<Rightarrow> (nat \<times> json option) option \<Rightarrow> bool" where
  "answer_typed t None = False"
| "answer_typed t (Some r) = reply_typed t r"

lemma errors_typed [simp]: "has_type (errors_H msg) errorsT"
  by (simp add: errors_H_def errorsT_def)

lemma unat_uint32_less [simp]: "unat (x :: uint32) < 4294967296"
  using unsigned_less [of x] by simp

lemma page_typed: "has_type (json_UserInfo info) UserInfoT"
  by (auto simp: json_UserInfo_def UserInfoT_def transferT_def)

lemma array_typed_only_empty:
  assumes "\<And>x. \<not> has_type (f x) t"
  shows "(\<forall>v. v \<in> f ` set xs \<longrightarrow> has_type v t) \<longleftrightarrow> xs = []"
  using assms by (cases xs) auto

text \<open>Only a page without items and transfers has also the type that the README shows.\<close>

lemma readme_page:
  "has_type (json_UserInfo info) ReadmeInfoT \<longleftrightarrow>
     gui_Inventory info = [] \<and> gth_Received (gui_TransferHistory info) = [] \<and>
     gth_Sent (gui_TransferHistory info) = []"
  unfolding json_UserInfo_def ReadmeInfoT_def transferT_def by (simp add: array_typed_only_empty)

lemma handleGRPCError_typed: "answer_typed t (gc_reply (handleGRPCError lib c err))"
  by (simp add: handleGRPCError_def gin_JSON_def reply_typed_def split: option.split)

lemma middleware_typed:
  assumes "\<And>c w. answer_typed t (gc_reply (fst (next c w)))"
  shows "answer_typed t (gc_reply (fst (NewAuthMiddleware next c w)))"
  using assms by (simp add: NewAuthMiddleware_def gin_AbortWithStatusJSON_def gin_JSON_def reply_typed_def Let_def)

section \<open>The page is always there\<close>

text \<open>The store always fills the field \<open>CoinHistory\<close> that the adapter reads without a check.\<close>

lemma store_page_complete:
  assumes "msc_GetUserInfo (store_server ch visit parser secret client) ctx req w = (Inr resp, w')"
  shows "uir_CoinHistory resp \<noteq> None"
  using assms
  by (auto simp: store_server_def createGRPCServer_def Let_def chain_interceptors_def
      AuthInterceptorFabric_GetInterceptor_def BalanceInterceptorFabric_GetInterceptor_def
      StoreServerGRPC_GetUserInfo_def convertToUserInfoResponse_def
      split: sum.splits option.splits prod.splits if_splits)

lemma adapter_no_panic:
  "fst (StoreAdapter_GetUserInfo (NewStoreAdapter (gateway_store_client rpc
     (store_server ch visit parser secret client))) ctx w) \<noteq> None"
  using store_page_complete
  by (fastforce simp: StoreAdapter_GetUserInfo_def NewStoreAdapter_def gateway_store_client_def
      NewJWTTokenInterceptor_def rpc_invoke_def convertToUserInfo_def Let_def
      split: sum.splits option.splits prod.splits)

text \<open>
  The checked assertion \<open>ctx.Value(userIdContextKey).(int)\<close> never fails behind the
  interceptors: a handler is only reached in contexts in which it holds.
\<close>

lemma handlers_see_a_user:
  assumes "\<And>ctx u w. retrieveUserID ctx = Inr u \<Longrightarrow> handler ctx req w = handler' ctx req w"
  shows "chain_interceptors auth balance handler ctx req w = chain_interceptors auth balance handler' ctx req w"
  using assms
  by (auto simp: chain_interceptors_def AuthInterceptorFabric_GetInterceptor_def
      BalanceInterceptorFabric_GetInterceptor_def retrieveUserID_def
      split: sum.split option.split prod.split)

section \<open>Properties\<close>

lemma GetInfo_typed:
  "answer_typed (Some UserInfoT)
    (gc_reply (fst (StoreHandler_GetInfo lib (NewStoreHandler (StoreAdapter_StoreService
      (NewStoreAdapter (gateway_store_client rpc (store_server ch visit parser secret client))))) next c w)))"
proof -
  let ?a = "NewStoreAdapter (gateway_store_client rpc (store_server ch visit parser secret client))"
  obtain x w' where x: "StoreAdapter_GetUserInfo ?a (gin_as_context lib c) w = (Some x, w')"
    using adapter_no_panic [of rpc ch visit parser secret client "gin_as_context lib c" w]
    by (cases "StoreAdapter_GetUserInfo ?a (gin_as_context lib c) w") auto
  then show ?thesis
    using handleGRPCError_typed [of _ lib c]
    by (cases x) (auto simp: StoreHandler_GetInfo_def NewStoreHandler_def StoreAdapter_StoreService_def
        gin_JSON_def reply_typed_def page_typed)
qed

lemma empty_replies_typed:
  "answer_typed None (gc_reply (fst (StoreHandler_SendCoin lib sh next c w)))"
  "answer_typed None (gc_reply (fst (StoreHandler_BuyItem lib sh next c w)))"
  "answer_typed None (gc_reply (fst (healthz next c w)))"
  using handleGRPCError_typed [of _ lib c]
  by (auto simp: StoreHandler_SendCoin_def StoreHandler_BuyItem_def healthz_def gin_JSON_def gin_Status_def
      reply_typed_def Let_def split: option.split prod.split)

lemma auth_replies_typed:
  "answer_typed (Some (ObjectT [(''token'', StringT)]))
     (gc_reply (fst (AuthHandler_Authenticate lib h next c w)))"
  by (auto simp: AuthHandler_Authenticate_def gin_JSON_def reply_typed_def
      split: option.split prod.split sum.split)

text \<open>
  C16. Type soundness of the public interface. For every request, every state of the three services
  and every failure behind the gateway, a route answers exactly one reply of its type: with
  200 the token object, the page with its three nested parts, or an empty body; with 400, 401 or 500
  an object with an error text. Numbers fit 32 bits. No handler panics, although the adapter reads
  an optional field of the store's answer unchecked. A method with any other route pattern is a
  404 (gin redirects some URLs to a pattern before that, such as one with a final slash).

  The type of the page is the one of the code's \<open>json\<close> tags. It is not the one that the README
  shows, which has the keys \<open>name\<close>, \<open>fromUsername\<close> and \<open>toUsername\<close> where the code writes \<open>type\<close>,
  \<open>fromUser\<close> and \<open>toUser\<close>: a page has the documented type exactly if it lists no item, nothing
  received and nothing sent.
\<close>

theorem replies_typed:
  "(case map_of api_routes (method, path) of
      None \<Rightarrow> fst (gin_serve (merch lib rpc ch visit parser secret client) method path c w) = Some (404, None)
    | Some t \<Rightarrow>
        answer_typed t (fst (gin_serve (merch lib rpc ch visit parser secret client) method path c w))) \<and>
   (has_type (json_UserInfo info) ReadmeInfoT \<longleftrightarrow>
      gui_Inventory info = [] \<and> gth_Received (gui_TransferHistory info) = [] \<and>
      gth_Sent (gui_TransferHistory info) = [])"
proof (cases "map_of api_routes (method, path)")
  case None
  then show ?thesis unfolding readme_page by (auto simp: api_routes_def merch_def gateway_def gin_serve_def gateway_routes_def
      router_group_def joinPaths_def ItemNameKey_def split: if_splits)
next
  case (Some t)
  note wired = merch_def gateway_def gin_serve_def gateway_routes_def router_group_def joinPaths_def
    ItemNameKey_def case_prod_beta
  from Some consider "method = ''GET''" "path = ''/healthz''" "t = None"
    | "method = ''POST''" "path = ''/api/auth''" "t = Some (ObjectT [(''token'', StringT)])"
    | "method = ''GET''" "path = ''/api/info''" "t = Some UserInfoT"
    | "method = ''POST''" "path = ''/api/sendCoin''" "t = None"
    | "method = ''GET''" "path = ''/api/buy/:item''" "t = None"
    by (auto simp: api_routes_def split: if_splits)
  then have "answer_typed t (fst (gin_serve (merch lib rpc ch visit parser secret client) method path c w))"
    by cases (simp_all add: wired auth_replies_typed empty_replies_typed middleware_typed GetInfo_typed)
  with Some show ?thesis unfolding readme_page by simp
qed

end
