(* ===== verification/Merch_Owners.thy ===== *)
theory Merch_Owners
  imports Merch_Main Merch_Types Store_Books
begin

text \<open>
  Whose coins move. Over everything that can be sent to the running system, a user's coins are
  spent or sent only by requests that carry a token of that user which the store accepts.
\<close>

section \<open>Paying\<close>

text \<open>Nobody but \<open>payer\<close> has spent or sent anything, or holds less than before.\<close>

definition pays_only :: "int option \<Rightarrow> bank \<Rightarrow> bank \<Rightarrow> bool" where
  "pays_only payer b b' \<longleftrightarrow>
     (\<forall>x. Some x \<noteq> payer \<longrightarrow> spent b' x = spent b x \<and> sent b' x = sent b x \<and>
        (\<forall>v. accounts b x = Some v \<longrightarrow> (\<exists>v'. accounts b' x = Some v' \<and> v \<le> v')))"

lemma pays_only_refl [simp]: "pays_only payer b b"
  by (simp add: pays_only_def)

lemma pays_only_trans: "pays_only payer b b' \<Longrightarrow> pays_only payer b' b'' \<Longrightarrow> pays_only payer b b''"
  unfolding pays_only_def by (metis order_trans)

lemma pays_only_open [simp]: "pays_only payer b (bank_open u b)"
  by (auto simp: pays_only_def bank_open_def split: option.split)

lemma pays_only_buy: "bank_buy u item b = Inr b' \<Longrightarrow> pays_only (Some u) b b'"
  by (elim bank_buyE) (auto simp: pays_only_def spent_def sent_def price_of_def cong: if_cong)

lemma pays_only_transfer: "bank_transfer f t a b = Inr b' \<Longrightarrow> 0 \<le> a \<Longrightarrow> pays_only (Some f) b b'"
  by (elim bank_transferE) (auto simp: pays_only_def spent_def sent_def cong: if_cong)

text \<open>The same of databases.\<close>

definition db_pays :: "int option \<Rightarrow> store_db \<Rightarrow> store_db \<Rightarrow> bool" where
  "db_pays payer d d' \<longleftrightarrow> (wf_db d \<longrightarrow> wf_db d' \<and> pays_only payer (bank_of d) (bank_of d'))"

lemma db_pays_refl [simp]: "db_pays payer d d"
  by (simp add: db_pays_def)

lemma db_pays_trans: "db_pays payer d d' \<Longrightarrow> db_pays payer d' d'' \<Longrightarrow> db_pays payer d d''"
  unfolding db_pays_def by (metis pays_only_trans)

section \<open>What a call of the store pays\<close>

lemma Ensure_pays:
  assumes "BalancesRepository_EnsureBalanceCreated store_balances ctx u StartBalance w = (res, w')"
  shows "db_pays payer (durable w) (durable w')"
proof -
  have e: "EnsureBalanceCreated (BalancesRepository_BalanceEnsurer store_balances) ctx u StartBalance w =
    (res, w')" using assms by (simp add: BalancesRepository_BalanceEnsurer_def)
  show ?thesis
  proof (cases res)
    case None
    with pg_ensurer.ensured [of w ctx u w'] e show ?thesis by (simp add: db_pays_def)
  next
    case (Some err)
    with pg_ensurer.ensure_failed [of w ctx u err w'] e show ?thesis by (auto simp: db_pays_def)
  qed
qed

lemma BuyItem_pays:
  assumes "PurchaseCase_BuyItem store_purchaseCase ctx u item w = (res, w')"
  shows "db_pays (Some (sint u)) (durable w) (durable w')"
  unfolding db_pays_def
proof
  assume wf: "wf_db (durable w)"
  show "wf_db (durable w') \<and> pays_only (Some (sint u)) (bank_of (durable w)) (bank_of (durable w'))"
  proof (cases res)
    case None
    from buying.BuyItem_committed [OF wf assms [unfolded store_cases None]] show ?thesis
      by (auto intro: pays_only_buy)
  next
    case (Some err)
    from buying.BuyItem_failed [OF wf assms [unfolded store_cases Some]] wf show ?thesis
      by (auto intro: pays_only_buy)
  qed
qed

lemma SendCoins_pays:
  assumes "SendCoinsCase_SendCoins (store_sendCoinsCase client) ctx f name a w = (res, w')"
  shows "db_pays (Some (sint f)) (durable w) (durable w')"
  unfolding db_pays_def
proof
  assume wf: "wf_db (durable w)"
  have moved: "pays_only (Some (sint f)) b b'"
    if "bank_transfer (sint f) t (uint a) (bank_open t b) = Inr b'" for t b b'
    using pays_only_trans [OF pays_only_open pays_only_transfer [OF that]] by simp
  show "wf_db (durable w') \<and> pays_only (Some (sint f)) (bank_of (durable w)) (bank_of (durable w'))"
  proof (cases res)
    case None
    from sending.SendCoins_committed [OF wf assms [unfolded store_cases None]] show ?thesis
      using moved by blast
  next
    case (Some err)
    from sending.SendCoins_failed [OF wf assms [unfolded store_cases Some]] wf show ?thesis
      using moved by (metis pays_only_open pays_only_refl)
  qed
qed

lemma chain_pays:
  assumes handler: "\<And>u ctx w r w'. caller parser secret ctx0 = Some u \<Longrightarrow> retrieveUserID ctx = Inr u \<Longrightarrow>
      handler ctx req w = (r, w') \<Longrightarrow> db_pays (Some (sint u)) (durable w) (durable w')"
    and run: "chain_interceptors (store_auth parser secret) store_open handler ctx0 req w = (res, w')"
  shows "db_pays (map_option sint (caller parser secret ctx0)) (durable w) (durable w')"
proof (cases "caller parser secret ctx0")
  case None
  with run show ?thesis
    by (auto simp: caller_def chain_interceptors_def AuthInterceptorFabric_GetInterceptor_def
        NewAuthInterceptorFabric_def split: sum.splits)
next
  case (Some u)
  obtain r w1 where e: "BalancesRepository_EnsureBalanceCreated store_balances
      (WithValue ctx0 userIdContextKey (AnyInt u)) u StartBalance w = (r, w1)" by fastforce
  from run e Some handler [OF Some retrieveUserID_caller] show ?thesis unfolding chain_caller [OF Some]
    by (cases r) (auto dest: Ensure_pays intro: db_pays_trans)
qed

lemma after_call_pays:
  "db_pays (map_option sint (caller parser secret ctx)) (durable w)
     (durable (after_call (store_server ch visit parser secret client) ctx call w))"
proof (cases call)
  case GetUserInfoCall
  show ?thesis unfolding GetUserInfoCall after_call.simps store_server_methods
    by (rule chain_pays [OF _ surjective_pairing])
      (auto simp: StoreServerGRPC_GetUserInfo_def NewStoreServerGRPC_def Let_def
        dest!: GetUserInfo_durable split: sum.splits prod.splits if_splits)
next
  case (SendCoinsCall req)
  show ?thesis unfolding SendCoinsCall after_call.simps store_server_methods
    by (rule chain_pays [OF _ surjective_pairing])
      (auto simp: StoreServerGRPC_SendCoins_def NewStoreServerGRPC_def Let_def
        dest!: SendCoins_pays split: sum.splits prod.splits option.splits if_splits)
next
  case (BuyItemCall req)
  show ?thesis unfolding BuyItemCall after_call.simps store_server_methods
    by (rule chain_pays [OF _ surjective_pairing])
      (auto simp: StoreServerGRPC_BuyItem_def NewStoreServerGRPC_def Let_def
        dest!: BuyItem_pays split: sum.splits prod.splits option.splits if_splits)
qed

section \<open>What a request pays\<close>

lemma route_cases:
  assumes "map_of api_routes (method, path) = Some t"
  obtains "method = ''GET''" "path = ''/healthz''" | "method = ''POST''" "path = ''/api/auth''"
  | "(method, path) \<in> set protected_routes"
  using assms by (auto simp: api_routes_def protected_routes_def split: if_splits)

lemma serve_other:
  "map_of api_routes (method, path) = None \<Longrightarrow>
   snd (gin_serve (merch lib rpc ch visit parser secret client) method path c w) = w"
  by (auto simp: api_routes_def merch_def gateway_def gin_serve_def gateway_routes_def
      router_group_def joinPaths_def ItemNameKey_def split: if_splits)

lemma serve_healthz:
  "snd (gin_serve (merch lib rpc ch visit parser secret client) ''GET'' ''/healthz'' c w) = w"
  by (simp add: merch_def gateway_def gin_serve_def gateway_routes_def healthz_def)

lemma serve_auth:
  "durable (snd (gin_serve (merch lib rpc ch visit parser secret client) ''POST'' ''/api/auth'' c w)) = durable w"
  by (auto simp: gateway_defs AuthHandler_Authenticate_def GwAuthAdapter_Authenticate_def
      remote_AuthServiceClient_def remote_call_def Let_def split: option.split prod.split sum.split)

text \<open>A request changes the store's database by a call with its own token, or not at all.\<close>

lemma serve_effect:
  assumes lib: "http_ok lib"
    and run: "gin_serve (merch lib rpc ch visit parser secret client) method path c w = (reply, w')"
  shows "durable w' = durable w \<or>
    (\<exists>token call. bearer_token (gin_GetHeader c authHeaderName) = Some token \<and>
       durable w' = durable (after_call (store_server ch visit parser secret client)
         (call_ctx lib rpc c token) call w))"
proof (cases "map_of api_routes (method, path)")
  case None
  with serve_other [OF None, of lib rpc ch visit parser secret client c w] run show ?thesis by simp
next
  case (Some t)
  then show ?thesis
  proof (cases rule: route_cases)
    case 1
    with serve_healthz [of lib rpc ch visit parser secret client c w] run show ?thesis by simp
  next
    case 2
    with serve_auth [of lib rpc ch visit parser secret client c w] run show ?thesis by simp
  next
    case 3
    show ?thesis
    proof (cases "bearer_token (gin_GetHeader c authHeaderName)")
      case None
      with serve_unauthorized [OF 3 None, of lib rpc ch visit parser secret client w] run show ?thesis by simp
    next
      case b: (Some token)
      let ?after = "\<lambda>call. after_call (store_server ch visit parser secret client) (call_ctx lib rpc c token) call w"
      from 3 consider "method = ''GET''" "path = ''/api/info''"
        | "method = ''POST''" "path = ''/api/sendCoin''" | "method = ''GET''" "path = ''/api/buy/:item''"
        by (auto simp: protected_routes_def)
      then have "durable w' = durable w \<or> (\<exists>call. durable w' = durable (?after call))"
      proof cases
        case 1
        with run have "w' = ?after GetUserInfoCall"
          by (auto simp: serve_GetInfo [OF lib b] split: prod.splits sum.splits option.splits)
        then show ?thesis by blast
      next
        case 2
        show ?thesis
        proof (cases "bind_sendCoinRequestBody lib (gc_body c)")
          case (Some body)
          with run 2 have "w' = ?after (SendCoinsCall
              \<lparr>scq_ToUsername = scb_ToUsername body, scq_Amount = scb_Amount body\<rparr>)"
            by (auto simp: serve_SendCoin [OF lib b] split: prod.splits sum.splits)
          then show ?thesis by blast
        qed (use run 2 in \<open>simp add: serve_SendCoin [OF lib b]\<close>)
      next
        case 3
        with run have "w' = ?after (BuyItemCall \<lparr>biq_ItemName = gin_Param c ItemNameKey\<rparr>)"
          by (auto simp: serve_BuyItem [OF lib b] split: prod.splits sum.splits)
        then show ?thesis by blast
      qed
      with b show ?thesis by blast
    qed
  qed
qed

section \<open>The running system\<close>

text \<open>
  A request with the time at which it is served, and the states that the system started in one
  environment can reach by any requests, whatever fails and whatever the map orders and
  schedules are.
\<close>

record served =
  served_at :: int
  served_method :: string
  served_path :: string
  served_request :: gin_context

inductive merch_run ::
  "http_lib \<Rightarrow> grpc_lib \<Rightarrow> 'e argon_lib \<Rightarrow> jwt_lib \<Rightarrow> environ \<Rightarrow> served list \<Rightarrow> 'e auth_node store_node \<Rightarrow> bool"
  for lib rpc argon jwt env where
  merch_start: "durable w = migrated_db \<Longrightarrow> merch_run lib rpc argon jwt env [] w"
| merch_world: "merch_run lib rpc argon jwt env rs w \<Longrightarrow> durable w' = durable w \<Longrightarrow>
    merch_run lib rpc argon jwt env rs w'"
| merch_serve: "merch_run lib rpc argon jwt env rs w \<Longrightarrow>
    gin_serve (merch_main lib rpc argon jwt (served_at r) env sched ord) (served_method r) (served_path r)
      (served_request r) w = (reply, w') \<Longrightarrow>
    merch_run lib rpc argon jwt env (rs @ [r]) w'"

text \<open>The user whose token the request carries, if the store accepts it at that time.\<close>

definition token_user :: "jwt_lib \<Rightarrow> string \<Rightarrow> served \<Rightarrow> int option" where
  "token_user jwt secret r =
     (case bearer_token (gin_GetHeader (served_request r) authHeaderName) of
        None \<Rightarrow> None
      | Some token \<Rightarrow>
          (case JWTTokenParser_ParseToken jwt (served_at r) secret token of
             Inl _ \<Rightarrow> None
           | Inr claims \<Rightarrow> Some (sint (cl_UserID claims))))"

lemma request_pays:
  assumes lib: "http_ok lib" and rpc: "grpc_ok rpc"
    and run: "gin_serve (merch_main lib rpc argon jwt (served_at r) env sched ord) (served_method r)
      (served_path r) (served_request r) w = (reply, w')"
  shows "db_pays (token_user jwt (ac_SecretKey (snd (auth_main_config env))) r) (durable w) (durable w')"
    and "db_steps (durable w) (durable w')"
proof -
  let ?secret = "ac_SecretKey (snd (auth_main_config env))"
  let ?parser = "NewJWTTokenParser jwt (served_at r)"
  let ?c = "served_request r"
  from serve_effect [OF lib run [unfolded merch_main_eq merch_system_def]]
  consider "durable w' = durable w"
    | token ch visit client call where "bearer_token (gin_GetHeader ?c authHeaderName) = Some token"
      "durable w' = durable (after_call (store_server ch visit ?parser ?secret client)
         (call_ctx lib rpc ?c token) call w)" by blast
  then have "db_pays (token_user jwt ?secret r) (durable w) (durable w') \<and> db_steps (durable w) (durable w')"
  proof cases
    case (2 token ch visit client call)
    have "map_option sint (caller ?parser ?secret (call_ctx lib rpc ?c token)) = token_user jwt ?secret r"
      using 2(1) by (simp add: caller_call_ctx [OF lib rpc] token_user_def NewJWTTokenParser_def split: sum.split)
    with 2(2) after_call_pays [of ?parser ?secret "call_ctx lib rpc ?c token" w ch visit client call]
      after_call_steps show ?thesis by simp
  qed simp
  then show "db_pays (token_user jwt ?secret r) (durable w) (durable w')" "db_steps (durable w) (durable w')"
    by simp_all
qed

section \<open>Properties\<close>

text \<open>
  C2. Coins only move by their owner's token. Start the system in any environment on the migrated
  database, send it any requests on any routes at any times, and let anything fail: in every state
  the books balance, and a user who has ever spent or sent a coin has sent a request with a
  token that the store accepts as that user's at that time.
\<close>

theorem coins_need_token:
  assumes lib: "http_ok lib" and rpc: "grpc_ok rpc"
    and run: "merch_run lib rpc argon jwt env rs w"
  shows "wf_db (durable w) \<and> audit (bank_of (durable w)) \<and>
    (\<forall>x. spent (bank_of (durable w)) x \<noteq> 0 \<or> sent (bank_of (durable w)) x \<noteq> 0 \<longrightarrow>
       (\<exists>r \<in> set rs. token_user jwt (ac_SecretKey (snd (auth_main_config env))) r = Some x))"
proof -
  let ?user = "token_user jwt (ac_SecretKey (snd (auth_main_config env)))"
  let ?paid = "\<lambda>w x. spent (bank_of (durable w)) x \<noteq> 0 \<or> sent (bank_of (durable w)) x \<noteq> 0"
  have "wf_db (durable w) \<and> bank_steps (bank_of migrated_db) (bank_of (durable w)) \<and>
    (\<forall>x. ?paid w x \<longrightarrow> (\<exists>r \<in> set rs. ?user r = Some x))"
    using run
  proof (induction rule: merch_run.induct)
    case (merch_start w)
    moreover have "spent (bank_of migrated_db) x = 0 \<and> sent (bank_of migrated_db) x = 0" for x
      by (simp add: bank_of_def migrated_db_def spent_def sent_def)
    ultimately show ?case by (simp add: wf_migrated_db steps_refl)
  next
    case (merch_world rs w w')
    then show ?case by simp
  next
    case (merch_serve rs w r sched ord reply w')
    note pays = request_pays [OF lib rpc merch_serve(2)]
    from pays merch_serve.IH have wf: "wf_db (durable w')"
      and p: "pays_only (?user r) (bank_of (durable w)) (bank_of (durable w'))"
      and "bank_steps (bank_of (durable w)) (bank_of (durable w'))"
      by (auto simp: db_pays_def db_steps_def)
    then have "bank_steps (bank_of migrated_db) (bank_of (durable w'))"
      using merch_serve.IH bank_steps_trans by blast
    moreover have "\<exists>r' \<in> set (rs @ [r]). ?user r' = Some x" if "?paid w' x" for x
      using that p merch_serve.IH by (cases "?user r = Some x") (auto simp: pays_only_def)
    ultimately show ?case using wf by blast
  qed
  with audit_steps [OF _ audit_migrated_db] show ?thesis by blast
qed

theorem coins_need_token_witness:
  "\<exists>r w. merch_run demo_http demo_grpc demo_argon demo_jwt [''JWT_SECRET'' \<mapsto> ''k''] [r] w \<and>
    wf_db (durable w) \<and> sent (bank_of (durable w)) 1 = 30 \<and> token_user demo_jwt ''k'' r = Some 1"
proof -
  let ?env = "[''JWT_SECRET'' \<mapsto> ''k'']"
  let ?r = "\<lparr>served_at = second, served_method = ''POST'', served_path = ''/api/sendCoin'',
    served_request = demo_request ''Bearer alice.k'' ''bob 30''\<rparr>"
  obtain w where w: "gin_serve (merch_main demo_http demo_grpc demo_argon demo_jwt second ?env [] demo_orders)
      ''POST'' ''/api/sendCoin'' (demo_request ''Bearer alice.k'' ''bob 30'') demo_system = (Some (200, None), w)"
    and b: "bank_of (durable w) = snd (bank_send 1 2 30 (bank_open 1 (bank_of migrated_db)))"
    using demo_session by blast
  have "merch_run demo_http demo_grpc demo_argon demo_jwt ?env [] demo_system"
    by (rule merch_start) simp
  then have run: "merch_run demo_http demo_grpc demo_argon demo_jwt ?env ([] @ [?r]) w"
    by (rule merch_serve) (use w in simp)
  have s: "sent (bank_of (durable w)) 1 = 30"
    unfolding b by (simp add: bank_send_def bank_open_def bank_transfer_def bank_of_def migrated_db_def
        start_coins_def coin_limit_def sent_def)
  have k: "ac_SecretKey (snd (auth_main_config ?env)) = ''k''"
    by (simp add: auth_main_config_def Let_def TrySetFromEnv_def env_names)
  from coins_need_token [OF demo_http_ok demo_grpc_ok run] s k
  have "wf_db (durable w)" "token_user demo_jwt ''k'' ?r = Some 1" by auto
  with run s show ?thesis by (metis append_Nil)
qed

end
