(* ===== verification/Auth_Concurrency.thy ===== *)
theory Auth_Concurrency
  imports Auth_Login
begin

text \<open>
  Logins that run at the same time. A login is split at its calls of the database: it looks the
  name up, and if the name is new it hashes the password and creates the user. The requests are
  goroutines over one database that take their steps in any order; each leaves its result in its
  own slot. (A request does not cancel the others, so no goroutine returns an error to the group.)
\<close>

section \<open>A login as a goroutine\<close>

type_synonym login_results = "(error + string) option list"

definition issue_token :: "'w Authenticator \<Rightarrow> UserInfo \<Rightarrow> error + string" where
  "issue_token a u =
     IssueToken (ac_tokenIssuer a) (ac_secretKey a) (usr_ID u) (usr_Username u) tokenTimeLimit"

definition create_task ::
  "'w Authenticator \<Rightarrow> nat \<Rightarrow> string \<Rightarrow> string \<Rightarrow> (login_results, 'w) goroutine" where
  "create_task a i username hashedPassword = Calling (\<lambda>ctx slots w.
     (case CreateUser (ac_usersRepository a) ctx username hashedPassword w of
        (Inl err, w) \<Rightarrow> (Returned None, slots[i := Some (Inl err)], w)
      | (Inr userInfo, w) \<Rightarrow> (Returned None, slots[i := Some (issue_token a userInfo)], w)))"

definition login_task ::
  "'w Authenticator \<Rightarrow> nat \<Rightarrow> string \<Rightarrow> string \<Rightarrow> (login_results, 'w) goroutine" where
  "login_task a i username password = Calling (\<lambda>ctx slots w.
     (case TryGetUserInfo (ac_usersRepository a) ctx username w of
        (Inl err, w) \<Rightarrow> (Returned None, slots[i := Some (Inl err)], w)
      | (Inr None, w) \<Rightarrow>
          (case HashPassword (ac_passwordHasher a) password w of
             (Inl err, w) \<Rightarrow> (Returned None, slots[i := Some (Inl err)], w)
           | (Inr hashedPassword, w) \<Rightarrow> (create_task a i username hashedPassword, slots, w))
      | (Inr (Some userInfo), w) \<Rightarrow>
          (case VerifyPassword (ac_passwordHasher a) password (usr_PasswordHash userInfo) of
             Inl err \<Rightarrow> (Returned None, slots[i := Some (Inl err)], w)
           | Inr valid \<Rightarrow>
               (Returned None, slots[i := Some
                  (if \<not> valid
                   then Inl (AuthError (CredentialsMismatchError ''username or password is incorrect''))
                   else issue_token a userInfo)], w))))"

text \<open>Several logins: \<open>rs\<close> lists the names and passwords.\<close>

definition logins :: "'w Authenticator \<Rightarrow> (string \<times> string) list \<Rightarrow> (login_results, 'w) group" where
  "logins a rs = group_start (replicate (length rs) None)
     (map (\<lambda>i. login_task a i (fst (rs ! i)) (snd (rs ! i))) [0..<length rs])"

text \<open>
  The bridge from the model to the code. A login that is not interrupted is the code: its two steps leave the result and the world
  that \<open>Authenticate\<close> returns.
\<close>

theorem login_task_is_code:
  "case group_run ctx [0, 0] (logins a [(username, password)], w) of
     (g, w') \<Rightarrow> (shared g, w') =
       (case Authenticator_Authenticate a ctx username password w of (r, w'') \<Rightarrow> ([Some r], w''))"
  by (auto simp: logins_def group_start_def group_step_def login_task_def create_task_def
      Authenticator_Authenticate_def issue_token_def Let_def group_ctx_def
      split: prod.split sum.split option.split)

section \<open>Any interleaving\<close>

context login
begin

text \<open>A login that has not begun, has found its name to be new, or is done.\<close>

definition login_at ::
  "'d \<Rightarrow> nat \<Rightarrow> string \<times> string \<Rightarrow> (login_results, 'w) goroutine \<Rightarrow> (error + string) option \<Rightarrow> bool" where
  "login_at d i r t slot \<longleftrightarrow> (case r of (n, p) \<Rightarrow>
     t = login_task auth_case i n p \<and> slot = None \<or>
     (\<exists>h. t = create_task auth_case i n h \<and> made p h \<and> slot = None) \<or>
     t = Returned None \<and> (\<exists>res. slot = Some res \<and>
       (\<forall>tok. res = Inr tok \<longrightarrow> (\<exists>u. known d n = Some u \<and> issue_token auth_case u = Inr tok \<and>
          (VerifyPassword hasher p (usr_PasswordHash u) = Inr True \<or> made p (usr_PasswordHash u))))))"

definition login_inv :: "'d \<Rightarrow> (string \<times> string) list \<Rightarrow> (login_results, 'w) group \<Rightarrow> 'w \<Rightarrow> bool" where
  "login_inv d0 rs g w \<longleftrightarrow>
     wf (durable w) \<and> length (tasks g) = length rs \<and> length (shared g) = length rs \<and> first_err g = None \<and>
     known d0 \<subseteq>\<^sub>m known (durable w) \<and>
     (\<forall>n u. known (durable w) n = Some u \<longrightarrow> known d0 n = Some u \<or>
        usr_Username u = n \<and> (\<exists>p. (n, p) \<in> set rs \<and> made p (usr_PasswordHash u))) \<and>
     (\<forall>i < length rs. login_at (durable w) i (rs ! i) (tasks g ! i) (shared g ! i))"

lemma login_at_mono:
  "login_at d i r t slot \<Longrightarrow> known d \<subseteq>\<^sub>m known d' \<Longrightarrow> login_at d' i r t slot"
  unfolding login_at_def by (auto simp: map_le_def dom_def split: prod.splits)

text \<open>One step of one login.\<close>

definition user_added :: "'d \<Rightarrow> string \<Rightarrow> string \<Rightarrow> 'd \<Rightarrow> bool" where
  "user_added d n p d' \<longleftrightarrow> wf d' \<and> (known d' = known d \<or>
     (\<exists>u. known d n = None \<and> known d' = (known d)(n \<mapsto> u) \<and> usr_Username u = n \<and>
        made p (usr_PasswordHash u)))"

lemma user_added_grows: "user_added d n p d' \<Longrightarrow> known d \<subseteq>\<^sub>m known d'"
  by (auto simp: user_added_def map_le_def)

lemma login_call:
  assumes wf: "wf (durable w)" and at: "login_at (durable w) i (n, p) (Calling f) slot"
    and f: "f ctx v w = (t, v', w')" and i: "i < length v" "slot = v ! i"
  shows "user_added (durable w) n p (durable w') \<and> returned_error t = None \<and>
    login_at (durable w') i (n, p) t (v' ! i) \<and> (\<exists>x. v' = v[i := x])"
proof -
  have none: "v ! i = None" using at i by (auto simp: login_at_def)
  then have v: "v = v[i := None]" using list_update_id [of v i] by simp
  from at consider (ask) "Calling f = login_task auth_case i n p"
    | (create) h where "Calling f = create_task auth_case i n h" "made p h"
    by (auto simp: login_at_def)
  then show ?thesis
  proof cases
    case create
    obtain rc w1 where c: "CreateUser repo ctx n h w = (rc, w1)" by fastforce
    show ?thesis
    proof (cases rc)
      case (Inl e)
      with create f c i create_failed [OF wf c [unfolded Inl]] wf show ?thesis
        by (auto simp: create_task_def user_added_def login_at_def)
    next
      case (Inr u)
      with create f c i created [OF wf c [unfolded Inr]] show ?thesis
        by (auto simp: create_task_def user_added_def login_at_def)
    qed
  next
    case ask
    obtain r0 w1 where t: "TryGetUserInfo repo ctx n w = (r0, w1)" by fastforce
    have d1: "durable w1 = durable w" using t by (rule try_keeps)
    have same: "user_added (durable w) n p (durable w)" using wf by (simp add: user_added_def)
    show ?thesis
    proof (cases r0)
      case (Inl e)
      with ask f t i d1 same show ?thesis by (auto simp: login_task_def login_at_def)
    next
      case (Inr found)
      have k: "found = known (durable w) n" using try_found [OF wf t [unfolded Inr]] .
      show ?thesis
      proof (cases found)
        case (Some u)
        have known: "known (durable w) n = Some u" using k Some by simp
        have "f ctx v w = (case VerifyPassword hasher p (usr_PasswordHash u) of
            Inl err \<Rightarrow> (Returned None, v[i := Some (Inl err)], w1)
          | Inr valid \<Rightarrow> (Returned None, v[i := Some
              (if \<not> valid
               then Inl (AuthError (CredentialsMismatchError ''username or password is incorrect''))
               else issue_token auth_case u)], w1))"
          using ask t unfolding Inr Some by (simp add: login_task_def)
        with f i d1 same known show ?thesis
          by (auto simp: login_at_def split: sum.splits if_splits)
      next
        case None
        obtain rh w2 where h: "HashPassword hasher p w1 = (rh, w2)" by fastforce
        have d2: "durable w2 = durable w" using hash_keeps [OF h] d1 by simp
        show ?thesis
        proof (cases rh)
          case (Inl e)
          with ask f t Inr None h i d2 same show ?thesis by (auto simp: login_task_def login_at_def)
        next
          case r: (Inr hash)
          have t': "t = create_task auth_case i n hash" "v' = v" "w' = w2"
            using ask f t Inr None h r by (auto simp: login_task_def)
          with hashed [OF h [unfolded r]] none d2 same v show ?thesis
            by (auto simp: login_at_def create_task_def)
        qed
      qed
    qed
  qed
qed

lemma login_inv_step:
  assumes inv: "login_inv d0 rs g w" and step: "group_step ctx i (g, w) = (g', w')"
  shows "login_inv d0 rs g' w'"
  using step
proof (cases rule: group_step_cases)
  case idle
  with inv show ?thesis by simp
next
  case (call f t s)
  have wf: "wf (durable w)" and len: "length (tasks g) = length rs" "length (shared g) = length rs"
    and err: "first_err g = None" and grown: "known d0 \<subseteq>\<^sub>m known (durable w)"
    and new: "\<And>n u. known (durable w) n = Some u \<Longrightarrow> known d0 n = Some u \<or>
      usr_Username u = n \<and> (\<exists>p. (n, p) \<in> set rs \<and> made p (usr_PasswordHash u))"
    and all: "\<And>j. j < length rs \<Longrightarrow> login_at (durable w) j (rs ! j) (tasks g ! j) (shared g ! j)"
    using inv unfolding login_inv_def by blast+
  have i: "i < length rs" using call(1) len by simp
  obtain n p where r: "rs ! i = (n, p)" by fastforce
  have f: "f ctx (shared g) w = (t, s, w')" using call(3) err by simp
  have "login_at (durable w) i (n, p) (Calling f) (shared g ! i)" using all [OF i] call(2) r by simp
  from login_call [OF wf this f] i len
  obtain x where u: "user_added (durable w) n p (durable w')" "returned_error t = None"
    and at: "login_at (durable w') i (n, p) t (s ! i)" and s: "s = (shared g)[i := x]" by auto
  note grows = user_added_grows [OF u(1)]
  have "login_at (durable w') j (rs ! j) ((tasks g)[i := t] ! j) (s ! j)" if "j < length rs" for j
    using at r s that len login_at_mono [OF all [OF that] grows] by (cases "j = i") auto
  moreover have "known d0 n' = Some v \<or>
      usr_Username v = n' \<and> (\<exists>p. (n', p) \<in> set rs \<and> made p (usr_PasswordHash v))"
    if "known (durable w') n' = Some v" for n' v
    using u(1) that new [of n' v] nth_mem [OF i] r by (auto simp: user_added_def split: if_splits)
  moreover have "wf (durable w')" using u(1) by (simp add: user_added_def)
  ultimately show ?thesis
    using call(4) u(2) len s err map_le_trans [OF grown grows] by (simp add: login_inv_def)
qed

lemma logins_run:
  assumes "wf (durable w)" "group_run ctx sched (logins auth_case rs, w) = (g, w')"
  shows "login_inv (durable w) rs g w'"
  by (rule group_run_invariant [OF login_inv_step _ assms(2)])
    (use assms(1) in \<open>auto simp: login_inv_def logins_def group_start_def login_at_def\<close>)

end

lemma wired_logins:
  "logins (auth_authenticator lib issuer secret) rs = logins (NewAuthenticator (PgUsersRepository_UsersRepository auth_users)
     (ArgonPasswordHasher_PasswordHasher (NewArgonPasswordHasher lib)) issuer secret) rs"
  by (simp add: auth_authenticator_def)

lemma login_at_wired:
  assumes lib: "argon_ok lib" and at: "auth_login.login_at lib issuer secret d i (n, p) t (Some (Inr tok))"
  shows "\<exists>u. auth_known d n = Some u \<and> IssueToken issuer secret (usr_ID u) (usr_Username u) tokenTimeLimit = Inr tok \<and>
    (\<forall>q. argon_made lib q (usr_PasswordHash u) \<longrightarrow> p = q)"
proof -
  from at obtain u where u: "auth_known d n = Some u"
    "IssueToken issuer secret (usr_ID u) (usr_Username u) tokenTimeLimit = Inr tok"
    and v: "lib_ComparePasswordAndHash lib p (usr_PasswordHash u) = Inr True \<or> argon_made lib p (usr_PasswordHash u)"
    unfolding auth_login.login_at_def
    by (auto simp: issue_token_def NewAuthenticator_def ArgonPasswordHasher_PasswordHasher_def
        NewArgonPasswordHasher_def ArgonPasswordHasher_VerifyPassword_def)
  have "p = q" if "argon_made lib q (usr_PasswordHash u)" for q
    using v argon_verify [OF lib that, of p] argon_verify [OF lib, of p "usr_PasswordHash u" p] by auto
  with u show ?thesis by blast
qed

section \<open>Properties\<close>

text \<open>
  C21. Concurrent logins are safe. However any number of logins interleave, under any failures: no
  user is ever changed or removed; every user that is new carries a name that was asked for, with a
  hash of the password that came with it; and whoever holds a token gave the password of the
  registered user the token is for. So two logins for one new name cannot both become its owner
  with different passwords.
\<close>

theorem concurrent_logins_safe:
  assumes lib: "argon_ok lib" and wf: "wf_auth (durable w)"
    and run: "group_run ctx sched (logins (auth_authenticator lib issuer secret) rs, w) = (g, w')"
  shows "wf_auth (durable w') \<and> auth_known (durable w) \<subseteq>\<^sub>m auth_known (durable w') \<and>
    (\<forall>n u. auth_known (durable w') n = Some u \<longrightarrow> auth_known (durable w) n = Some u \<or>
       usr_Username u = n \<and> (\<exists>p. (n, p) \<in> set rs \<and> argon_made lib p (usr_PasswordHash u))) \<and>
    (\<forall>i < length rs. \<forall>tok. shared g ! i = Some (Inr tok) \<longrightarrow>
       (\<exists>u. auth_known (durable w') (fst (rs ! i)) = Some u \<and>
          IssueToken issuer secret (usr_ID u) (usr_Username u) tokenTimeLimit = Inr tok \<and>
          (\<forall>q. argon_made lib q (usr_PasswordHash u) \<longrightarrow> snd (rs ! i) = q)))"
proof -
  have inv: "auth_login.login_inv lib issuer secret (durable w) rs g w'"
    using auth_login.logins_run [OF wf run [unfolded wired_logins]] .
  have "\<exists>u. auth_known (durable w') (fst (rs ! i)) = Some u \<and>
      IssueToken issuer secret (usr_ID u) (usr_Username u) tokenTimeLimit = Inr tok \<and>
      (\<forall>q. argon_made lib q (usr_PasswordHash u) \<longrightarrow> snd (rs ! i) = q)"
    if "i < length rs" "shared g ! i = Some (Inr tok)" for i tok
  proof -
    have "auth_login.login_at lib issuer secret (durable w') i (fst (rs ! i), snd (rs ! i)) (tasks g ! i)
        (Some (Inr tok))"
      using inv that unfolding auth_login.login_inv_def by (metis prod.collapse)
    from login_at_wired [OF lib this] show ?thesis .
  qed
  with inv show ?thesis by (simp add: auth_login.login_inv_def)
qed

text \<open>
  C36. The first login can fail for a user who does everything right. When two first logins for a
  new name overlap (a second click, a retry), both find the name free and the second one to create
  the user hits the unique constraint: it is no mismatch, so the handler reports it as an
  internal error, although the same password would be accepted a moment later.
\<close>

theorem first_logins_race:
  assumes w: "calm w" "\<not> cancelled ctx" "wf_auth (durable w)"
    and new: "auth_known (durable w) n = None" "char_length n \<le> 50" "int4_range (next_id (durable w))"
    and hash: "lib_CreateHash lib p optimizedParams (remote w) = (Inr h, e)"
      "lib_CreateHash lib p optimizedParams e = (Inr h', e')"
  shows "\<exists>g w'. group_run ctx [0, 1, 0, 1] (logins (auth_authenticator lib issuer secret) [(n, p), (n, p)], w) = (g, w') \<and>
    shared g = [Some (IssueToken issuer secret (word_of_int (next_id (durable w))) n tokenTimeLimit),
      Some (Inl unique_violation)] \<and>
    \<not> errors_Is unique_violation (AuthError (CredentialsMismatchError [])) \<and>
    auth_known (durable w') n =
      Some \<lparr>usr_ID = word_of_int (next_id (durable w)), usr_Username = n, usr_PasswordHash = h\<rparr>"
proof -
  let ?a = "auth_authenticator lib issuer secret"
  let ?u = "\<lparr>usr_ID = word_of_int (next_id (durable w)), usr_Username = n, usr_PasswordHash = h\<rparr>"
  define w1 where "w1 = w\<lparr>remote := e\<rparr>"
  define w2 where "w2 = w\<lparr>remote := e'\<rparr>"
  have w12: "calm w1" "durable w1 = durable w" "calm w2" "durable w2 = durable w" "remote w1 = e"
    using w by (simp_all add: w1_def w2_def calm_def)
  have fresh: "find_user (durable w) n = None" using new(1) by (simp add: auth_known_def)
  obtain d rs where c: "sql_create_user n h (durable w) = Inr (rs, d)"
    using new fresh by (auto simp: sql_create_user_def find_user_None Let_def)
  note cd = sql_create_user_Inr [OF c]
  define w3 where "w3 = w2\<lparr>durable := d\<rparr>"
  have w3: "calm w3" "durable w3 = d" using w12 by (simp_all add: w3_def calm_def)
  have dup: "sql_create_user n h' d = Inl unique_violation"
    using cd(2,5) by (simp add: sql_create_user_def)
  have ask: "login_task ?a i n p = Calling f \<Longrightarrow> f ctx v w = (create_task ?a i n h, v, w1)"
    "login_task ?a i n p = Calling f \<Longrightarrow> f ctx v w1 = (create_task ?a i n h', v, w2)" for i f v
    using w w12 new(1) hash
    by (auto simp: login_task_def PgUsersRepository_UsersRepository_def TryGetUserInfo_calm remote_call_def
        w1_def w2_def)
  have create: "create_task ?a i n h = Calling f \<Longrightarrow> f ctx v w2 =
      (Returned None, v[i := Some (IssueToken issuer secret (usr_ID ?u) n tokenTimeLimit)], w3)"
    "create_task ?a i n h' = Calling f \<Longrightarrow> f ctx v w3 = (Returned None, v[i := Some (Inl unique_violation)], w3)"
    for i f v
    using w w12 w3 c cd(4) dup
    by (auto simp: create_task_def PgUsersRepository_UsersRepository_def UsersRepository_CreateUser_def
        NewUsersRepository_def auth_QueryRow_calm auth_query_cases first_row_def user_info_def issue_token_def w3_def)
  obtain f0 f1 g0 g1 where t: "login_task ?a 0 n p = Calling f0" "login_task ?a (Suc 0) n p = Calling f1"
    "create_task ?a 0 n h = Calling g0" "create_task ?a (Suc 0) n h' = Calling g1"
    by (simp add: login_task_def create_task_def)
  have "auth_known d n = Some ?u" using cd(7) by (simp add: auth_known_def row_info_def)
  moreover have "\<not> errors_Is unique_violation (AuthError (CredentialsMismatchError []))"
    by (simp add: unique_violation_def)
  ultimately show ?thesis using w3
    by (simp add: logins_def group_start_def group_step_def t ask(1) [OF t(1)] ask(2) [OF t(2)] create(1) [OF t(3)]
        create(2) [OF t(4)] group_ctx_def)
qed

text \<open>Carol presses the button twice.\<close>

lemma carol_new: "auth_known (durable (demo_auth_world [])) ''carol'' = None" "char_length ''carol'' \<le> 50"
  "next_id (durable (demo_auth_world [])) = 3"
  by (rule known_demo_auth) (simp_all add: demo_auth_world_def demo_auth_db_def char_length_def)

theorem first_logins_race_witness:
  "\<exists>g w'. group_run background [0, 1, 0, 1] (logins (auth_authenticator demo_argon demo_issuer ''k'')
      [(''carol'', ''pw''), (''carol'', ''pw'')], demo_auth_world []) = (g, w') \<and>
    shared g = [Some (Inr ''k.carol''), Some (Inl unique_violation)]"
  using first_logins_race [OF calm_demo_auth wf_demo_auth carol_new(1,2), of demo_argon "''pw''" "''h:pw''"
      "()" "''h:pw''" "()" demo_issuer "''k''"]
  by (auto simp: carol_new demo_argon_def demo_issuer_def int4_range_def)

theorem concurrent_logins_safe_witness:
  "wf_auth (durable (snd (group_run background [0, 1, 0, 1] (logins (auth_authenticator demo_argon demo_issuer ''k'')
     [(''alice'', ''pw''), (''carol'', ''x'')], demo_auth_world []))))"
  using concurrent_logins_safe [OF demo_argon_ok wf_demo_auth prod.collapse [symmetric]] by blast

end
