(* ===== verification/Store_Progress.thy ===== *)
theory Store_Progress
  imports Store_Concurrency_Facts
begin

text \<open>
  When overlapping requests come to an end. The programs of \<open>Store_Concurrency\<close> send a bounded
  number of statements; a session waits for the rows that others have locked, and for a
  connection of the pool before it starts. Whether all sessions can finish depends on the
  transfers that have locked their sender's row and not yet their receiver's: they can exactly
  when these payments form no cycle. The size of the pool does not matter, since no transaction
  needs a second connection.
\<close>

section \<open>The length of the programs\<close>

text \<open>The program stops after at most \<open>n\<close> statements, whatever they answer.\<close>

inductive prog_within :: "nat \<Rightarrow> prog \<Rightarrow> bool" where
  within_stop: "prog_within n (Stop r)"
| within_query: "(\<And>row. prog_within n (k row)) \<Longrightarrow> prog_within (Suc n) (AskQuery q args k)"
| within_exec: "(\<And>r. prog_within n (k r)) \<Longrightarrow> prog_within (Suc n) (AskExec q args k)"

inductive_simps prog_within_simps [simp]:
  "prog_within n (Stop r)" "prog_within n (AskQuery q args k)" "prog_within n (AskExec q args k)"

lemma buy_within:
  "prog_within 1 (buy_insert u g)" "prog_within 2 (buy_debit u g)" "prog_within 3 (buy_prog u g)"
proof -
  show i: "prog_within 1 (buy_insert u g)" by (simp add: buy_insert_def split: sum.split)
  show d: "prog_within 2 (buy_debit u g)"
    using i by (simp add: buy_debit_def numeral_2_eq_2 split: sum.split)
  show "prog_within 3 (buy_prog u g)"
    using d by (simp add: buy_prog_def numeral_3_eq_3 numeral_2_eq_2 split: sum.split)
qed

lemma send_within:
  "prog_within 1 (send_insert f t a)" "prog_within 2 (send_credit f t a)"
  "prog_within 3 (send_debit f t a)" "prog_within 4 (send_prog f t a)"
proof -
  show i: "prog_within 1 (send_insert f t a)"
    by (simp add: send_insert_def send_failed_def split: sum.split)
  show c: "prog_within 2 (send_credit f t a)"
    using i by (simp add: send_credit_def send_failed_def numeral_2_eq_2 split: sum.split)
  show d: "prog_within 3 (send_debit f t a)"
    using c by (simp add: send_debit_def send_failed_def numeral_3_eq_3 numeral_2_eq_2 split: sum.split)
  show "prog_within 4 (send_prog f t a)"
    using d by (simp add: send_prog_def eval_nat_numeral split: sum.split)
qed

lemma prog_within_mono: "prog_within n p \<Longrightarrow> n \<le> m \<Longrightarrow> prog_within m p"
proof (induction arbitrary: m rule: prog_within.induct)
  case (within_query n k q args)
  then show ?case by (cases m) auto
next
  case (within_exec n k q args)
  then show ?case by (cases m) auto
qed simp

section \<open>The length of the sessions\<close>

text \<open>The lookup or the account, the statements of the transaction, and its end.\<close>

fun request_steps :: "request \<Rightarrow> nat" where
  "request_steps (BuyReq u item) = 5"
| "request_steps (SendReq f t a) = 6"

text \<open>The session ends after at most \<open>n\<close> of its own steps.\<close>

fun ends_within :: "nat \<Rightarrow> session \<Rightarrow> bool" where
  "ends_within n (Fresh rq) \<longleftrightarrow> request_steps rq \<le> n"
| "ends_within n (Running rq log locks p) \<longleftrightarrow> 0 < n \<and> prog_within (n - 1) p"
| "ends_within n (Ended rq r) \<longleftrightarrow> True"

fun ended :: "session \<Rightarrow> bool" where
  "ended (Ended rq r) = True"
| "ended _ = False"

lemma ends_within_0: "ends_within 0 s \<Longrightarrow> ended s"
  by (cases s) (auto elim: request_steps.elims)

lemma next_ends_within:
  assumes "ends_within (Suc n) s" "session_next d s = (s', d')"
  shows "ends_within n s'"
proof (cases s)
  case (Fresh rq)
  with assms show ?thesis
    by (cases rq) (auto split: sum.splits if_splits
        intro!: prog_within_mono [OF buy_within(3)] prog_within_mono [OF send_within(4)])
next
  case (Running rq log locks p)
  with assms show ?thesis
    by (cases p) (auto simp: Let_def split: sum.splits option.splits elim!: session_next.elims)
next
  case (Ended rq r)
  with assms show ?thesis by auto
qed

fun session_request :: "session \<Rightarrow> request" where
  "session_request (Fresh rq) = rq"
| "session_request (Running rq log locks p) = rq"
| "session_request (Ended rq r) = rq"

lemma session_within:
  assumes "session_inv d s"
  shows "ends_within (request_steps (session_request s)) s"
proof (cases s)
  case (Running rq log locks p)
  show ?thesis
  proof (cases rq)
    case (BuyReq u item)
    with Running assms show ?thesis
      by (auto simp: buy_inv_def intro: prog_within_mono [OF buy_within(1)]
          prog_within_mono [OF buy_within(2)] prog_within_mono [OF buy_within(3)])
  next
    case (SendReq f t a)
    with Running assms show ?thesis
      by (auto simp: send_inv_def intro: prog_within_mono [OF send_within(1)]
          prog_within_mono [OF send_within(2)] prog_within_mono [OF send_within(3)]
          prog_within_mono [OF send_within(4)])
  qed
qed simp_all

section \<open>Cycles\<close>

text \<open>A finite set in which every element has a successor in the set contains a cycle, and a cycle is such a set.\<close>

lemma cyclic_if_no_sink:
  assumes "finite F" "x \<in> F" "\<And>x. x \<in> F \<Longrightarrow> \<exists>y \<in> F. (x, y) \<in> g"
  shows "\<not> acyclic g"
proof
  assume "acyclic g"
  then have "acyclic (g \<inter> F \<times> F)" by (rule acyclic_subset) blast
  moreover have "finite (g \<inter> F \<times> F)" using assms(1) by blast
  ultimately have "wf ((g \<inter> F \<times> F)\<inverse>)" by (intro finite_acyclic_wf_converse)
  from wfE_min [OF this assms(2)] obtain z where z: "z \<in> F"
    and min: "\<And>y. (y, z) \<in> (g \<inter> F \<times> F)\<inverse> \<Longrightarrow> y \<notin> F" by blast
  from assms(3) [OF z] obtain y where "y \<in> F" "(z, y) \<in> g" by blast
  with min [of y] z show False by simp
qed

lemma no_sink_if_cyclic:
  assumes "\<not> acyclic g"
  obtains F where "F \<noteq> {}" "\<And>x. x \<in> F \<Longrightarrow> \<exists>y \<in> F. (x, y) \<in> g"
proof
  let ?F = "{x. (x, x) \<in> g\<^sup>+}"
  show "?F \<noteq> {}" using assms by (auto simp: acyclic_def)
  fix x
  assume "x \<in> ?F"
  then obtain y where "(x, y) \<in> g" "(y, x) \<in> g\<^sup>*" by (auto dest: tranclD)
  moreover from this have "(y, y) \<in> g\<^sup>+" by (rule rtrancl_into_trancl1 [rotated])
  ultimately show "\<exists>y \<in> ?F. (x, y) \<in> g" by blast
qed

section \<open>Payments that are half made\<close>

text \<open>From a sender whose row is locked to a receiver whose row is not.\<close>

fun half_paid :: "session \<Rightarrow> (int \<times> int) list" where
  "half_paid (Running (SendReq f t a) log locks (AskExec q args k)) =
     (if sint f \<in> set locks \<and> sint t \<notin> set locks then [(sint f, sint t)] else [])"
| "half_paid _ = []"

definition payments :: "session list \<Rightarrow> (int \<times> int) set" where
  "payments ss = set (concat (map half_paid ss))"

lemma half_paid_iff:
  "e \<in> set (half_paid s) \<longleftrightarrow> (\<exists>f t a log locks q args k.
     s = Running (SendReq f t a) log locks (AskExec q args k) \<and> e = (sint f, sint t) \<and>
     sint f \<in> set locks \<and> sint t \<notin> set locks)"
  by (cases s rule: half_paid.cases) auto

lemma payments_iff: "e \<in> payments ss \<longleftrightarrow> (\<exists>i < length ss. e \<in> set (half_paid (ss ! i)))"
  by (simp add: payments_def) (metis in_set_conv_nth)

lemma payments_update: "payments (ss[i := s]) \<subseteq> payments ss \<union> set (half_paid s)"
  unfolding payments_def using set_update_subset_insert [of ss i s] by auto

lemma half_paid_ne: "session_inv d s \<Longrightarrow> (x, y) \<in> set (half_paid s) \<Longrightarrow> x \<noteq> y"
  by (auto simp: half_paid_iff send_inv_def)

lemma acyclic_half_paid: "session_inv d s \<Longrightarrow> acyclic (set (half_paid s))"
proof -
  assume inv: "session_inv d s"
  have "half_paid s = [] \<or> (\<exists>x y. half_paid s = [(x, y)])"
    by (cases s rule: half_paid.cases) auto
  then consider "half_paid s = []" | x y where "half_paid s = [(x, y)]" by blast
  then show ?thesis
  proof cases
    case (2 x y)
    with half_paid_ne [OF inv, of x y] show ?thesis by (simp add: wf_acyclic)
  qed (simp_all add: wf_acyclic)
qed

lemma send_phases:
  assumes "send_inv d f t a log locks p"
  obtains r where "p = Stop r"
  | "p = send_prog f t a" "locks = []"
  | "p = send_debit f t a" "sint f \<in> set locks"
  | "p = send_credit f t a" "sint f \<in> set locks"
  | "p = send_insert f t a" "sint f \<in> set locks" "sint t \<in> set locks"
  using assms unfolding send_inv_def by blast

text \<open>A session that holds a row and must wait is a transfer about to pay its receiver.\<close>

lemma blocked_holder:
  assumes r: "conc_reach d0 c" "wf_db d0" and i: "i < length (sessions c)"
    and h: "held_locks (sessions c ! i) \<noteq> []" and b: "\<not> granted (sessions c) i"
  shows "\<exists>x y. set (held_locks (sessions c ! i)) = {x} \<and> half_paid (sessions c ! i) = [(x, y)] \<and>
    (\<exists>j < length (sessions c). y \<in> set (held_locks (sessions c ! j)))"
proof -
  obtain rq log locks p where s: "sessions c ! i = Running rq log locks p" "locks \<noteq> []"
    using h by (cases "sessions c ! i") auto
  have inv: "conc_inv c" using conc_reach_inv [OF r] ..
  from b i obtain j u where j: "j < length (sessions c)" "j \<noteq> i"
    and u: "u \<in> set (wanted_locks (sessions c ! i))" "u \<in> set (held_locks (sessions c ! j))"
    by (auto simp: granted_def list_all_iff)
  have "set (held_locks (sessions c ! i)) \<inter> set (held_locks (sessions c ! j)) = {}"
    using inv i j unfolding conc_inv_def by blast
  with u(2) s have free: "u \<notin> set locks" by auto
  have own: "set locks \<subseteq> request_rows rq"
    using conc_reach_own_rows [OF r] i s by (metis list_all_length own_rows.simps(1))
  have sinv: "session_inv (committed c) (Running rq log locks p)"
    using inv i s by (metis conc_inv_def nth_mem)
  show ?thesis
  proof (cases rq)
    case (BuyReq v item)
    with holder_granted [OF r i] s b show ?thesis by auto
  next
    case (SendReq f t a)
    with sinv have "send_inv (committed c) f t a log locks p" by simp
    then have p: "p = send_credit f t a \<and> sint f \<in> set locks \<and> u = sint t"
      by (cases rule: send_phases) (use u(1) s free in \<open>auto simp: wants send_insert_def\<close>)
    then have "half_paid (sessions c ! i) = [(sint f, sint t)]"
      using s SendReq free by (simp add: send_credit_def)
    moreover have "set (held_locks (sessions c ! i)) = {sint f}" using s own free SendReq p by auto
    ultimately show ?thesis using j(1) u(2) p by blast
  qed
qed

text \<open>A session that holds its row adds no payment.\<close>

lemma holder_payments:
  assumes inv: "session_inv d s" and h: "held_locks s \<noteq> []" and n: "session_next d s = (s', d')"
  shows "set (half_paid s') \<subseteq> set (half_paid s)"
proof
  fix e
  assume "e \<in> set (half_paid s')"
  then obtain f t a log' locks' q' args' k' where s': "s' = Running (SendReq f t a) log' locks' (AskExec q' args' k')"
    and e: "e = (sint f, sint t)" and l': "sint t \<notin> set locks'"
    by (auto simp: half_paid_iff)
  obtain rq log locks p where s: "s = Running rq log locks p" "locks \<noteq> []"
    using h by (cases s) auto
  with n s' have rq: "rq = SendReq f t a" using next_request by metis
  with inv s have "send_inv d f t a log locks p" by simp
  then have "sint f \<in> set locks \<and> (\<exists>q args k. p = AskExec q args k)"
  proof (cases rule: send_phases)
    case (1 r)
    with n s s' show ?thesis by (cases r) auto
  qed (use s in \<open>simp_all add: send_debit_def send_credit_def send_insert_def\<close>)
  moreover have "set locks \<subseteq> set locks'"
    using n s s' by (cases p) (auto simp: Let_def split: sum.splits option.splits elim: session_next.elims)
  ultimately show "e \<in> set (half_paid s)" using s rq e l' by (auto simp: half_paid_iff)
qed

section \<open>Running together over a pool\<close>

text \<open>
  A transaction keeps its connection until it ends. A session that has not started asks for one
  with its lookup (or the receiver's account) and then with \<open>BeginTx\<close>, holding nothing while it
  waits.
\<close>

fun running :: "session \<Rightarrow> bool" where
  "running (Running rq log locks p) = True"
| "running _ = False"

fun fresh :: "session \<Rightarrow> bool" where
  "fresh (Fresh rq) = True"
| "fresh _ = False"

definition conns :: "session list \<Rightarrow> nat" where
  "conns ss = length (filter running ss)"

definition can_go :: "nat \<Rightarrow> session list \<Rightarrow> nat \<Rightarrow> bool" where
  "can_go k ss i \<longleftrightarrow> i < length ss \<and> granted ss i \<and> (fresh (ss ! i) \<longrightarrow> conns ss < k)"

text \<open>
  \<open>n\<close> steps of sessions that find their rows and, to start, a connection of \<open>k\<close> free; no aborts and
  no new requests.
\<close>

inductive advances :: "nat \<Rightarrow> nat \<Rightarrow> conc \<Rightarrow> conc \<Rightarrow> bool" for k where
  adv_none: "advances k 0 c c"
| adv_more: "can_go k (sessions c) i \<Longrightarrow> session_next (committed c) (sessions c ! i) = (s, d) \<Longrightarrow>
    advances k n \<lparr>committed = d, sessions = (sessions c)[i := s]\<rparr> c' \<Longrightarrow> advances k (Suc n) c c'"

lemma can_go_step:
  assumes "can_go k (sessions c) i" "session_next (committed c) (sessions c ! i) = (s, d)"
  shows "conc_step c \<lparr>committed = d, sessions = (sessions c)[i := s]\<rparr>"
  using assms advance by (simp add: can_go_def)

lemma advances_reach: "advances k n c c' \<Longrightarrow> conc_reach d0 c \<Longrightarrow> conc_reach d0 c'"
  by (induction rule: advances.induct) (auto intro: reach_step can_go_step)

lemma advances_length: "advances k n c c' \<Longrightarrow> length (sessions c') = length (sessions c)"
  by (induction rule: advances.induct) simp_all

text \<open>If the payments that are half made form no cycle, a session can go on and keep it that way.\<close>

lemma reach_facts:
  assumes "conc_reach d0 c" "wf_db d0"
  shows "wf_db (committed c)" "i < length (sessions c) \<Longrightarrow> session_inv (committed c) (sessions c ! i)"
  using conc_reach_inv [OF assms] by (auto simp: conc_inv_def)

lemma payments_without_holders:
  assumes "\<forall>i < length ss. held_locks (ss ! i) = []"
  shows "payments ss = {}"
  using assms by (fastforce simp: payments_iff half_paid_iff)

lemma holder_goes:
  assumes r: "conc_reach d0 c" "wf_db d0" and a: "acyclic (payments (sessions c))"
    and h: "j < length (sessions c)" "held_locks (sessions c ! j) \<noteq> []"
  shows "\<exists>i < length (sessions c). held_locks (sessions c ! i) \<noteq> [] \<and> granted (sessions c) i"
proof (rule ccontr)
  assume none: "\<not> ?thesis"
  let ?F = "\<Union>i \<in> {..<length (sessions c)}. set (held_locks (sessions c ! i))"
  have "\<not> acyclic (payments (sessions c))"
  proof (rule cyclic_if_no_sink)
    show "finite ?F" by simp
    show "hd (held_locks (sessions c ! j)) \<in> ?F" using h by force
    fix x
    assume "x \<in> ?F"
    then obtain i where i: "i < length (sessions c)" "x \<in> set (held_locks (sessions c ! i))" by blast
    then have held: "held_locks (sessions c ! i) \<noteq> []" by auto
    with none i(1) have "\<not> granted (sessions c) i" by blast
    from blocked_holder [OF r i(1) held this] i(2) obtain y j' where
      "half_paid (sessions c ! i) = [(x, y)]" "j' < length (sessions c)"
      "y \<in> set (held_locks (sessions c ! j'))" by auto
    with i(1) show "\<exists>y \<in> ?F. (x, y) \<in> payments (sessions c)"
      by (intro bexI [of _ y]) (auto simp: payments_iff intro!: exI [of _ i])
  qed
  with a show False by contradiction
qed

lemma next_goes:
  assumes r: "conc_reach d0 c" "wf_db d0" and a: "acyclic (payments (sessions c))"
    and k: "0 < k" and u: "\<not> list_all ended (sessions c)"
  shows "\<exists>i s d. can_go k (sessions c) i \<and> \<not> ended (sessions c ! i) \<and>
    session_next (committed c) (sessions c ! i) = (s, d) \<and> acyclic (payments ((sessions c)[i := s]))"
proof (cases "\<exists>j < length (sessions c). held_locks (sessions c ! j) \<noteq> []")
  case True
  then obtain i where i: "i < length (sessions c)" "held_locks (sessions c ! i) \<noteq> []"
      "granted (sessions c) i" using holder_goes [OF r a] by blast
  then have run: "running (sessions c ! i)" by (cases "sessions c ! i") auto
  obtain s d where s: "session_next (committed c) (sessions c ! i) = (s, d)" by fastforce
  have "set (half_paid s) \<subseteq> payments (sessions c)"
    using holder_payments [OF reach_facts(2) [OF r i(1)] i(2) s] i(1)
    unfolding payments_iff subset_iff by blast
  with payments_update [of "sessions c" i s] have "payments ((sessions c)[i := s]) \<subseteq> payments (sessions c)"
    by blast
  with a have "acyclic (payments ((sessions c)[i := s]))" by (rule acyclic_subset)
  moreover have "can_go k (sessions c) i \<and> \<not> ended (sessions c ! i)"
    using i run by (cases "sessions c ! i") (auto simp: can_go_def)
  ultimately show ?thesis using s by blast
next
  case False
  then have none: "\<forall>j < length (sessions c). held_locks (sessions c ! j) = []" by blast
  then have g: "granted (sessions c) i" for i by (simp add: granted_def list_all_iff)
  have "\<exists>i < length (sessions c). \<not> ended (sessions c ! i) \<and> (fresh (sessions c ! i) \<longrightarrow> conns (sessions c) < k)"
  proof (cases "filter running (sessions c)")
    case Nil
    with k have "conns (sessions c) < k" by (simp add: conns_def)
    with u show ?thesis by (auto simp: list_all_length)
  next
    case (Cons x xs)
    then have "x \<in> set (filter running (sessions c))" by simp
    then have "x \<in> set (sessions c) \<and> running x" by simp
    then obtain i where "i < length (sessions c)" "running (sessions c ! i)" by (metis in_set_conv_nth)
    then show ?thesis by (cases "sessions c ! i") auto
  qed
  then obtain i where i: "i < length (sessions c)" "\<not> ended (sessions c ! i)" "can_go k (sessions c) i"
    using g by (auto simp: can_go_def)
  obtain s d where s: "session_next (committed c) (sessions c ! i) = (s, d)" by fastforce
  have "session_inv d s"
    using session_step [OF reach_facts(1) [OF r] reach_facts(2) [OF r i(1)] s] by (simp add: step_ok_def)
  then have "acyclic (set (half_paid s))" by (rule acyclic_half_paid)
  moreover have "payments ((sessions c)[i := s]) \<subseteq> set (half_paid s)"
    using payments_update [of "sessions c" i s] payments_without_holders [OF none] by simp
  ultimately show ?thesis using i s acyclic_subset by blast
qed

lemma all_finish:
  assumes "conc_reach d0 c" "wf_db d0" "0 < k" "acyclic (payments (sessions c))"
    and "list_all2 ends_within ns (sessions c)"
  shows "\<exists>n c'. n \<le> sum_list ns \<and> advances k n c c' \<and> list_all ended (sessions c')"
  using assms
proof (induction "sum_list ns" arbitrary: ns c rule: less_induct)
  case less
  note len = list_all2_lengthD [OF less.prems(5)]
  show ?case
  proof (cases "list_all ended (sessions c)")
    case False
    then obtain i s d where i: "can_go k (sessions c) i" "\<not> ended (sessions c ! i)"
      and s: "session_next (committed c) (sessions c ! i) = (s, d)"
      and a: "acyclic (payments ((sessions c)[i := s]))"
      using next_goes [OF less.prems(1,2,4,3)] by blast
    have l: "i < length (sessions c)" using i(1) by (simp add: can_go_def)
    have w: "ends_within (ns ! i) (sessions c ! i)"
      using less.prems(5) l len by (simp add: list_all2_conv_all_nth)
    with i(2) obtain m where m: "ns ! i = Suc m" using ends_within_0 by (cases "ns ! i") auto
    let ?c = "\<lparr>committed = d, sessions = (sessions c)[i := s]\<rparr>"
    have "list_all2 ends_within (ns[i := m]) (sessions ?c)"
      using less.prems(5) next_ends_within [OF w [unfolded m] s] by (simp add: list_all2_update_cong)
    moreover have smaller: "sum_list (ns[i := m]) < sum_list ns"
      using l len m elem_le_sum_list [of i ns] by (simp add: sum_list_update)
    moreover have "conc_reach d0 ?c" using reach_step [OF less.prems(1) can_go_step [OF i(1) s]] .
    ultimately obtain n c' where n: "n \<le> sum_list (ns[i := m])" "advances k n ?c c'"
        "list_all ended (sessions c')"
      using less.hyps [of "ns[i := m]" ?c] less.prems(2,3) a by auto
    from adv_more [OF i(1) s n(2)] n(1,3) smaller show ?thesis
      by (intro exI [of _ "Suc n"] exI [of _ c']) simp
  qed (auto intro: adv_none)
qed

section \<open>Cycles stay\<close>

text \<open>A transfer on a cycle of payments can still lock what it holds, and then waits for ever.\<close>

lemma debit_goes_on:
  assumes wf: "wf_db d" and inv: "send_inv d f t a log locks (send_debit f t a)"
    and n: "session_next d (Running rq log locks (send_debit f t a)) = (s, d')"
  shows "\<exists>log'. s = Running rq log' (locks @ [sint f]) (send_credit f t a)"
proof -
  from inv have ne: "f \<noteq> t" and t: "has_account d (sint t)" and log: "log = []"
    and v: "\<exists>v. map_of (balances d) (sint f) = Some v \<and> uint a \<le> v"
    by (auto simp: send_inv_def send_prog_def send_debit_def send_credit_def send_insert_def)
  then obtain v w where "map_of (balances d) (sint f) = Some v" "uint a \<le> v"
    "map_of (balances d) (sint t) = Some w" by (auto simp: has_account_def)
  from transfer_actions(3) [OF wf ne this] n log show ?thesis by auto
qed

lemma edge_stays:
  assumes r: "conc_reach d0 c" "wf_db d0" and g: "granted (sessions c) i" "i < length (sessions c)"
    and n: "session_next (committed c) (sessions c ! i) = (s, d)"
    and e: "(x, y) \<in> set (half_paid (sessions c ! i))"
    and h: "j < length (sessions c)" "y \<in> set (held_locks (sessions c ! j))"
  shows "(x, y) \<in> set (half_paid s)"
proof -
  from e obtain f t a log locks q args k where
    s: "sessions c ! i = Running (SendReq f t a) log locks (AskExec q args k)"
    and e: "x = sint f" "y = sint t" "sint f \<in> set locks" "sint t \<notin> set locks"
    by (auto simp: half_paid_iff)
  from h e s have "j \<noteq> i" by auto
  with g(1) h e have free: "sint t \<notin> set (wanted_locks (sessions c ! i))"
    using granted_disjoint by blast
  have inv: "send_inv (committed c) f t a log locks (AskExec q args k)"
    using reach_facts(2) [OF r g(2)] s by simp
  have ne: "sint f \<noteq> sint t" using half_paid_ne [OF reach_facts(2) [OF r g(2)] assms(6)] e by simp
  from inv show ?thesis
  proof (cases rule: send_phases)
    case 3
    from debit_goes_on [OF reach_facts(1) [OF r] inv [unfolded 3(1)]] n s 3(1) obtain log' where
      "s = Running (SendReq f t a) log' (locks @ [sint f]) (send_credit f t a)" by metis
    with e ne show ?thesis by (simp add: send_credit_def)
  qed (use s free e in \<open>simp_all add: wants send_prog_def\<close>)
qed

lemma cycle_stays:
  assumes "advances k n c c'" "conc_reach d0 c" "wf_db d0"
    and "\<And>x. x \<in> F \<Longrightarrow> \<exists>y \<in> F. (x, y) \<in> payments (sessions c)" "x \<in> F"
  shows "\<exists>y \<in> F. (x, y) \<in> payments (sessions c')"
  using assms
proof (induction arbitrary: x rule: advances.induct)
  case (adv_more c i s d n c')
  have i: "i < length (sessions c)" "granted (sessions c) i" using adv_more.hyps(1) by (auto simp: can_go_def)
  show ?case
  proof (rule adv_more.IH)
    show "conc_reach d0 \<lparr>committed = d, sessions = (sessions c)[i := s]\<rparr>"
      using reach_step [OF adv_more.prems(1) can_go_step [OF adv_more.hyps(1,2)]] .
    fix x
    assume "x \<in> F"
    then obtain y where y: "y \<in> F" "(x, y) \<in> payments (sessions c)" using adv_more.prems(3) by blast
    then obtain j where j: "j < length (sessions c)" "(x, y) \<in> set (half_paid (sessions c ! j))"
      by (auto simp: payments_iff)
    from adv_more.prems(3) [OF y(1)] obtain z m where m: "m < length (sessions c)"
      "(y, z) \<in> set (half_paid (sessions c ! m))" by (auto simp: payments_iff)
    then have "y \<in> set (held_locks (sessions c ! m))" by (auto simp: half_paid_iff)
    with edge_stays [OF adv_more.prems(1,2) i(2,1) adv_more.hyps(2) _ m(1)] j
    have "(x, y) \<in> set (half_paid ((sessions c)[i := s] ! j))" by (cases "j = i") auto
    with j(1) y(1) show "\<exists>y \<in> F. (x, y) \<in> payments (sessions \<lparr>committed = d, sessions = (sessions c)[i := s]\<rparr>)"
      unfolding payments_iff by auto
  qed (use adv_more.prems in auto)
qed blast

lemma payments_ended: "list_all ended ss \<Longrightarrow> payments ss = {}"
  by (force simp: payments_iff half_paid_iff list_all_length)

section \<open>Properties\<close>

text \<open>
  C28. Overlapping requests can finish exactly when no payments form a cycle. From every state
  that the statements of purchases and transfers reach, in whatever order they were sent and
  whatever was aborted: if the transfers that hold their sender's row but not their receiver's
  form no cycle, all requests can run to their end, within five steps for each purchase and six
  for each transfer, over a pool with as little as one connection. If they form a cycle, nothing
  but an abort helps: over no pool and in no order do all of them finish. A purchase is never
  part of a cycle, and does not wait once it holds its row.
\<close>

theorem finish_iff_acyclic:
  assumes "conc_reach d0 c" "wf_db d0" "0 < k"
  shows "(acyclic (payments (sessions c)) \<longrightarrow>
      (\<exists>n c'. n \<le> sum_list (map (request_steps \<circ> session_request) (sessions c)) \<and> advances k n c c' \<and>
         conc_reach d0 c' \<and> length (sessions c') = length (sessions c) \<and> list_all ended (sessions c'))) \<and>
    (\<not> acyclic (payments (sessions c)) \<longrightarrow>
      (\<forall>m n c'. advances m n c c' \<longrightarrow> \<not> list_all ended (sessions c'))) \<and>
    (\<forall>i < length (sessions c). \<forall>u item log locks p.
      sessions c ! i = Running (BuyReq u item) log locks p \<longrightarrow> locks \<noteq> [] \<longrightarrow> granted (sessions c) i)"
proof (intro conjI impI)
  assume a: "acyclic (payments (sessions c))"
  have "list_all2 ends_within (map (request_steps \<circ> session_request) (sessions c)) (sessions c)"
    using session_within [OF reach_facts(2) [OF assms(1,2)]] by (simp add: list_all2_conv_all_nth)
  from all_finish [OF assms a this] obtain n c' where
    n: "n \<le> sum_list (map (request_steps \<circ> session_request) (sessions c))" "advances k n c c'"
      "list_all ended (sessions c')" by blast
  from this advances_length [OF n(2)] advances_reach [OF n(2) assms(1)]
  show "\<exists>n c'. n \<le> sum_list (map (request_steps \<circ> session_request) (sessions c)) \<and> advances k n c c' \<and>
      conc_reach d0 c' \<and> length (sessions c') = length (sessions c) \<and> list_all ended (sessions c')" by blast
next
  assume "\<not> acyclic (payments (sessions c))"
  then obtain F where F: "F \<noteq> {}" "\<And>x. x \<in> F \<Longrightarrow> \<exists>y \<in> F. (x, y) \<in> payments (sessions c)"
    using no_sink_if_cyclic by metis
  then obtain x where x: "x \<in> F" by blast
  show "\<forall>m n c'. advances m n c c' \<longrightarrow> \<not> list_all ended (sessions c')"
    using cycle_stays [OF _ assms(1,2) F(2) x] payments_ended by blast
next
  show "\<forall>i < length (sessions c). \<forall>u item log locks p.
      sessions c ! i = Running (BuyReq u item) log locks p \<longrightarrow> locks \<noteq> [] \<longrightarrow> granted (sessions c) i"
    using holder_granted [OF assms(1,2)] by blast
qed

theorem finish_iff_acyclic_witness:
  "(\<exists>n c'. n \<le> 5 \<and> advances 1 n \<lparr>committed = demo_db, sessions = [cup_paid]\<rparr> c' \<and>
     list_all ended (sessions c')) \<and>
   (\<exists>c. conc_reach demo_db c \<and> sessions c = crossed 1 2 100 30 \<and>
     (\<nexists>m n c'. advances m n c c' \<and> list_all ended (sessions c')))"
proof
  have "payments [cup_paid] = {}" by (simp add: payments_def cup_paid_def)
  with finish_iff_acyclic [OF cup_run wf_demo_db, of 1]
  show "\<exists>n c'. n \<le> 5 \<and> advances 1 n \<lparr>committed = demo_db, sessions = [cup_paid]\<rparr> c' \<and>
     list_all ended (sessions c')" by (auto simp: cup_paid_def wf_acyclic)
  have r: "conc_reach demo_db \<lparr>committed = demo_db, sessions = crossed 1 2 100 30\<rparr>"
    by (rule crossed_reach [of demo_db 1 2 1000 100 1000 30]) (rule wf_demo_db, simp_all add: demo_db_def)
  have "payments (crossed 1 2 100 30) = {(1, 2), (2, 1)}"
    by (auto simp: payments_def crossed_def send_credit_def)
  then have "\<not> acyclic (payments (crossed 1 2 100 30))"
    by (auto simp: acyclic_def intro!: exI [of _ 1] trancl_into_trancl2 [of 1 2])
  with finish_iff_acyclic [OF r wf_demo_db, of 1]
  have "\<nexists>m n c'. advances m n \<lparr>committed = demo_db, sessions = crossed 1 2 100 30\<rparr> c' \<and>
     list_all ended (sessions c')" by simp
  with r show "\<exists>c. conc_reach demo_db c \<and> sessions c = crossed 1 2 100 30 \<and>
     (\<nexists>m n c'. advances m n c c' \<and> list_all ended (sessions c'))" by (metis conc.select_convs(2))
qed

end
