(* ===== verification/Store_Pool.thy ===== *)
theory Store_Pool
  imports Store_App Store_Postgres
begin

text \<open>
  The connections of the pool. \<open>pgxpool\<close> lends at most \<open>k\<close> connections at a time (by default
  four or the number of processors); a caller that finds none waits until one comes back or its
  context ends. A request holds a connection from \<open>Query\<close> until its rows are closed (by the
  \<open>Next\<close> that finds no more of them, a failing \<open>Scan\<close> or \<open>Close\<close>, whichever comes first), from
  \<open>QueryRow\<close> until \<open>Scan\<close>, from \<open>BeginTx\<close> until the transaction ends. The functions of the
  store are run on a connection that only notes what is taken and returned; then any number of
  such calls share a pool.
\<close>

section \<open>A connection that notes what is lent\<close>

datatype conn_action = Acquire | Release

record lend =
  acts :: "conn_action list"
  tx_held :: bool

text \<open>What the database answers is open.\<close>

record pool_answers =
  ans_row :: "store_sql \<Rightarrow> row"
  ans_rows :: "store_sql \<Rightarrow> error + rows"
  ans_exec :: "store_sql \<Rightarrow> error + nat"
  ans_begin :: "error option"
  ans_commit :: "error option"

definition note_acts :: "conn_action list \<Rightarrow> lend \<Rightarrow> lend" where
  "note_acts xs w = w\<lparr>acts := acts w @ xs\<rparr>"

text \<open>
  The rows of a \<open>Query\<close> that succeeded keep their connection until they are closed; all else
  returns it at once.
\<close>

definition lend_pool :: "pool_answers \<Rightarrow> (store_sql, lend) QueryExecuter" where
  "lend_pool a =
     \<lparr>QueryRow = (\<lambda>ctx q args w. (ans_row a q, note_acts [Acquire, Release] w)),
      Query = (\<lambda>ctx q args w.
        (case ans_rows a q of
           Inl err \<Rightarrow> (Inl err, note_acts [Acquire, Release] w)
         | Inr rows \<Rightarrow> (Inr rows, note_acts [Acquire] w))),
      RowsClose = (\<lambda>rows w. note_acts [Release] w),
      Exec = (\<lambda>ctx q args w. (ans_exec a q, note_acts [Acquire, Release] w))\<rparr>"

definition end_tx :: "lend \<Rightarrow> lend" where
  "end_tx w = (if tx_held w then (note_acts [Release] w)\<lparr>tx_held := False\<rparr> else w)"

text \<open>A transaction works on its own connection, and returns it when it ends for the first time.\<close>

definition lend_tx :: "pool_answers \<Rightarrow> (store_sql, lend) Tx" where
  "lend_tx a =
     \<lparr>QueryRow = (\<lambda>ctx q args w. (ans_row a q, w)),
      Query = (\<lambda>ctx q args w. (ans_rows a q, w)),
      RowsClose = (\<lambda>rows w. w),
      Exec = (\<lambda>ctx q args w. (ans_exec a q, w)),
      Commit = (\<lambda>ctx w. (ans_commit a, end_tx w)),
      Rollback = (\<lambda>ctx w. (if tx_held w then None else Some ErrTxClosed, end_tx w))\<rparr>"

definition lend_beginner :: "pool_answers \<Rightarrow> (store_sql, lend) TxBeginner" where
  "lend_beginner a = \<lparr>BeginTx = (\<lambda>ctx opts w.
     (case ans_begin a of
        Some err \<Rightarrow> (Inl err, note_acts [Acquire, Release] w)
      | None \<Rightarrow> (Inr (lend_tx a), (note_acts [Acquire] w)\<lparr>tx_held := True\<rparr>)))\<rparr>"

definition silent :: "lend Logger" where
  "silent = \<lparr>log_Info = (\<lambda>m args w. w), log_Warn = (\<lambda>m args w. w), log_Error = (\<lambda>m args w. w)\<rparr>"

text \<open>What a function takes and returns, in order.\<close>

definition conns_of :: "(lend \<Rightarrow> 'a \<times> lend) \<Rightarrow> conn_action list" where
  "conns_of f = acts (snd (f \<lparr>acts = [], tx_held = False\<rparr>))"

text \<open>The use cases and repositories of the store, wired to it.\<close>

definition lend_purchaseCase :: "pool_answers \<Rightarrow> (store_sql, lend) PurchaseCase" where
  "lend_purchaseCase a =
     NewPurchaseCase (PgGoodsRepository_GoodsRepository (NewGoodsRepository (lend_pool a)))
       (BalancesRepository_UserBalanceLocker (NewBalancesRepository (lend_pool a)))
       NewPurchaseHandler (DelegateTxManager_TxManager (NewDelegateTxManager (lend_beginner a) silent))"

definition lend_sendCoinsCase ::
  "(string \<Rightarrow> error + goint) \<Rightarrow> pool_answers \<Rightarrow> (store_sql, lend) SendCoinsCase" where
  "lend_sendCoinsCase ids a =
     NewSendCoinsCase (DelegateTxManager_TxManager (NewDelegateTxManager (lend_beginner a) silent))
       \<lparr>FetchUserID = (\<lambda>ctx name w. (ids name, w))\<rparr>
       (BalancesRepository_UserBalanceLocker (NewBalancesRepository (lend_pool a)))
       (BalancesRepository_BalanceEnsurer (NewBalancesRepository (lend_pool a)))
       NewTransactionProceeder"

abbreviation lend_info :: "pool_answers \<Rightarrow> lend PgUserInfoRepository" where
  "lend_info a \<equiv> NewUserInfoRepository (lend_pool a) silent"

section \<open>Sharing the pool\<close>

text \<open>A call in progress: the connections it holds and what it does next.\<close>

type_synonym pool_call = "nat \<times> conn_action list"

definition in_use :: "pool_call list \<Rightarrow> nat" where
  "in_use cs = sum_list (map fst cs)"

inductive lend_step :: "nat \<Rightarrow> pool_call list \<Rightarrow> pool_call list \<Rightarrow> bool" for k where
  take_conn: "i < length cs \<Longrightarrow> cs ! i = (h, Acquire # xs) \<Longrightarrow> in_use cs < k \<Longrightarrow>
    lend_step k cs (cs[i := (Suc h, xs)])"
| give_conn: "i < length cs \<Longrightarrow> cs ! i = (Suc h, Release # xs) \<Longrightarrow>
    lend_step k cs (cs[i := (h, xs)])"

text \<open>The call never holds more than \<open>m\<close> connections, and returns all of them.\<close>

fun fits :: "nat \<Rightarrow> pool_call \<Rightarrow> bool" where
  "fits m (h, []) \<longleftrightarrow> h = 0"
| "fits m (h, Acquire # xs) \<longleftrightarrow> h < m \<and> fits m (Suc h, xs)"
| "fits m (h, Release # xs) \<longleftrightarrow> 0 < h \<and> fits m (h - 1, xs)"

definition finished :: "pool_call \<Rightarrow> bool" where
  "finished c \<longleftrightarrow> c = (0, [])"

lemma fits_mono: "fits m c \<Longrightarrow> m \<le> n \<Longrightarrow> fits n c"
  by (induction m c rule: fits.induct) auto

lemmas lend_defs = lend_pool_def lend_tx_def lend_beginner_def end_tx_def note_acts_def silent_def

section \<open>What the code takes and returns\<close>

lemma transfers_conns:
  "conns_of (UserInfoRepository_FetchUserCoinTransfers (lend_info a) ctx u) =
     (case ans_rows a SqlOutcoming of
        Inl _ \<Rightarrow> [Acquire, Release] | Inr _ \<Rightarrow> [Acquire, Acquire, Release, Release])"
  by (simp add: UserInfoRepository_FetchUserCoinTransfers_def NewUserInfoRepository_def conns_of_def
      processRows_def lend_defs split: sum.split)

lemma lookup_conns:
  "conns_of (UserInfoRepository_FetchUserBalance (lend_info a) ctx u) = [Acquire, Release]"
  "conns_of (UserInfoRepository_FetchUserPurchases (lend_info a) ctx u) = [Acquire, Release]"
  "conns_of (BalancesRepository_EnsureBalanceCreated (NewBalancesRepository (lend_pool a)) ctx u v) =
     [Acquire, Release]"
  by (simp_all add: UserInfoRepository_FetchUserBalance_def UserInfoRepository_FetchUserPurchases_def
      BalancesRepository_EnsureBalanceCreated_def NewBalancesRepository_def NewUserInfoRepository_def
      conns_of_def lend_defs split: sum.split)

text \<open>A transaction takes one connection, whatever its function does through the executor.\<close>

lemma tx_conns:
  assumes "\<forall>w. snd (txFn ctx (tx_executer (lend_tx a)) w) = w" "\<not> tx_held w"
  shows "acts (snd (DelegateTxManager_WithinTransaction
    (NewDelegateTxManager (lend_beginner a) silent) ctx txFn w)) = acts w @ [Acquire, Release]"
proof -
  define w1 where "w1 = (note_acts [Acquire] w)\<lparr>tx_held := True\<rparr>"
  obtain r where "txFn ctx (tx_executer (lend_tx a)) w1 = (r, w1)"
    using assms(1) by (metis prod.collapse)
  then show ?thesis using assms(2)
    by (simp add: DelegateTxManager_WithinTransaction_def NewDelegateTxManager_def w1_def
        deferred_rollback_def lend_defs split: option.split prod.split)
qed

lemma lend_purchaseCase_simps [simp]:
  "GetGoodInfo (pc_goodsRepository (lend_purchaseCase a)) =
     GoodsRepository_GetGoodInfo (NewGoodsRepository (lend_pool a))"
  "LockAndGetUserBalance (pc_balanceLocker (lend_purchaseCase a)) =
     BalancesRepository_LockAndGetUserBalance (NewBalancesRepository (lend_pool a))"
  "ProcessPurchase (pc_purchaser (lend_purchaseCase a)) = PurchaseHandler_ProcessPurchase"
  "WithinTransaction (pc_txManager (lend_purchaseCase a)) =
     DelegateTxManager_WithinTransaction (NewDelegateTxManager (lend_beginner a) silent)"
  by (simp_all add: lend_purchaseCase_def NewPurchaseCase_def PgGoodsRepository_GoodsRepository_def
      BalancesRepository_UserBalanceLocker_def NewPurchaseHandler_def)

lemma lend_sendCoinsCase_simps [simp]:
  "FetchUserID (sc_userIDFetcher (lend_sendCoinsCase ids a)) ctx name w = (ids name, w)"
  "EnsureBalanceCreated (sc_balanceCreator (lend_sendCoinsCase ids a)) =
     BalancesRepository_EnsureBalanceCreated (NewBalancesRepository (lend_pool a))"
  "LockAndGetUserBalance (sc_balanceLocker (lend_sendCoinsCase ids a)) =
     BalancesRepository_LockAndGetUserBalance (NewBalancesRepository (lend_pool a))"
  "ProceedTransaction (sc_transactionProceeder (lend_sendCoinsCase ids a)) =
     TransactionProceeder_ProceedTransaction"
  "WithinTransaction (sc_txManager (lend_sendCoinsCase ids a)) =
     DelegateTxManager_WithinTransaction (NewDelegateTxManager (lend_beginner a) silent)"
  by (simp_all add: lend_sendCoinsCase_def NewSendCoinsCase_def BalancesRepository_BalanceEnsurer_def
      BalancesRepository_UserBalanceLocker_def NewTransactionProceeder_def)

lemma buy_tx_lend: "snd (buy_item_tx (lend_purchaseCase a) u g ctx (tx_executer (lend_tx a)) w) = w"
  by (auto simp: buy_item_tx_def BalancesRepository_LockAndGetUserBalance_def
      PurchaseHandler_ProcessPurchase_def lend_tx_def split: sum.split prod.split option.split)

lemma send_tx_lend:
  "snd (send_coins_tx (lend_sendCoinsCase ids a) f t n ctx (tx_executer (lend_tx a)) w) = w"
  by (auto simp: send_coins_tx_def BalancesRepository_LockAndGetUserBalance_def
      TransactionProceeder_ProceedTransaction_def lend_tx_def
      split: sum.split prod.split option.split)

lemma use_case_tx_conns [simp]:
  assumes "\<not> tx_held w"
  shows "acts (snd (DelegateTxManager_WithinTransaction (NewDelegateTxManager (lend_beginner a) silent)
      ctx (buy_item_tx (lend_purchaseCase a) u g) w)) = acts w @ [Acquire, Release]"
    and "acts (snd (DelegateTxManager_WithinTransaction (NewDelegateTxManager (lend_beginner a) silent)
      ctx (send_coins_tx (lend_sendCoinsCase ids a) f t n) w)) = acts w @ [Acquire, Release]"
  using assms by (simp_all add: tx_conns buy_tx_lend send_tx_lend)

lemma buy_conns:
  "conns_of (PurchaseCase_BuyItem (lend_purchaseCase a) ctx u item) \<in>
     {[Acquire, Release], [Acquire, Release, Acquire, Release]}"
  by (auto simp: PurchaseCase_BuyItem_def GoodsRepository_GetGoodInfo_def NewGoodsRepository_def
      conns_of_def lend_pool_def note_acts_def split: sum.split)

lemma send_conns:
  "conns_of (SendCoinsCase_SendCoins (lend_sendCoinsCase ids a) ctx u name n) \<in>
     {[], [Acquire, Release], [Acquire, Release, Acquire, Release]}"
  by (auto simp: SendCoinsCase_SendCoins_def BalancesRepository_EnsureBalanceCreated_def
      NewBalancesRepository_def conns_of_def lend_pool_def note_acts_def split: sum.split)

text \<open>All that a call of the store can do to the pool.\<close>

inductive_set store_traces :: "conn_action list set" where
  trace_balance: "conns_of (UserInfoRepository_FetchUserBalance (lend_info a) ctx u) \<in> store_traces"
| trace_purchases: "conns_of (UserInfoRepository_FetchUserPurchases (lend_info a) ctx u) \<in> store_traces"
| trace_transfers: "conns_of (UserInfoRepository_FetchUserCoinTransfers (lend_info a) ctx u) \<in> store_traces"
| trace_ensure: "conns_of (BalancesRepository_EnsureBalanceCreated (NewBalancesRepository (lend_pool a))
    ctx u v) \<in> store_traces"
| trace_buy: "conns_of (PurchaseCase_BuyItem (lend_purchaseCase a) ctx u item) \<in> store_traces"
| trace_send: "conns_of (SendCoinsCase_SendCoins (lend_sendCoinsCase ids a) ctx u name n) \<in> store_traces"

lemma store_traces_cases:
  "t \<in> store_traces \<Longrightarrow> t \<in> {[], [Acquire, Release], [Acquire, Release, Acquire, Release],
    [Acquire, Acquire, Release, Release]}"
proof (induction rule: store_traces.induct)
  case (trace_buy a ctx u item)
  then show ?case using buy_conns [of a ctx u item] by auto
next
  case (trace_send ids a ctx u name n)
  then show ?case using send_conns [of ids a ctx u name n] by auto
qed (simp_all add: transfers_conns lookup_conns split: sum.split)

lemma store_traces_fit: "t \<in> store_traces \<Longrightarrow> fits 2 (0, t)"
  by (drule store_traces_cases) auto

section \<open>Who waits, and for whom\<close>

lemma sum_update:
  fixes f :: "'a \<Rightarrow> nat"
  assumes "i < length xs"
  shows "sum_list (map f (xs[i := x])) + f (xs ! i) = sum_list (map f xs) + f x"
  using assms
proof (induction xs arbitrary: i)
  case (Cons y ys)
  then show ?case by (cases i) force+
qed simp

text \<open>The calls that still may need a second connection while they hold one.\<close>

definition nested :: "pool_call list \<Rightarrow> nat" where
  "nested cs = sum_list (map (\<lambda>c. if fits 1 c then 0 else 1) cs)"

lemma some_moves:
  assumes f: "list_all (fits 2) cs" and n: "nested cs < k" and u: "\<not> list_all finished cs"
  shows "\<exists>cs'. lend_step k cs cs'"
proof (cases "\<exists>i h xs. i < length cs \<and> cs ! i = (h, Release # xs)")
  case True
  then obtain i h xs where i: "i < length cs" "cs ! i = (h, Release # xs)" by blast
  with f have "fits 2 (h, Release # xs)" by (metis list_all_length)
  then obtain h' where "h = Suc h'" by (cases h) auto
  with i give_conn show ?thesis by blast
next
  case False
  have w: "fst c \<le> (if fits 1 c then 0 else 1)" if "c \<in> set cs" for c
  proof -
    obtain h xs where c: "c = (h, xs)" by fastforce
    have "fits 2 c" using f that by (simp add: list_all_iff)
    then show ?thesis
    proof (cases xs)
      case Nil
      with c \<open>fits 2 c\<close> show ?thesis by simp
    next
      case (Cons x ys)
      from that obtain j where "j < length cs" "cs ! j = c" by (auto simp: in_set_conv_nth)
      with False c Cons have "x = Acquire" by (cases x) auto
      with c Cons \<open>fits 2 c\<close> show ?thesis by auto
    qed
  qed
  have "in_use cs \<le> nested cs" unfolding in_use_def nested_def by (rule sum_list_mono) (rule w)
  with n have "in_use cs < k" by simp
  moreover obtain i where i: "i < length cs" "\<not> finished (cs ! i)" using u by (auto simp: list_all_length)
  obtain h xs where c: "cs ! i = (h, xs)" by fastforce
  have "fits 2 (h, xs)" using f i c by (metis list_all_length)
  with i c obtain x ys where x: "xs = x # ys" by (cases xs) (auto simp: finished_def)
  moreover have "x = Acquire" using False i c x by (cases x) auto
  ultimately show ?thesis using i c take_conn by blast
qed

definition work :: "pool_call list \<Rightarrow> nat" where
  "work cs = sum_list (map (\<lambda>c. length (snd c)) cs)"

lemma lend_step_facts:
  assumes "lend_step k cs cs'" "list_all (fits 2) cs"
  shows "list_all (fits 2) cs' \<and> nested cs' \<le> nested cs \<and> work cs' < work cs"
proof -
  from assms(1) have "\<exists>i c'. i < length cs \<and> cs' = cs[i := c'] \<and>
      (\<forall>m. fits m (cs ! i) \<longrightarrow> fits m c') \<and> length (snd c') < length (snd (cs ! i))"
  proof cases
    case (take_conn i h xs)
    then show ?thesis by (intro exI [of _ i] exI [of _ "(Suc h, xs)"]) simp
  next
    case (give_conn i h xs)
    then show ?thesis by (intro exI [of _ i] exI [of _ "(h, xs)"]) simp
  qed
  then obtain i c' where i: "i < length cs" "cs' = cs[i := c']"
    and c: "\<And>m. fits m (cs ! i) \<Longrightarrow> fits m c'" "length (snd c') < length (snd (cs ! i))" by blast
  have "fits 2 c'" using c(1) assms(2) i(1) by (simp add: list_all_length)
  then have "list_all (fits 2) cs'"
    using assms(2) i set_update_subset_insert [of cs i c'] by (auto simp: list_all_iff)
  moreover have "nested cs' \<le> nested cs"
    using sum_update [OF i(1), of "\<lambda>c. if fits 1 c then 0 else 1" c'] c(1) [of 1]
    unfolding nested_def i(2) by (auto split: if_splits)
  moreover have "work cs' < work cs"
    using sum_update [OF i(1), of "\<lambda>c. length (snd c)" c'] c(2) unfolding work_def i(2) by simp
  ultimately show ?thesis by blast
qed

lemma drains:
  assumes "list_all (fits 2) cs" "nested cs < k"
  shows "\<exists>cs'. (lend_step k)\<^sup>*\<^sup>* cs cs' \<and> list_all finished cs'"
  using assms
proof (induction "work cs" arbitrary: cs rule: less_induct)
  case less
  show ?case
  proof (cases "list_all finished cs")
    case False
    obtain cs1 where s: "lend_step k cs cs1" using some_moves [OF less.prems False] ..
    from lend_step_facts [OF s less.prems(1)] less.hyps [of cs1] less.prems(2) obtain cs' where
      "(lend_step k)\<^sup>*\<^sup>* cs1 cs'" "list_all finished cs'" by auto
    with s show ?thesis by (meson converse_rtranclp_into_rtranclp)
  qed blast
qed

lemma lend_steps_facts:
  "(lend_step k)\<^sup>*\<^sup>* cs cs' \<Longrightarrow> list_all (fits 2) cs \<Longrightarrow>
   list_all (fits 2) cs' \<and> nested cs' \<le> nested cs"
  by (induction rule: rtranclp_induct) (auto dest: lend_step_facts)

text \<open>All take their first connection before any takes its second.\<close>

lemma take_firsts:
  "m \<le> k \<Longrightarrow> n \<le> m \<Longrightarrow>
   (lend_step k)\<^sup>*\<^sup>* (replicate m (0, Acquire # xs)) (replicate n (Suc 0, xs) @ replicate (m - n) (0, Acquire # xs))"
proof (induction n)
  case (Suc n)
  let ?cs = "replicate n (Suc 0, xs) @ replicate (m - n) (0, Acquire # xs)"
  have "in_use ?cs = n" by (simp add: in_use_def sum_list_replicate)
  then have "lend_step k ?cs (?cs[n := (Suc 0, xs)])"
    using Suc.prems by (intro take_conn) (simp_all add: nth_append)
  moreover have "replicate (m - n) (0::nat, Acquire # xs) = (0, Acquire # xs) # replicate (m - Suc n) (0, Acquire # xs)"
    using Suc.prems by (metis Suc_diff_Suc Suc_le_lessD replicate_Suc)
  then have "?cs[n := (Suc 0, xs)] = replicate (Suc n) (Suc 0, xs) @ replicate (m - Suc n) (0, Acquire # xs)"
    by (simp add: list_update_append replicate_append_same)
  ultimately show ?case using Suc by (metis Suc_leD rtranclp.rtrancl_into_rtrancl)
qed simp

lemma all_wait:
  assumes "\<forall>c \<in> set cs. \<exists>h xs. c = (h, Acquire # xs)" "k \<le> in_use cs"
  shows "\<not> lend_step k cs cs'"
proof
  assume "lend_step k cs cs'"
  then show False
  proof cases
    case (take_conn i h xs)
    with assms(2) show False by simp
  next
    case (give_conn i h xs)
    with assms(1) show False by (metis conn_action.distinct(1) list.inject nth_mem prod.inject)
  qed
qed

section \<open>Properties\<close>

text \<open>
  C29. Enough connections drain. As long as fewer calls than the pool has connections are calls
  that hold one connection while they ask for a second, the store cannot block on its pool:
  from every state that any calls of the store reach by any order of taking and returning, all
  of them can run to their end. The calls are the code's own: what \<open>BuyItem\<close>, \<open>SendCoins\<close>,
  \<open>EnsureBalanceCreated\<close> and the three lookups take and return, whatever the database answers;
  only \<open>FetchUserCoinTransfers\<close> nests.
\<close>

theorem pool_drains:
  assumes "set ts \<subseteq> store_traces" "nested (map (Pair 0) ts) < k"
    and "(lend_step k)\<^sup>*\<^sup>* (map (Pair 0) ts) cs"
  shows "(\<exists>cs'. (lend_step k)\<^sup>*\<^sup>* cs cs' \<and> list_all finished cs') \<and>
    (\<forall>t \<in> set ts. fits 1 (0, t) \<or> t = [Acquire, Acquire, Release, Release])"
proof -
  have "list_all (fits 2) (map (Pair 0) ts)"
    using assms(1) by (auto simp: list_all_iff intro: store_traces_fit)
  with lend_steps_facts [OF assms(3)] assms(2) have "list_all (fits 2) cs" "nested cs < k" by auto
  from drains [OF this] assms(1) show ?thesis by (auto dest!: subsetD store_traces_cases)
qed

definition demo_answers :: pool_answers where
  "demo_answers = \<lparr>ans_row = (\<lambda>q. Inl ErrNoRows), ans_rows = (\<lambda>q. Inr \<lparr>rows_data = [], rows_Err = None\<rparr>),
     ans_exec = (\<lambda>q. Inr 1), ans_begin = None, ans_commit = None\<rparr>"

lemma demo_traces:
  "conns_of (UserInfoRepository_FetchUserCoinTransfers (lend_info demo_answers) background 1) =
     [Acquire, Acquire, Release, Release]"
  "[Acquire, Acquire, Release, Release] \<in> store_traces" "[Acquire, Release] \<in> store_traces"
proof -
  show t: "conns_of (UserInfoRepository_FetchUserCoinTransfers (lend_info demo_answers) background 1) =
     [Acquire, Acquire, Release, Release]"
    by (simp add: transfers_conns demo_answers_def)
  show "[Acquire, Acquire, Release, Release] \<in> store_traces"
    using trace_transfers [of demo_answers background 1] by (simp add: t)
  show "[Acquire, Release] \<in> store_traces"
    using trace_balance [of demo_answers background 1] by (simp add: lookup_conns)
qed

theorem pool_drains_witness:
  "\<exists>cs'. (lend_step 2)\<^sup>*\<^sup>* [(1, [Acquire, Release, Release]), (0, [Acquire, Release])] cs' \<and>
    list_all finished cs'"
proof -
  let ?ts = "[[Acquire, Acquire, Release, Release], [Acquire, Release]]"
  have "lend_step 2 (map (Pair 0) ?ts) [(1, [Acquire, Release, Release]), (0, [Acquire, Release])]"
    using take_conn [of 0 "map (Pair 0) ?ts" 0 "[Acquire, Release, Release]" 2] by (simp add: in_use_def)
  then have "(lend_step 2)\<^sup>*\<^sup>* (map (Pair 0) ?ts)
      [(1, [Acquire, Release, Release]), (0, [Acquire, Release])]" by (rule r_into_rtranclp)
  with pool_drains [of ?ts 2] demo_traces show ?thesis by (simp add: nested_def)
qed

text \<open>
  C30. And too few starve. For every pool size, as many overlapping calls of
  \<open>FetchUserCoinTransfers\<close> as there are connections can each take one for the outgoing rows, and
  then all wait for the one of the incoming rows: none of them can go on, no call of the store
  that arrives later can, and none of the connections comes back until the contexts expire.
\<close>

theorem pool_starves:
  assumes "0 < k" "ans_rows a SqlOutcoming = Inr outs"
  shows "\<exists>cs. (lend_step k)\<^sup>*\<^sup>*
      (replicate k (0, conns_of (UserInfoRepository_FetchUserCoinTransfers (lend_info a) ctx u))) cs \<and>
    list_ex (\<lambda>c. \<not> finished c) cs \<and>
    (\<forall>ts cs'. set ts \<subseteq> store_traces - {[]} \<longrightarrow> \<not> lend_step k (cs @ map (Pair 0) ts) cs')"
proof (intro exI conjI allI impI)
  let ?cs = "replicate k (Suc 0, [Acquire, Release, Release])"
  show "(lend_step k)\<^sup>*\<^sup>*
      (replicate k (0, conns_of (UserInfoRepository_FetchUserCoinTransfers (lend_info a) ctx u))) ?cs"
    using take_firsts [of k k k "[Acquire, Release, Release]"] assms(2) by (simp add: transfers_conns)
  show "list_ex (\<lambda>c. \<not> finished c) ?cs" using assms(1) by (simp add: list_ex_iff finished_def)
  fix ts cs'
  assume ts: "set ts \<subseteq> store_traces - {[]}"
  have "\<exists>xs. t = Acquire # xs" if "t \<in> set ts" for t
    using ts that store_traces_cases [of t] by auto
  then have "\<forall>c \<in> set (?cs @ map (Pair 0) ts). \<exists>h xs. c = (h, Acquire # xs)" by auto
  moreover have "k \<le> in_use (?cs @ map (Pair 0) ts)" by (simp add: in_use_def sum_list_replicate)
  ultimately show "\<not> lend_step k (?cs @ map (Pair 0) ts) cs'" by (rule all_wait)
qed

theorem pool_starves_witness:
  "\<exists>cs. (lend_step 4)\<^sup>*\<^sup>* (replicate 4 (0, [Acquire, Acquire, Release, Release])) cs \<and>
    list_ex (\<lambda>c. \<not> finished c) cs \<and> \<not> (\<exists>cs'. lend_step 4 (cs @ [(0, [Acquire, Release])]) cs')"
proof -
  have "ans_rows demo_answers SqlOutcoming = Inr \<lparr>rows_data = [], rows_Err = None\<rparr>"
    by (simp add: demo_answers_def)
  from pool_starves [of 4, OF _ this, of background 1] demo_traces obtain cs where
    "(lend_step 4)\<^sup>*\<^sup>* (replicate 4 (0, [Acquire, Acquire, Release, Release])) cs"
    "list_ex (\<lambda>c. \<not> finished c) cs"
    and no: "\<And>ts cs'. set ts \<subseteq> store_traces - {[]} \<Longrightarrow> \<not> lend_step 4 (cs @ map (Pair 0) ts) cs'"
    by auto
  with no [of "[[Acquire, Release]]"] demo_traces show ?thesis by auto
qed

end
