(* ===== verification/Merch_Lifecycle.thy ===== *)
theory Merch_Lifecycle
  imports Pg_Driver "HOL-Library.Sublist"
begin

text \<open>
  The life of a process: the three \<open>main\<close> functions of \<open>cmd/\<close> with the \<open>Run\<close> and \<open>Shutdown\<close> of
  \<open>AuthApp\<close>, \<open>StoreApp\<close> and \<open>GatewayApp\<close>. Each is three goroutines (\<open>main\<close>, \<open>Run\<close> and the one that
  serves) beside the calls in flight, and they take their steps in any order. Lines logged at
  level Info are left out; what the handlers do is the subject of the other theories.
\<close>

section \<open>The apps as scripts\<close>

datatype app = AuthApp | StoreApp | GatewayApp

datatype peer = AuthPeer | StorePeer

text \<open>
  The steps of \<open>Run\<close> up to its \<open>select\<close>: opening the pool, creating a client connection (closed by a
  \<open>defer\<close>), the assignments to the fields of the app, and starting the serving goroutine.
\<close>

datatype run_op = OpenPool | Dial peer | KeepPool | KeepServer | StartServe

definition auth_run_script :: "run_op list" where
  "auth_run_script = [OpenPool, KeepPool, KeepServer, StartServe]"

definition store_run_script :: "run_op list" where
  "store_run_script = [OpenPool, Dial AuthPeer, KeepPool, KeepServer, StartServe]"

definition gateway_run_script :: "run_op list" where
  "gateway_run_script = [Dial AuthPeer, Dial StorePeer, KeepServer, StartServe]"

fun run_script :: "app \<Rightarrow> run_op list" where
  "run_script AuthApp = auth_run_script"
| "run_script StoreApp = store_run_script"
| "run_script GatewayApp = gateway_run_script"

text \<open>The steps of \<open>Shutdown\<close> once it has found a server.\<close>

datatype stop_op = GracefulStop | HttpShutdown | ClosePool

definition auth_stop_script :: "stop_op list" where
  "auth_stop_script = [GracefulStop, ClosePool]"

definition store_stop_script :: "stop_op list" where
  "store_stop_script = [GracefulStop, ClosePool]"

definition gateway_stop_script :: "stop_op list" where
  "gateway_stop_script = [HttpShutdown]"

fun stop_script :: "app \<Rightarrow> stop_op list" where
  "stop_script AuthApp = auth_stop_script"
| "stop_script StoreApp = store_stop_script"
| "stop_script GatewayApp = gateway_stop_script"

lemmas script_defs [simp] = auth_run_script_def store_run_script_def gateway_run_script_def
  auth_stop_script_def store_stop_script_def gateway_stop_script_def

text \<open>The messages that the errors of \<open>Run\<close> carry, and those that \<open>main\<close> logs.\<close>

definition pool_failed :: string where "pool_failed = ''failed to connect to database''"

fun dial_failed :: "peer \<Rightarrow> string" where
  "dial_failed AuthPeer = ''failed to connect to auth grpc server''"
| "dial_failed StorePeer = ''failed to connect to store grpc server''"

fun serve_failed :: "app \<Rightarrow> string" where
  "serve_failed GatewayApp = ''error while starting http server''"
| "serve_failed _ = ''failed to serve gRPC''"

text \<open>
  The goroutine that each \<open>main\<close> starts: it listens, then runs the app. An error of either is
  logged with its message and ends the goroutine after \<open>stop()\<close>.
\<close>

datatype main_op = Listen string | RunApp string

definition auth_main_script :: "main_op list" where
  "auth_main_script =
     [Listen ''Failed to listen on gRPC port'', RunApp ''Failed to run auth service'']"

definition store_main_script :: "main_op list" where
  "store_main_script = [Listen ''failed to listen on gRPC port'', RunApp ''store app run failed'']"

definition gateway_main_script :: "main_op list" where
  "gateway_main_script = [Listen ''failed to listen on HTTP port'', RunApp ''gateway app run failed'']"

fun main_script :: "app \<Rightarrow> main_op list" where
  "main_script AuthApp = auth_main_script"
| "main_script StoreApp = store_main_script"
| "main_script GatewayApp = gateway_main_script"

definition listen_failed :: "app \<Rightarrow> string" where
  "listen_failed a = (case main_script a of Listen msg # _ \<Rightarrow> msg | _ \<Rightarrow> [])"

definition run_failed :: "app \<Rightarrow> string" where
  "run_failed a = (case main_script a of _ # RunApp msg # _ \<Rightarrow> msg | _ \<Rightarrow> [])"

section \<open>State\<close>

datatype main_phase = Waiting | Stopping "stop_op list" | Exited | Crashed

text \<open>
  \<open>Run\<close>: about to listen, at a step with the connections to close at its end, unwinding its
  deferred calls with the error it returns, or gone.
\<close>

datatype run_phase =
    Listening
  | Starting "run_op list" "peer list"
  | Unwinding "peer list" "error option"
  | RunEnded

datatype serve_phase = NotServing | Serving | Served

datatype resource = Unopened | Opened | Closed

text \<open>The order in which a resource goes through its states.\<close>

fun resource_age :: "resource \<Rightarrow> nat" where
  "resource_age Unopened = 0"
| "resource_age Opened = 1"
| "resource_age Closed = 2"

lemma resource_age_inject: "resource_age x = resource_age y \<Longrightarrow> x = y"
  by (cases x; cases y) simp_all

instantiation resource :: linorder
begin

definition less_eq_resource :: "resource \<Rightarrow> resource \<Rightarrow> bool" where
  "less_eq_resource x y \<longleftrightarrow> resource_age x \<le> resource_age y"

definition less_resource :: "resource \<Rightarrow> resource \<Rightarrow> bool" where
  "less_resource x y \<longleftrightarrow> resource_age x < resource_age y"

instance
  by standard (auto simp: less_eq_resource_def less_resource_def intro: resource_age_inject)

end

lemma resource_order [simp]:
  "Unopened \<le> x" "x \<le> Closed" "Opened \<le> x \<longleftrightarrow> x \<noteq> Unopened" "x \<le> Unopened \<longleftrightarrow> x = Unopened"
  by (cases x; simp add: less_eq_resource_def)+

text \<open>
  \<open>closing\<close>: the server has been told to stop; \<open>stopped\<close>: its connections have been told too and no
  call arrives any more. Of the calls in flight, \<open>hung\<close> many never return: their handlers wait for
  something that does not come, such as a connection of a starved pool (\<open>Store_Pool\<close>) for a client
  that sets no deadline.
\<close>

record process =
  signalled :: bool
  main_at :: main_phase
  run_at :: run_phase
  serve_at :: serve_phase
  app_pool :: bool
  app_server :: bool
  pool_is :: resource
  conn_is :: "peer \<Rightarrow> resource"
  err_chan :: "error option option"
  closing :: bool
  stopped :: bool
  in_flight :: nat
  hung :: nat
  error_log :: "(string \<times> error) list"

definition init_process :: process where
  "init_process =
     \<lparr>signalled = False, main_at = Waiting, run_at = Listening, serve_at = NotServing,
      app_pool = False, app_server = False, pool_is = Unopened, conn_is = (\<lambda>_. Unopened),
      err_chan = None, closing = False, stopped = False, in_flight = 0, hung = 0, error_log = []\<rparr>"

definition log_error :: "string \<Rightarrow> error \<Rightarrow> process \<Rightarrow> process" where
  "log_error msg e p = p\<lparr>error_log := error_log p @ [(msg, e)]\<rparr>"

section \<open>Steps\<close>

text \<open>
  The goroutine of \<open>main\<close> that listens and calls \<open>Run\<close>. \<open>stop()\<close> ends the context that \<open>main\<close>
  waits for, as a signal does.
\<close>

inductive run_step :: "app \<Rightarrow> process \<Rightarrow> process \<Rightarrow> bool" for a where
  listen_ok: "run_at p = Listening \<Longrightarrow> run_step a p (p\<lparr>run_at := Starting (run_script a) []\<rparr>)"
| listen_fail: "run_at p = Listening \<Longrightarrow>
    run_step a p (log_error (listen_failed a) e (p\<lparr>signalled := True, run_at := RunEnded\<rparr>))"
| pool_ok: "run_at p = Starting (OpenPool # ops) ds \<Longrightarrow>
    run_step a p (p\<lparr>pool_is := Opened, run_at := Starting ops ds\<rparr>)"
| pool_fail: "run_at p = Starting (OpenPool # ops) ds \<Longrightarrow>
    run_step a p (p\<lparr>run_at := Unwinding ds (Some (WrapError pool_failed e))\<rparr>)"
| dial_ok: "run_at p = Starting (Dial x # ops) ds \<Longrightarrow>
    run_step a p (p\<lparr>conn_is := (conn_is p)(x := Opened), run_at := Starting ops (x # ds)\<rparr>)"
| dial_fail: "run_at p = Starting (Dial x # ops) ds \<Longrightarrow>
    run_step a p (p\<lparr>run_at := Unwinding ds (Some (WrapError (dial_failed x) e))\<rparr>)"
| keep_pool: "run_at p = Starting (KeepPool # ops) ds \<Longrightarrow>
    run_step a p (p\<lparr>app_pool := True, run_at := Starting ops ds\<rparr>)"
| keep_server: "run_at p = Starting (KeepServer # ops) ds \<Longrightarrow>
    run_step a p (p\<lparr>app_server := True, run_at := Starting ops ds\<rparr>)"
| start_serve: "run_at p = Starting (StartServe # ops) ds \<Longrightarrow>
    run_step a p (p\<lparr>serve_at := Serving, run_at := Starting ops ds\<rparr>)"
| select_done: "run_at p = Starting [] ds \<Longrightarrow> signalled p \<Longrightarrow>
    run_step a p (p\<lparr>run_at := Unwinding ds None\<rparr>)"
| select_err: "run_at p = Starting [] ds \<Longrightarrow> err_chan p = Some r \<Longrightarrow>
    run_step a p (p\<lparr>err_chan := None, run_at := Unwinding ds r\<rparr>)"
| close_conn: "run_at p = Unwinding (x # ds) r \<Longrightarrow>
    run_step a p (p\<lparr>conn_is := (conn_is p)(x := Closed), run_at := Unwinding ds r\<rparr>)"
| run_fails: "run_at p = Unwinding [] (Some e) \<Longrightarrow>
    run_step a p (log_error (run_failed a) e (p\<lparr>signalled := True, run_at := RunEnded\<rparr>))"
| run_ends: "run_at p = Unwinding [] None \<Longrightarrow> run_step a p (p\<lparr>run_at := RunEnded\<rparr>)"

text \<open>
  The serving goroutine and the calls. \<open>Serve\<close> fails at any time, or returns because the server
  has been told to stop (\<open>http.ErrServerClosed\<close> is not an error to the gateway); the connections
  that it has accepted go on. Each of them learns of the stop a little later: as gRPC and
  \<open>net/http\<close> document, calls that arrive in between are served, and none arrives afterwards. A call
  returns, or hangs.
\<close>

inductive serve_step :: "app \<Rightarrow> process \<Rightarrow> process \<Rightarrow> bool" for a where
  serve_fail: "serve_at p = Serving \<Longrightarrow>
    serve_step a p (p\<lparr>serve_at := Served, err_chan := Some (Some (WrapError (serve_failed a) e))\<rparr>)"
| serve_end: "serve_at p = Serving \<Longrightarrow> closing p \<Longrightarrow>
    serve_step a p (p\<lparr>serve_at := Served, err_chan := Some None\<rparr>)"
| all_told: "closing p \<Longrightarrow> \<not> stopped p \<Longrightarrow> serve_step a p (p\<lparr>stopped := True\<rparr>)"
| call_arrives: "serve_at p \<noteq> NotServing \<Longrightarrow> \<not> stopped p \<Longrightarrow>
    serve_step a p (p\<lparr>in_flight := in_flight p + 1\<rparr>)"
| call_ends: "hung p < in_flight p \<Longrightarrow> serve_step a p (p\<lparr>in_flight := in_flight p - 1\<rparr>)"
| call_hangs: "hung p < in_flight p \<Longrightarrow> serve_step a p (p\<lparr>hung := hung p + 1\<rparr>)"

text \<open>
  The main goroutine. \<open>GracefulStop\<close> waits for the calls in flight, however long they take; the
  HTTP server's \<open>Shutdown\<close> waits for them until its timeout. Closing a pool that was never
  assigned would be a nil dereference.
\<close>

inductive main_step :: "app \<Rightarrow> process \<Rightarrow> process \<Rightarrow> bool" for a where
  shut_nothing: "main_at p = Waiting \<Longrightarrow> signalled p \<Longrightarrow> \<not> app_server p \<Longrightarrow>
    main_step a p (p\<lparr>main_at := Exited\<rparr>)"
| shut_begin: "main_at p = Waiting \<Longrightarrow> signalled p \<Longrightarrow> app_server p \<Longrightarrow>
    main_step a p (p\<lparr>main_at := Stopping (stop_script a)\<rparr>)"
| stop_begin: "main_at p = Stopping (x # ops) \<Longrightarrow> x \<noteq> ClosePool \<Longrightarrow> \<not> closing p \<Longrightarrow>
    main_step a p (p\<lparr>closing := True\<rparr>)"
| stop_drained: "main_at p = Stopping (x # ops) \<Longrightarrow> x \<noteq> ClosePool \<Longrightarrow> stopped p \<Longrightarrow> in_flight p = 0 \<Longrightarrow>
    main_step a p (p\<lparr>main_at := Stopping ops\<rparr>)"
| stop_timeout: "main_at p = Stopping (HttpShutdown # ops) \<Longrightarrow> closing p \<Longrightarrow>
    main_step a p (log_error ''server shutdown failed'' e (p\<lparr>main_at := Stopping ops\<rparr>))"
| close_pool: "main_at p = Stopping (ClosePool # ops) \<Longrightarrow> app_pool p \<Longrightarrow>
    main_step a p (p\<lparr>pool_is := Closed, main_at := Stopping ops\<rparr>)"
| nil_pool: "main_at p = Stopping (ClosePool # ops) \<Longrightarrow> \<not> app_pool p \<Longrightarrow>
    main_step a p (p\<lparr>main_at := Crashed\<rparr>)"
| main_exit: "main_at p = Stopping [] \<Longrightarrow> main_step a p (p\<lparr>main_at := Exited\<rparr>)"

definition alive :: "process \<Rightarrow> bool" where
  "alive p \<longleftrightarrow> main_at p \<noteq> Exited \<and> main_at p \<noteq> Crashed"

inductive process_step :: "app \<Rightarrow> process \<Rightarrow> process \<Rightarrow> bool" for a where
  by_run: "alive p \<Longrightarrow> run_step a p q \<Longrightarrow> process_step a p q"
| by_serve: "alive p \<Longrightarrow> serve_step a p q \<Longrightarrow> process_step a p q"
| by_main: "alive p \<Longrightarrow> main_step a p q \<Longrightarrow> process_step a p q"
| by_signal: "alive p \<Longrightarrow> process_step a p (p\<lparr>signalled := True\<rparr>)"

inductive process_steps :: "app \<Rightarrow> process \<Rightarrow> process \<Rightarrow> bool" for a where
  steps_none: "process_steps a p p"
| steps_more: "process_steps a p q \<Longrightarrow> process_step a q r \<Longrightarrow> process_steps a p r"

section \<open>The invariant\<close>

definition run_inv :: "app \<Rightarrow> process \<Rightarrow> bool" where
  "run_inv a p \<longleftrightarrow>
     (case run_at p of
        Listening \<Rightarrow> serve_at p = NotServing
      | Starting ops ds \<Rightarrow>
          suffix ops (run_script a) \<and> (StartServe \<in> set ops \<longrightarrow> serve_at p = NotServing) \<and>
          (a \<noteq> GatewayApp \<longrightarrow> (OpenPool \<notin> set ops \<longrightarrow> pool_is p \<noteq> Unopened) \<and>
             (KeepPool \<notin> set ops \<longrightarrow> app_pool p)) \<and>
          (KeepServer \<notin> set ops \<longrightarrow> app_server p)
      | Unwinding ds r \<Rightarrow> r = None \<longrightarrow> signalled p
      | RunEnded \<Rightarrow> signalled p)"

definition main_inv :: "app \<Rightarrow> process \<Rightarrow> bool" where
  "main_inv a p \<longleftrightarrow>
     (case main_at p of
        Waiting \<Rightarrow> \<not> closing p
      | Stopping ops \<Rightarrow> signalled p \<and> app_server p \<and> suffix ops (stop_script a) \<and>
          (ops \<noteq> stop_script a \<longrightarrow> closing p \<and> (a \<noteq> GatewayApp \<longrightarrow> stopped p \<and> in_flight p = 0))
      | Exited \<Rightarrow> signalled p
      | Crashed \<Rightarrow> False)"

definition process_inv :: "app \<Rightarrow> process \<Rightarrow> bool" where
  "process_inv a p \<longleftrightarrow> run_inv a p \<and> main_inv a p \<and>
     (app_server p \<longrightarrow> a \<noteq> GatewayApp \<longrightarrow> app_pool p) \<and>
     (app_pool p \<longrightarrow> pool_is p \<noteq> Unopened) \<and>
     (serve_at p \<noteq> NotServing \<longrightarrow> app_server p) \<and>
     (0 < in_flight p \<longrightarrow> serve_at p \<noteq> NotServing) \<and>
     (pool_is p = Closed \<longrightarrow> stopped p \<and> in_flight p = 0) \<and>
     (err_chan p = Some None \<longrightarrow> closing p) \<and>
     (stopped p \<longrightarrow> closing p) \<and> (closing p \<longrightarrow> signalled p)"

lemma scripts:
  "suffix ops [OpenPool, KeepPool, KeepServer, StartServe] \<longleftrightarrow>
     ops \<in> {[], [StartServe], [KeepServer, StartServe], [KeepPool, KeepServer, StartServe],
       [OpenPool, KeepPool, KeepServer, StartServe]}"
  "suffix ops [OpenPool, Dial AuthPeer, KeepPool, KeepServer, StartServe] \<longleftrightarrow>
     ops \<in> {[], [StartServe], [KeepServer, StartServe], [KeepPool, KeepServer, StartServe],
       [Dial AuthPeer, KeepPool, KeepServer, StartServe],
       [OpenPool, Dial AuthPeer, KeepPool, KeepServer, StartServe]}"
  "suffix ops [Dial AuthPeer, Dial StorePeer, KeepServer, StartServe] \<longleftrightarrow>
     ops \<in> {[], [StartServe], [KeepServer, StartServe], [Dial StorePeer, KeepServer, StartServe],
       [Dial AuthPeer, Dial StorePeer, KeepServer, StartServe]}"
  "suffix sops [GracefulStop, ClosePool] \<longleftrightarrow> sops \<in> {[], [ClosePool], [GracefulStop, ClosePool]}"
  "suffix sops [HttpShutdown] \<longleftrightarrow> sops \<in> {[], [HttpShutdown]}"
  by (auto simp: suffix_Cons)

lemmas process_inv_defs = process_inv_def run_inv_def main_inv_def log_error_def

lemma process_inv_init: "process_inv a init_process"
  by (simp add: process_inv_defs init_process_def)

text \<open>The part of each goroutine's invariant is untouched by the others.\<close>

lemma main_inv_mono:
  assumes "main_inv a p" "main_at q = main_at p" "stopped p \<longrightarrow> stopped q" "closing q = closing p"
    "signalled p \<longrightarrow> signalled q"
    "app_server p \<longrightarrow> app_server q" "stopped p \<longrightarrow> in_flight q \<le> in_flight p"
  shows "main_inv a q"
  using assms unfolding main_inv_def by (cases "main_at p") auto

lemma run_inv_mono:
  assumes "run_inv a p" "run_at q = run_at p" "signalled p \<longrightarrow> signalled q" "app_server q = app_server p"
    "serve_at p = NotServing \<longrightarrow> serve_at q = NotServing" "app_pool q = app_pool p"
    "pool_is p \<noteq> Unopened \<longrightarrow> pool_is q \<noteq> Unopened"
  shows "run_inv a q"
  using assms unfolding run_inv_def by (cases "run_at p") auto

lemma run_step_main: "run_step a p q \<Longrightarrow> main_inv a p \<Longrightarrow> main_inv a q"
  by (induction rule: run_step.induct) (erule main_inv_mono; simp add: log_error_def)+

lemma run_step_run:
  "run_step a p q \<Longrightarrow> run_inv a p \<Longrightarrow> err_chan p = Some None \<longrightarrow> signalled p \<Longrightarrow> run_inv a q"
  by (induction rule: run_step.induct)
    (cases a; simp add: run_inv_def log_error_def scripts; auto simp: scripts; fail)+

lemma run_step_inv: "run_step a p q \<Longrightarrow> process_inv a p \<Longrightarrow> process_inv a q"
proof -
  assume s: "run_step a p q" and inv: "process_inv a p"
  have "run_inv a q" "main_inv a q"
    using s inv run_step_run run_step_main by (auto simp: process_inv_def)
  with s inv show ?thesis
    by (induction rule: run_step.induct)
      (cases a; auto simp: process_inv_def run_inv_def log_error_def scripts; fail)+
qed

lemma serve_step_inv: "serve_step a p q \<Longrightarrow> process_inv a p \<Longrightarrow> process_inv a q"
proof (induction rule: serve_step.induct)
  case (serve_fail p e)
  then show ?case by (auto simp: process_inv_def intro: main_inv_mono run_inv_mono)
next
  case (serve_end p)
  then show ?case by (auto simp: process_inv_def intro: main_inv_mono run_inv_mono)
next
  case (all_told p)
  then show ?case by (auto simp: process_inv_def intro: main_inv_mono run_inv_mono)
next
  case (call_arrives p)
  then show ?case by (auto simp: process_inv_def intro: main_inv_mono run_inv_mono)
next
  case (call_ends p)
  then show ?case by (auto simp: process_inv_def intro: main_inv_mono run_inv_mono)
next
  case (call_hangs p)
  then show ?case by (auto simp: process_inv_def intro: main_inv_mono run_inv_mono)
qed

lemma main_step_main:
  "main_step a p q \<Longrightarrow> process_inv a p \<Longrightarrow> main_inv a q"
  by (induction rule: main_step.induct)
    (cases a; simp add: process_inv_def main_inv_def log_error_def scripts; auto simp: scripts; fail)+

lemma closing_drained:
  "main_inv a p \<Longrightarrow> main_at p = Stopping (ClosePool # ops) \<Longrightarrow>
   a \<noteq> GatewayApp \<and> stopped p \<and> in_flight p = 0 \<and> app_server p"
  by (cases a; simp add: main_inv_def scripts)

lemma main_step_inv:
  assumes "main_step a p q" and inv: "process_inv a p"
  shows "process_inv a q"
proof -
  have m: "main_inv a q" using main_step_main [OF assms] .
  have parts: "run_inv a p" "main_inv a p" using inv by (auto simp: process_inv_def)
  from assms(1) have r: "run_inv a q"
    by cases (rule run_inv_mono [OF parts(1)]; simp add: log_error_def)+
  from assms(1) show ?thesis
  proof cases
    case (shut_nothing)
    with inv m r show ?thesis by (auto simp: process_inv_def)
  next
    case (shut_begin)
    with inv m r show ?thesis by (auto simp: process_inv_def)
  next
    case (stop_begin x ops)
    with inv m r parts(2) show ?thesis by (auto simp: process_inv_def main_inv_def)
  next
    case (stop_drained x ops)
    with inv m r show ?thesis by (auto simp: process_inv_def)
  next
    case (stop_timeout ops e)
    with inv m r show ?thesis by (auto simp: process_inv_def log_error_def)
  next
    case (close_pool ops)
    with inv m r closing_drained [OF parts(2)] show ?thesis by (auto simp: process_inv_def)
  next
    case (nil_pool ops)
    with m show ?thesis by (simp add: main_inv_def)
  next
    case (main_exit)
    with inv m r show ?thesis by (auto simp: process_inv_def)
  qed
qed

lemma process_step_inv: "process_step a p q \<Longrightarrow> process_inv a p \<Longrightarrow> process_inv a q"
proof (induction rule: process_step.induct)
  case (by_signal p)
  then show ?case by (auto simp: process_inv_defs split: main_phase.splits run_phase.splits)
qed (auto intro: run_step_inv serve_step_inv main_step_inv)

lemma process_steps_inv: "process_steps a p q \<Longrightarrow> process_inv a p \<Longrightarrow> process_inv a q"
  by (induction rule: process_steps.induct) (auto intro: process_step_inv)

lemma process_steps_trans: "process_steps a p q \<Longrightarrow> process_steps a q r \<Longrightarrow> process_steps a p r"
  by (rotate_tac, induction rule: process_steps.induct) (auto intro: process_steps.intros)

section \<open>Resources are opened once\<close>

text \<open>What \<open>Run\<close> has still to open is unopened.\<close>

definition fresh_inv :: "process \<Rightarrow> bool" where
  "fresh_inv p \<longleftrightarrow>
     (case run_at p of
        Listening \<Rightarrow> pool_is p = Unopened \<and> (\<forall>x. conn_is p x = Unopened)
      | Starting ops ds \<Rightarrow> distinct ops \<and> (OpenPool \<in> set ops \<longrightarrow> pool_is p = Unopened) \<and>
          (\<forall>x. Dial x \<in> set ops \<longrightarrow> conn_is p x = Unopened)
      | _ \<Rightarrow> True)"

definition ages :: "process \<Rightarrow> process \<Rightarrow> bool" where
  "ages p q \<longleftrightarrow> pool_is p \<le> pool_is q \<and> (\<forall>x. conn_is p x \<le> conn_is q x)"

lemma distinct_script: "distinct (run_script a)"
  by (cases a) simp_all

lemma ages_refl: "pool_is q = pool_is p \<Longrightarrow> conn_is q = conn_is p \<Longrightarrow> ages p q"
  by (simp add: ages_def)

lemma fresh_same:
  "fresh_inv p \<Longrightarrow> run_at q = run_at p \<Longrightarrow> pool_is q = pool_is p \<Longrightarrow> conn_is q = conn_is p \<Longrightarrow>
   fresh_inv q \<and> ages p q"
  by (simp add: fresh_inv_def ages_def split: run_phase.splits)

lemma run_step_ages: "run_step a p q \<Longrightarrow> fresh_inv p \<Longrightarrow> fresh_inv q \<and> ages p q"
  by (induction rule: run_step.induct)
    (auto simp: fresh_inv_def ages_def log_error_def distinct_script)

lemma serve_step_ages: "serve_step a p q \<Longrightarrow> fresh_inv p \<Longrightarrow> fresh_inv q \<and> ages p q"
  by (induction rule: serve_step.induct) (erule fresh_same; simp)+

lemma main_step_ages:
  "main_step a p q \<Longrightarrow> process_inv a p \<Longrightarrow> fresh_inv p \<Longrightarrow> fresh_inv q \<and> ages p q"
  by (induction rule: main_step.induct)
    (auto simp: fresh_inv_def ages_def log_error_def process_inv_def split: run_phase.splits)

lemma process_step_ages:
  "process_step a p q \<Longrightarrow> process_inv a p \<Longrightarrow> fresh_inv p \<Longrightarrow> fresh_inv q \<and> ages p q"
proof (induction rule: process_step.induct)
  case (by_signal p)
  then show ?case by (intro fresh_same) simp_all
qed (simp_all add: run_step_ages serve_step_ages main_step_ages)

lemma process_steps_ages:
  "process_steps a p q \<Longrightarrow> process_inv a p \<Longrightarrow> fresh_inv p \<Longrightarrow> fresh_inv q \<and> ages p q"
proof (induction rule: process_steps.induct)
  case (steps_more p q r)
  with process_step_ages [OF steps_more(2)] process_steps_inv [OF steps_more(1)] show ?case
    by (auto simp: ages_def intro: order_trans)
qed (simp add: ages_refl)

lemma fresh_init: "fresh_inv init_process"
  by (simp add: fresh_inv_def init_process_def)

section \<open>How a process ends\<close>

text \<open>
  An auth service or store that has exited has no call in flight, and its pool, if it was told to
  stop the server, is closed.
\<close>

definition exit_inv :: "app \<Rightarrow> process \<Rightarrow> bool" where
  "exit_inv a p \<longleftrightarrow> hung p \<le> in_flight p \<and>
     (a \<noteq> GatewayApp \<longrightarrow> (main_at p = Exited \<longrightarrow> in_flight p = 0) \<and>
        (main_at p = Exited \<and> closing p \<or> main_at p = Stopping [] \<longrightarrow> pool_is p = Closed))"

lemma exit_inv_init: "exit_inv a init_process"
  by (simp add: exit_inv_def init_process_def)

lemma run_step_same:
  "run_step a p q \<Longrightarrow> main_at q = main_at p \<and> in_flight q = in_flight p \<and> hung q = hung p \<and>
     closing q = closing p \<and> stopped q = stopped p"
  by (induction rule: run_step.induct) (simp_all add: log_error_def)

lemma main_step_exit:
  assumes "main_step a p q" "process_inv a p" "exit_inv a p"
  shows "exit_inv a q"
  using assms(1)
proof cases
  case shut_nothing
  with assms(2,3) show ?thesis by (auto simp: exit_inv_def process_inv_def main_inv_def)
next
  case shut_begin
  with assms(3) show ?thesis by (cases a) (auto simp: exit_inv_def)
next
  case (stop_begin x ops)
  with assms(3) show ?thesis by (auto simp: exit_inv_def)
next
  case (stop_drained x ops)
  with assms(2,3) show ?thesis
    by (cases a) (auto simp: exit_inv_def process_inv_def main_inv_def scripts)
next
  case (stop_timeout ops e)
  with assms(2,3) show ?thesis
    by (cases a) (auto simp: exit_inv_def process_inv_def main_inv_def scripts log_error_def)
next
  case (close_pool ops)
  with assms(3) show ?thesis by (auto simp: exit_inv_def)
next
  case (nil_pool ops)
  with assms(3) show ?thesis by (auto simp: exit_inv_def)
next
  case main_exit
  with assms(2,3) show ?thesis by (cases a) (auto simp: exit_inv_def process_inv_def main_inv_def)
qed

lemma process_step_exit:
  assumes "process_step a p q" "process_inv a p" "fresh_inv p" "exit_inv a p"
  shows "exit_inv a q"
  using assms(1)
proof cases
  case by_run
  have "pool_is p \<le> pool_is q" using run_step_ages [OF by_run(2) assms(3)] by (simp add: ages_def)
  then have "pool_is p = Closed \<longrightarrow> pool_is q = Closed" by (cases "pool_is q") (auto simp: less_eq_resource_def)
  with run_step_same [OF by_run(2)] assms(4) show ?thesis by (simp add: exit_inv_def)
next
  case by_serve
  from by_serve(2,1) assms(4) show ?thesis
    by (induction rule: serve_step.induct) (auto simp: exit_inv_def alive_def)
next
  case by_main
  from main_step_exit [OF by_main(2) assms(2,4)] show ?thesis .
next
  case by_signal
  with assms(4) show ?thesis by (simp add: exit_inv_def)
qed

lemma process_steps_exit:
  "process_steps a p q \<Longrightarrow> process_inv a p \<Longrightarrow> fresh_inv p \<Longrightarrow> exit_inv a p \<Longrightarrow> exit_inv a q"
proof (induction rule: process_steps.induct)
  case (steps_more p q r)
  with process_step_exit [OF steps_more(2)] process_steps_inv process_steps_ages show ?case by blast
qed

lemma reachable_inv:
  assumes "process_steps a init_process p"
  shows "process_inv a p" "exit_inv a p"
  using process_steps_inv [OF assms process_inv_init]
    process_steps_exit [OF assms process_inv_init fresh_init exit_inv_init] by auto

text \<open>A call that hangs is in flight for ever, and keeps \<open>GracefulStop\<close> waiting.\<close>

lemma process_step_hung: "process_step a p q \<Longrightarrow> hung p \<le> hung q"
proof (induction rule: process_step.induct)
  case (by_run p q)
  with run_step_same show ?case by simp
next
  case (by_serve p q)
  from by_serve(2) show ?case by (induction rule: serve_step.induct) simp_all
next
  case (by_main p q)
  from by_main(2) show ?case by (induction rule: main_step.induct) (simp_all add: log_error_def)
qed simp

lemma process_steps_hung: "process_steps a p q \<Longrightarrow> hung p \<le> hung q"
  by (induction rule: process_steps.induct) (auto dest: process_step_hung)

text \<open>The main goroutine is never blocked but in the \<open>GracefulStop\<close> of an unfinished server.\<close>

lemma main_moves:
  assumes inv: "process_inv a p" and s: "signalled p" and e: "main_at p \<noteq> Exited"
  shows "(\<exists>q. main_step a p q) \<or>
    a \<noteq> GatewayApp \<and> main_at p = Stopping (stop_script a) \<and> closing p \<and> (stopped p \<longrightarrow> 0 < in_flight p)"
proof (cases "main_at p")
  case Waiting
  with s shut_nothing [of p a] shut_begin [of p a] show ?thesis by blast
next
  case (Stopping ops)
  show ?thesis
  proof (cases ops)
    case Nil
    with Stopping main_exit [of p a] show ?thesis by blast
  next
    case (Cons x xs)
    show ?thesis
    proof (cases "x = ClosePool")
      case True
      with Stopping Cons close_pool [of p xs a] nil_pool [of p xs a] show ?thesis by blast
    next
      case False
      have "ops = stop_script a" "x = HttpShutdown \<longleftrightarrow> a = GatewayApp"
        using inv Stopping Cons False
        by (cases a; auto simp: process_inv_def main_inv_def scripts)+
      with Stopping Cons False stop_begin [of p x xs a] stop_drained [of p x xs a]
        stop_timeout [of p xs a] show ?thesis by (cases "closing p") auto
    qed
  qed
next
  case Crashed
  with inv show ?thesis by (simp add: process_inv_def main_inv_def)
qed (use e in simp)

lemma main_step_moves: "main_step a p q \<Longrightarrow> q \<noteq> p"
proof -
  assume "main_step a p q"
  then have "main_at q \<noteq> main_at p \<or> closing q \<noteq> closing p"
    by cases (simp_all add: log_error_def)
  then show ?thesis by metis
qed

text \<open>What a process that is told to stop can rest in.\<close>

lemma rest_cases:
  assumes inv: "process_inv a p" "exit_inv a p" and s: "signalled p"
    and rest: "\<And>q. process_step a p q \<Longrightarrow> q = p"
  shows "main_at p = Exited \<or>
    a \<noteq> GatewayApp \<and> main_at p = Stopping (stop_script a) \<and> 0 < hung p \<and> in_flight p = hung p"
proof (cases "main_at p = Exited")
  case False
  with inv(1) have live: "alive p" by (auto simp: alive_def process_inv_def main_inv_def)
  have "\<not> main_step a p q" for q using rest [OF by_main [OF live]] main_step_moves by blast
  with main_moves [OF inv(1) s False] have w: "a \<noteq> GatewayApp" "main_at p = Stopping (stop_script a)"
    "closing p" "stopped p \<longrightarrow> 0 < in_flight p" by auto
  have "stopped p"
  proof (rule ccontr)
    assume "\<not> stopped p"
    then have "p\<lparr>stopped := True\<rparr> = p" using rest by_serve [OF live all_told [OF w(3)]] by blast
    then have "stopped p = stopped (p\<lparr>stopped := True\<rparr>)" by (rule arg_cong [OF sym])
    with \<open>\<not> stopped p\<close> show False by simp
  qed
  moreover have "\<not> hung p < in_flight p"
  proof
    assume h: "hung p < in_flight p"
    have "p\<lparr>in_flight := in_flight p - 1\<rparr> = p" using rest by_serve [OF live call_ends [OF h]] by blast
    then have "in_flight p = in_flight (p\<lparr>in_flight := in_flight p - 1\<rparr>)" by (rule arg_cong [OF sym])
    with h show False by simp
  qed
  ultimately show ?thesis using w inv(2) by (auto simp: exit_inv_def)
qed simp

section \<open>No step for ever\<close>

text \<open>A bound on the steps that a process can still take once no call arrives any more.\<close>

fun main_left :: "app \<Rightarrow> main_phase \<Rightarrow> nat" where
  "main_left a Waiting = length (stop_script a) + 2"
| "main_left a (Stopping ops) = length ops + 1"
| "main_left a _ = 0"

fun run_left :: "app \<Rightarrow> run_phase \<Rightarrow> nat" where
  "run_left a Listening = 2 * length (run_script a) + 4"
| "run_left a (Starting ops ds) = 2 * length ops + length ds + 3"
| "run_left a (Unwinding ds r) = length ds + 1"
| "run_left a RunEnded = 0"

fun serve_left :: "serve_phase \<Rightarrow> nat" where
  "serve_left Serving = 1"
| "serve_left _ = 0"

definition steps_left :: "app \<Rightarrow> process \<Rightarrow> nat" where
  "steps_left a p = main_left a (main_at p) + run_left a (run_at p) + serve_left (serve_at p) +
     (2 * in_flight p - hung p)"

lemma run_step_left: "run_step a p q \<Longrightarrow> steps_left a q < steps_left a p"
proof (induction rule: run_step.induct)
  case (start_serve p ops ds)
  then show ?case by (cases "serve_at p") (simp_all add: steps_left_def)
qed (simp_all add: steps_left_def log_error_def)

lemma serve_step_left: "serve_step a p q \<Longrightarrow> stopped p \<Longrightarrow> steps_left a q < steps_left a p"
  by (induction rule: serve_step.induct) (simp_all add: steps_left_def)

lemma main_step_left: "main_step a p q \<Longrightarrow> closing p \<Longrightarrow> steps_left a q < steps_left a p"
  by (induction rule: main_step.induct) (simp_all add: steps_left_def log_error_def)

lemma stopped_stays: "process_step a p q \<Longrightarrow> stopped p \<Longrightarrow> stopped q"
proof (induction rule: process_step.induct)
  case (by_run p q)
  with run_step_same show ?case by simp
next
  case (by_serve p q)
  from by_serve(2,3) show ?case by (induction rule: serve_step.induct) simp_all
next
  case (by_main p q)
  from by_main(2,3) show ?case by (induction rule: main_step.induct) (simp_all add: log_error_def)
qed simp

lemma process_step_left:
  assumes "process_step a p q" "process_inv a p" "stopped p" "q \<noteq> p"
  shows "steps_left a q < steps_left a p"
  using assms(1)
proof cases
  case by_signal
  have "signalled p" using assms(2,3) by (simp add: process_inv_def)
  with by_signal assms(4) show ?thesis by simp
qed (use assms(2,3) in \<open>auto simp: process_inv_def intro: run_step_left serve_step_left main_step_left\<close>)

lemma no_endless_run:
  assumes "process_inv a p" "stopped p"
  shows "\<not> (\<exists>f. f 0 = p \<and> (\<forall>n. process_step a (f n) (f (Suc n)) \<and> f (Suc n) \<noteq> f n))"
proof
  assume "\<exists>f. f 0 = p \<and> (\<forall>n. process_step a (f n) (f (Suc n)) \<and> f (Suc n) \<noteq> f n)"
  then obtain f where f: "f 0 = p" "\<And>n. process_step a (f n) (f (Suc n))" "\<And>n. f (Suc n) \<noteq> f n" by blast
  have inv: "process_inv a (f n) \<and> stopped (f n)" for n
  proof (induction n)
    case 0
    with f(1) assms show ?case by simp
  next
    case (Suc n)
    with f(2) process_step_inv stopped_stays show ?case by blast
  qed
  have "steps_left a (f n) + n \<le> steps_left a p" for n
  proof (induction n)
    case 0
    with f(1) show ?case by simp
  next
    case (Suc n)
    with process_step_left [OF f(2), of n] inv [of n] f(3) [of n] show ?case by simp
  qed
  from this [of "Suc (steps_left a p)"] show False by simp
qed

section \<open>Shutting down\<close>

text \<open>Once the process is told to stop and no call hangs, the main goroutine can finish.\<close>

lemma one_step: "process_step a p q \<Longrightarrow> process_steps a q r \<Longrightarrow> process_steps a p r"
  using process_steps_trans steps_more [OF steps_none] by blast

lemma drain:
  assumes "alive p" "hung p = 0"
  shows "process_steps a p (p\<lparr>in_flight := 0\<rparr>)"
  using assms
proof (induction "in_flight p" arbitrary: p)
  case 0
  then have "p\<lparr>in_flight := 0\<rparr> = p" by simp
  with steps_none show ?case by metis
next
  case (Suc n)
  let ?q = "p\<lparr>in_flight := in_flight p - 1\<rparr>"
  have "process_step a p ?q" using by_serve [OF Suc.prems(1) call_ends [of p]] Suc.hyps(2) Suc.prems(2) by simp
  moreover have "process_steps a ?q (?q\<lparr>in_flight := 0\<rparr>)"
    using Suc by (intro Suc.hyps) (auto simp: alive_def)
  ultimately show ?case using one_step by fastforce
qed

text \<open>Every step of main towards its end is one of a few, so a short induction does.\<close>

lemma signalled_exits:
  assumes "process_inv a p" "signalled p" "hung p = 0 \<or> a = GatewayApp"
  shows "\<exists>q. process_steps a p q \<and> main_at q = Exited"
  using assms
proof (induction "main_left a (main_at p) + (if closing p then 0 else 1)" arbitrary: p rule: less_induct)
  case less
  have onwards: ?case if s: "main_step a p q" for q
  proof -
    have st: "process_step a p q" using s by (intro by_main) (auto simp: alive_def elim: main_step.cases)
    have "main_left a (main_at q) + (if closing q then 0 else 1) <
        main_left a (main_at p) + (if closing p then 0 else 1)" "signalled q" "hung q = hung p"
      using s less.prems(2) by (cases; simp add: log_error_def)+
    with less.hyps [of q] process_step_inv [OF st less.prems(1)] less.prems(3) one_step [OF st]
    show ?case by auto
  qed
  show ?case
  proof (cases "main_at p = Exited")
    case True
    with steps_none show ?thesis by blast
  next
    case False
    show ?thesis
    proof (cases "\<exists>q. main_step a p q")
      case True
      with onwards show ?thesis by blast
    next
      case blocked: False
      with main_moves [OF less.prems(1,2) False] have w: "a \<noteq> GatewayApp"
        "main_at p = Stopping (stop_script a)" "closing p" by auto
      then have h: "hung p = 0" "alive p" using less.prems(3) by (auto simp: alive_def)
      let ?q = "p\<lparr>stopped := True\<rparr>" and ?r = "p\<lparr>stopped := True, in_flight := 0\<rparr>"
      have "process_steps a p ?q"
      proof (cases "stopped p")
        case True
        then have "?q = p" by simp
        with steps_none show ?thesis by metis
      next
        case no: False
        with by_serve [OF h(2) all_told [OF w(3) no]] steps_more [OF steps_none] show ?thesis by blast
      qed
      moreover have "process_steps a ?q ?r" using drain [of ?q a] h by (simp add: alive_def)
      ultimately have steps: "process_steps a p ?r" by (rule process_steps_trans)
      obtain x xs where x: "stop_script a = x # xs" "x \<noteq> ClosePool" by (cases a) auto
      let ?s = "?r\<lparr>main_at := Stopping xs\<rparr>"
      have m: "main_step a ?r ?s" using stop_drained [of ?r x xs a] w x by simp
      then have "process_step a ?r ?s" using h(2) by (intro by_main) (simp_all add: alive_def)
      with steps have s: "process_steps a p ?s" by (rule steps_more)
      have "\<exists>q. process_steps a ?s q \<and> main_at q = Exited"
        using less.hyps [of ?s] process_steps_inv [OF s less.prems(1)] less.prems(2) h(1) w x by simp
      with s show ?thesis using process_steps_trans by blast
    qed
  qed
qed

section \<open>A run\<close>

lemma run_more: "process_steps a p q \<Longrightarrow> run_step a q r \<Longrightarrow> alive q \<Longrightarrow> process_steps a p r"
  using steps_more by_run by blast

lemma serve_more: "process_steps a p q \<Longrightarrow> serve_step a q r \<Longrightarrow> alive q \<Longrightarrow> process_steps a p r"
  using steps_more by_serve by blast

lemma main_more: "process_steps a p q \<Longrightarrow> main_step a q r \<Longrightarrow> alive q \<Longrightarrow> process_steps a p r"
  using steps_more by_main by blast

text \<open>The store starts and takes a call; the gateway starts and takes a request.\<close>

definition store_busy :: process where
  "store_busy = init_process
     \<lparr>run_at := Starting [] [AuthPeer], serve_at := Serving, app_pool := True, app_server := True,
      pool_is := Opened, conn_is := (\<lambda>_. Unopened)(AuthPeer := Opened), in_flight := 1\<rparr>"

definition gateway_busy :: process where
  "gateway_busy = init_process
     \<lparr>run_at := Starting [] [StorePeer, AuthPeer], serve_at := Serving, app_server := True,
      conn_is := (\<lambda>_. Opened), in_flight := 1\<rparr>"

lemma store_starts: "process_steps StoreApp init_process store_busy"
proof -
  let ?p1 = "init_process\<lparr>run_at := Starting (run_script StoreApp) []\<rparr>"
  let ?p2 = "?p1\<lparr>pool_is := Opened, run_at := Starting [Dial AuthPeer, KeepPool, KeepServer, StartServe] []\<rparr>"
  let ?p3 = "?p2\<lparr>conn_is := (conn_is ?p2)(AuthPeer := Opened),
    run_at := Starting [KeepPool, KeepServer, StartServe] [AuthPeer]\<rparr>"
  let ?p4 = "?p3\<lparr>app_pool := True, run_at := Starting [KeepServer, StartServe] [AuthPeer]\<rparr>"
  let ?p5 = "?p4\<lparr>app_server := True, run_at := Starting [StartServe] [AuthPeer]\<rparr>"
  let ?p6 = "?p5\<lparr>serve_at := Serving, run_at := Starting [] [AuthPeer]\<rparr>"
  have "process_steps StoreApp init_process ?p1"
    by (rule run_more [OF steps_none listen_ok]) (simp_all add: init_process_def alive_def)
  then have "process_steps StoreApp init_process ?p2"
    by (rule run_more [OF _ pool_ok]) (simp_all add: init_process_def alive_def)
  then have "process_steps StoreApp init_process ?p3"
    by (rule run_more [OF _ dial_ok]) (simp_all add: init_process_def alive_def)
  then have "process_steps StoreApp init_process ?p4"
    by (rule run_more [OF _ keep_pool]) (simp_all add: init_process_def alive_def)
  then have "process_steps StoreApp init_process ?p5"
    by (rule run_more [OF _ keep_server]) (simp_all add: init_process_def alive_def)
  then have "process_steps StoreApp init_process ?p6"
    by (rule run_more [OF _ start_serve]) (simp_all add: init_process_def alive_def)
  then have "process_steps StoreApp init_process (?p6\<lparr>in_flight := in_flight ?p6 + 1\<rparr>)"
    by (rule serve_more [OF _ call_arrives]) (simp_all add: init_process_def alive_def)
  then show ?thesis by (simp add: store_busy_def init_process_def)
qed

lemma gateway_starts: "process_steps GatewayApp init_process gateway_busy"
proof -
  let ?p1 = "init_process\<lparr>run_at := Starting (run_script GatewayApp) []\<rparr>"
  let ?p2 = "?p1\<lparr>conn_is := (conn_is ?p1)(AuthPeer := Opened),
    run_at := Starting [Dial StorePeer, KeepServer, StartServe] [AuthPeer]\<rparr>"
  let ?p3 = "?p2\<lparr>conn_is := (conn_is ?p2)(StorePeer := Opened),
    run_at := Starting [KeepServer, StartServe] [StorePeer, AuthPeer]\<rparr>"
  let ?p4 = "?p3\<lparr>app_server := True, run_at := Starting [StartServe] [StorePeer, AuthPeer]\<rparr>"
  let ?p5 = "?p4\<lparr>serve_at := Serving, run_at := Starting [] [StorePeer, AuthPeer]\<rparr>"
  have "process_steps GatewayApp init_process ?p1"
    by (rule run_more [OF steps_none listen_ok]) (simp_all add: init_process_def alive_def)
  then have "process_steps GatewayApp init_process ?p2"
    by (rule run_more [OF _ dial_ok]) (simp_all add: init_process_def alive_def)
  then have "process_steps GatewayApp init_process ?p3"
    by (rule run_more [OF _ dial_ok]) (simp_all add: init_process_def alive_def)
  then have "process_steps GatewayApp init_process ?p4"
    by (rule run_more [OF _ keep_server]) (simp_all add: init_process_def alive_def)
  then have "process_steps GatewayApp init_process ?p5"
    by (rule run_more [OF _ start_serve]) (simp_all add: init_process_def alive_def)
  then have "process_steps GatewayApp init_process (?p5\<lparr>in_flight := in_flight ?p5 + 1\<rparr>)"
    by (rule serve_more [OF _ call_arrives]) (simp_all add: init_process_def alive_def)
  moreover have "(\<lambda>_. Unopened)(AuthPeer := Opened, StorePeer := Opened) = (\<lambda>_. Opened)"
  proof
    show "((\<lambda>_. Unopened)(AuthPeer := Opened, StorePeer := Opened)) x = Opened" for x
      by (cases x) simp_all
  qed
  ultimately show ?thesis by (simp add: gateway_busy_def init_process_def)
qed

text \<open>The signal comes while a call is in flight: \<open>Run\<close> returns, \<open>main\<close> begins to stop the server.\<close>

definition signalled_run :: "app \<Rightarrow> process \<Rightarrow> process" where
  "signalled_run a p =
     p\<lparr>signalled := True, main_at := Stopping (stop_script a), closing := True\<rparr>"

lemma signal_stops:
  assumes "process_steps a init_process p" "main_at p = Waiting" "app_server p" "\<not> closing p"
  shows "process_steps a init_process (signalled_run a p)"
proof -
  let ?p1 = "p\<lparr>signalled := True\<rparr>"
  let ?p2 = "?p1\<lparr>main_at := Stopping (stop_script a)\<rparr>"
  have "process_steps a init_process ?p1"
    using steps_more [OF assms(1) by_signal] assms(2) by (simp add: alive_def)
  then have "process_steps a init_process ?p2"
    by (rule main_more [OF _ shut_begin]) (use assms in \<open>simp_all add: alive_def\<close>)
  moreover obtain x ops where "stop_script a = x # ops" "x \<noteq> ClosePool" by (cases a) auto
  ultimately have "process_steps a init_process (?p2\<lparr>closing := True\<rparr>)"
    by (intro main_more [OF _ stop_begin [of _ x ops]]) (use assms in \<open>simp_all add: alive_def\<close>)
  then show ?thesis by (simp add: signalled_run_def)
qed

lemma unwinds:
  assumes "process_steps a p q" "run_at q = Unwinding ds r" "alive q"
  shows "process_steps a p
    (q\<lparr>conn_is := (\<lambda>x. if x \<in> set ds then Closed else conn_is q x), run_at := Unwinding [] r\<rparr>)"
  using assms
proof (induction ds arbitrary: q)
  case Nil
  then have "q\<lparr>conn_is := (\<lambda>x. conn_is q x), run_at := Unwinding [] r\<rparr> = q" by simp
  with Nil.prems(1) show ?case by (simp del: process.update_convs)
next
  case (Cons y ds)
  let ?q = "q\<lparr>conn_is := (conn_is q)(y := Closed), run_at := Unwinding ds r\<rparr>"
  have "process_steps a p ?q"
    using run_more [OF Cons.prems(1) close_conn [OF Cons.prems(2)] Cons.prems(3)] .
  from Cons.IH [OF this] Cons.prems(3)
  have "process_steps a p (?q\<lparr>conn_is := (\<lambda>x. if x \<in> set ds then Closed else conn_is ?q x),
      run_at := Unwinding [] r\<rparr>)"
    by (simp add: alive_def)
  moreover have "(\<lambda>x. if x \<in> set ds then Closed else conn_is ?q x) =
      (\<lambda>x. if x \<in> set (y # ds) then Closed else conn_is q x)" by auto
  ultimately show ?case by simp
qed

lemma signal_closes:
  assumes "process_steps a init_process p" "main_at p = Waiting" "app_server p" "\<not> closing p"
    and "run_at p = Starting [] ds"
  shows "\<exists>q. process_steps a init_process q \<and> in_flight q = in_flight p \<and>
    main_at q = Stopping (stop_script a) \<and> (\<forall>x \<in> set ds. conn_is q x = Closed)"
proof -
  let ?p = "signalled_run a p"
  let ?q = "?p\<lparr>run_at := Unwinding ds None\<rparr>"
  have "process_steps a init_process ?q"
    by (rule run_more [OF signal_stops [OF assms(1-4)] select_done [of _ ds]])
      (simp_all add: signalled_run_def assms(5) alive_def)
  from unwinds [OF this, of ds None] show ?thesis
    by (intro exI [of _ "?q\<lparr>conn_is := (\<lambda>x. if x \<in> set ds then Closed else conn_is ?q x),
      run_at := Unwinding [] None\<rparr>"]) (simp add: signalled_run_def alive_def)
qed

section \<open>Properties\<close>

text \<open>
  C26. Whatever the goroutines do in whatever order: \<open>Shutdown\<close> never closes a pool that was not
  assigned, a process whose \<open>Run\<close> has ended (with an error that was logged, or not) has told
  \<open>main\<close> to stop, and no call of the auth service or the store is ever in flight without
  an open pool, shutdown included. The pool and the client connections are opened once and closed
  at the end: none is opened again, whatever follows.
\<close>

theorem process_safe:
  assumes "process_steps a init_process p"
  shows "main_at p \<noteq> Crashed \<and> (run_at p = RunEnded \<longrightarrow> signalled p) \<and>
    (a \<noteq> GatewayApp \<longrightarrow> 0 < in_flight p \<longrightarrow> pool_is p = Opened) \<and>
    (\<forall>q. process_steps a p q \<longrightarrow> pool_is p \<le> pool_is q \<and> (\<forall>x. conn_is p x \<le> conn_is q x))"
proof -
  have inv: "process_inv a p" using process_steps_inv [OF assms process_inv_init] .
  have "fresh_inv p" using process_steps_ages [OF assms process_inv_init fresh_init] ..
  then have "ages p q" if "process_steps a p q" for q using process_steps_ages [OF that inv] by simp
  then have ages: "\<forall>q. process_steps a p q \<longrightarrow> pool_is p \<le> pool_is q \<and> (\<forall>x. conn_is p x \<le> conn_is q x)"
    by (simp add: ages_def)
  have "pool_is p = Opened" if "a \<noteq> GatewayApp" "0 < in_flight p"
    using inv that by (cases "pool_is p") (auto simp: process_inv_def)
  with inv have "main_at p \<noteq> Crashed \<and> (run_at p = RunEnded \<longrightarrow> signalled p) \<and>
    (a \<noteq> GatewayApp \<longrightarrow> 0 < in_flight p \<longrightarrow> pool_is p = Opened)"
    by (auto simp: process_inv_def run_inv_def main_inv_def split: main_phase.splits)
  with ages show ?thesis by blast
qed

theorem process_safe_witness: "0 < in_flight store_busy \<and> pool_is store_busy = Opened"
  using process_safe [OF store_starts] by (simp add: store_busy_def)

text \<open>
  C27. How a shutdown ends. Of a process that has been told to stop (a signal, or a failure to
  listen, connect or serve), in every state that is reached: (1) \<open>main\<close> can take its next step,
  unless it has exited or waits in \<open>GracefulStop\<close> for connections to be told or calls to return.
  (2) Once the connections have been told there is no endless run: the steps that change
  anything end, in whatever order they are taken. (3) Where they end, \<open>main\<close> has exited, or, in
  the auth service and the store, it waits in \<open>GracefulStop\<close> for calls that hang. (4) So if no call
  hangs it can exit, and the gateway can even then, by its timeout; (5) but an auth service or a
  store with a call that hangs never exits, whatever happens, since \<open>GracefulStop\<close> has no timeout.
  (6) When one of these two has exited, no call is in flight, and the pool is closed if a server
  was stopped.
\<close>

theorem shutdown_completes:
  assumes "process_steps a init_process p" "signalled p"
  shows "(main_at p = Exited \<or> (\<exists>q. main_step a p q) \<or>
      a \<noteq> GatewayApp \<and> main_at p = Stopping (stop_script a) \<and> closing p \<and> (stopped p \<longrightarrow> 0 < in_flight p)) \<and>
    (stopped p \<longrightarrow> \<not> (\<exists>f. f 0 = p \<and> (\<forall>n. process_step a (f n) (f (Suc n)) \<and> f (Suc n) \<noteq> f n))) \<and>
    ((\<forall>q. process_step a p q \<longrightarrow> q = p) \<longrightarrow> main_at p = Exited \<or>
      a \<noteq> GatewayApp \<and> main_at p = Stopping (stop_script a) \<and> 0 < hung p \<and> in_flight p = hung p) \<and>
    (hung p = 0 \<or> a = GatewayApp \<longrightarrow> (\<exists>q. process_steps a p q \<and> main_at q = Exited)) \<and>
    (a \<noteq> GatewayApp \<and> 0 < hung p \<longrightarrow> (\<forall>q. process_steps a p q \<longrightarrow> main_at q \<noteq> Exited)) \<and>
    (a \<noteq> GatewayApp \<and> main_at p = Exited \<longrightarrow>
      in_flight p = 0 \<and> (closing p \<longrightarrow> pool_is p = Closed))"
proof -
  note inv = reachable_inv [OF assms(1)]
  have "main_at q \<noteq> Exited" if "a \<noteq> GatewayApp" "0 < hung p" "process_steps a p q" for q
    using that process_steps_hung [OF that(3)] reachable_inv(2) [OF process_steps_trans [OF assms(1) that(3)]]
    by (auto simp: exit_inv_def)
  moreover have "main_at p = Exited \<or>
      a \<noteq> GatewayApp \<and> main_at p = Stopping (stop_script a) \<and> 0 < hung p \<and> in_flight p = hung p"
    if "\<forall>q. process_step a p q \<longrightarrow> q = p"
    using rest_cases [OF inv assms(2)] that by blast
  ultimately show ?thesis
    using main_moves [OF inv(1) assms(2)] no_endless_run [OF inv(1)] signalled_exits [OF inv(1) assms(2)] inv(2)
    by (auto simp: exit_inv_def)
qed

text \<open>A store with one call that hangs, told to stop: it rests in \<open>GracefulStop\<close>.\<close>

theorem shutdown_completes_witness:
  "(\<exists>q. process_steps StoreApp (signalled_run StoreApp store_busy) q \<and> main_at q = Exited) \<and>
   \<not> (\<exists>q. process_steps StoreApp (signalled_run StoreApp store_busy\<lparr>hung := 1\<rparr>) q \<and> main_at q = Exited)"
proof
  have s: "process_steps StoreApp init_process (signalled_run StoreApp store_busy)"
    by (rule signal_stops [OF store_starts]) (simp_all add: store_busy_def init_process_def)
  from shutdown_completes [OF this]
  show "\<exists>q. process_steps StoreApp (signalled_run StoreApp store_busy) q \<and> main_at q = Exited"
    by (simp add: signalled_run_def store_busy_def init_process_def)
  have "process_steps StoreApp init_process (signalled_run StoreApp store_busy\<lparr>hung := 1\<rparr>)"
    using serve_more [OF s call_hangs] by (simp add: signalled_run_def store_busy_def init_process_def alive_def)
  from shutdown_completes [OF this]
  show "\<not> (\<exists>q. process_steps StoreApp (signalled_run StoreApp store_busy\<lparr>hung := 1\<rparr>) q \<and> main_at q = Exited)"
    by (simp add: signalled_run_def)
qed

text \<open>
  C37. The pool outlives the calls, but the client connections do not. While \<open>main\<close> still drains
  the calls in flight, \<open>Run\<close> has returned and its deferred calls have closed the connection to
  the auth service (of the store), or to both services (of the gateway), under them.
\<close>

theorem connections_closed_under_calls:
  "(\<exists>p. process_steps StoreApp init_process p \<and> 0 < in_flight p \<and>
      main_at p = Stopping [GracefulStop, ClosePool] \<and> conn_is p AuthPeer = Closed) \<and>
   (\<exists>p. process_steps GatewayApp init_process p \<and> 0 < in_flight p \<and>
      main_at p = Stopping [HttpShutdown] \<and> conn_is p AuthPeer = Closed \<and> conn_is p StorePeer = Closed)"
proof
  show "\<exists>p. process_steps StoreApp init_process p \<and> 0 < in_flight p \<and>
      main_at p = Stopping [GracefulStop, ClosePool] \<and> conn_is p AuthPeer = Closed"
    using signal_closes [OF store_starts] by (auto simp: store_busy_def init_process_def)
  show "\<exists>p. process_steps GatewayApp init_process p \<and> 0 < in_flight p \<and>
      main_at p = Stopping [HttpShutdown] \<and> conn_is p AuthPeer = Closed \<and> conn_is p StorePeer = Closed"
    using signal_closes [OF gateway_starts] by (auto simp: gateway_busy_def init_process_def)
qed

end
