(* ===== verification/Migrations.thy ===== *)
theory Migrations
  imports Go_Errors
begin

text \<open>
  \<open>internal/pkg/database/migrations.go\<close>: applying the migrations to a database, over the packages
  \<open>database/sql\<close> and goose as parameters.
\<close>

section \<open>MigrateDatabase\<close>

text \<open>What the function uses of the packages; \<open>'db\<close> is a handle, \<open>'fs\<close> the embedded files.\<close>

record ('db, 'fs, 'w) migrate_lib =
  sql_Open :: "string \<Rightarrow> string \<Rightarrow> 'w \<Rightarrow> (error + 'db) \<times> 'w"
  db_Close :: "'db \<Rightarrow> 'w \<Rightarrow> 'w"
  goose_SetBaseFS :: "'fs \<Rightarrow> 'w \<Rightarrow> 'w"
  goose_SetDialect :: "string \<Rightarrow> 'w \<Rightarrow> error option \<times> 'w"
  goose_Up :: "'db \<Rightarrow> string \<Rightarrow> 'w \<Rightarrow> error option \<times> 'w"

definition MigrateDatabase ::
  "('db, 'fs, 'w) migrate_lib \<Rightarrow> string \<Rightarrow> 'fs \<Rightarrow> string \<Rightarrow> string \<Rightarrow> string \<Rightarrow> 'w \<Rightarrow> error option \<times> 'w" where
  "MigrateDatabase lib databaseUrl migrations dir driverName dialect w =
     (case sql_Open lib driverName databaseUrl w of
        (Inl err, w) \<Rightarrow> (Some err, w)
      | (Inr db, w) \<Rightarrow>
          (case goose_SetDialect lib dialect (goose_SetBaseFS lib migrations w) of
             (Some err, w) \<Rightarrow> (Some err, db_Close lib db w)
           | (None, w) \<Rightarrow>
               (case goose_Up lib db dir w of
                  (Some err, w) \<Rightarrow> (Some err, db_Close lib db w)
                | (None, w) \<Rightarrow> (None, db_Close lib db w))))"

section \<open>Handles\<close>

text \<open>
  What the packages promise about the open handles of a world: opening adds a fresh one (and none
  when it fails), closing removes it, and goose leaves them alone.
\<close>

definition handles_ok :: "('w \<Rightarrow> 'db set) \<Rightarrow> ('db, 'fs, 'w) migrate_lib \<Rightarrow> bool" where
  "handles_ok handles lib \<longleftrightarrow>
     (\<forall>d url w e w'. sql_Open lib d url w = (Inl e, w') \<longrightarrow> handles w' = handles w) \<and>
     (\<forall>d url w db w'. sql_Open lib d url w = (Inr db, w') \<longrightarrow>
        db \<notin> handles w \<and> handles w' = insert db (handles w)) \<and>
     (\<forall>db w. handles (db_Close lib db w) = handles w - {db}) \<and>
     (\<forall>fs w. handles (goose_SetBaseFS lib fs w) = handles w) \<and>
     (\<forall>s w. handles (snd (goose_SetDialect lib s w)) = handles w) \<and>
     (\<forall>db dir w. handles (snd (goose_Up lib db dir w)) = handles w)"

text \<open>
  \<open>MigrateDatabase\<close> leaves no handle open, on success or on any error; and it reports success
  only when the dialect was accepted and goose has applied the migrations to the database at the
  URL.
\<close>

theorem MigrateDatabase_closes:
  assumes ok: "handles_ok handles lib"
    and r: "MigrateDatabase lib url fs dir driver dialect w = (res, w')"
  shows "handles w' = handles w \<and>
    (res = None \<longrightarrow> (\<exists>db w1 w2 w3. sql_Open lib driver url w = (Inr db, w1) \<and>
       goose_SetDialect lib dialect (goose_SetBaseFS lib fs w1) = (None, w2) \<and>
       goose_Up lib db dir w2 = (None, w3) \<and> w' = db_Close lib db w3))"
proof -
  note laws = ok [unfolded handles_ok_def]
  note open_err = laws [THEN conjunct1, rule_format]
  note open_ok = laws [THEN conjunct2, THEN conjunct1, rule_format]
  have goose: "handles w'' = handles v" if "goose_SetDialect lib s v = (x, w'')" for s v x w''
    using laws that by (metis snd_conv)
  have up: "handles w'' = handles v" if "goose_Up lib db d v = (x, w'')" for db d v x w''
    using laws that by (metis snd_conv)
  have rest: "handles (db_Close lib db v) = handles v - {db}" "handles (goose_SetBaseFS lib fs v) = handles v"
    for db v using laws by simp_all
  obtain x w1 where o1: "sql_Open lib driver url w = (x, w1)" by fastforce
  show ?thesis
  proof (cases x)
    case (Inl err)
    have "handles w1 = handles w" using open_err [OF o1 [unfolded Inl]] .
    with Inl r o1 show ?thesis by (auto simp: MigrateDatabase_def)
  next
    case (Inr db)
    note h1 = open_ok [OF o1 [unfolded Inr]]
    obtain d w2 where d: "goose_SetDialect lib dialect (goose_SetBaseFS lib fs w1) = (d, w2)" by fastforce
    have h2: "handles w2 = insert db (handles w)" using goose [OF d] rest(2) h1 by simp
    obtain u w3 where u: "goose_Up lib db dir w2 = (u, w3)" by fastforce
    have h3: "handles w3 = insert db (handles w)" using up [OF u] h2 by simp
    show ?thesis
    proof (cases d)
      case (Some err)
      with r o1 Inr d h1 h2 show ?thesis by (auto simp: MigrateDatabase_def rest(1))
    next
      case None
      with r o1 Inr d u have "res = u \<and> w' = db_Close lib db w3"
        by (cases u) (auto simp: MigrateDatabase_def)
      with o1 Inr d None u h1 h3 show ?thesis by (auto simp: rest(1))
    qed
  qed
qed

text \<open>A database driver that hands out numbers, with a goose that fails.\<close>

definition demo_migrate :: "(nat, unit, nat set) migrate_lib" where
  "demo_migrate =
     \<lparr>sql_Open = (\<lambda>_ _ w. if w = {} then (Inr 0, {0}) else (Inl (OpaqueError ''too many''), w)),
      db_Close = (\<lambda>db w. w - {db}), goose_SetBaseFS = (\<lambda>_ w. w),
      goose_SetDialect = (\<lambda>s w. (if s = ''postgres'' then None else Some (OpaqueError ''dialect''), w)),
      goose_Up = (\<lambda>_ _ w. (Some (OpaqueError ''syntax error''), w))\<rparr>"

theorem MigrateDatabase_closes_witness:
  "MigrateDatabase demo_migrate ''url'' () ''store'' ''pgx'' ''postgres'' {} =
    (Some (OpaqueError ''syntax error''), {})"
proof -
  have ok: "handles_ok (\<lambda>w. w) demo_migrate"
    by (auto simp: handles_ok_def demo_migrate_def)
  obtain res w' where r: "MigrateDatabase demo_migrate ''url'' () ''store'' ''pgx'' ''postgres'' {} = (res, w')"
    by fastforce
  moreover from r have "res = Some (OpaqueError ''syntax error'')"
    by (simp add: MigrateDatabase_def demo_migrate_def)
  ultimately show ?thesis using MigrateDatabase_closes [OF ok r] by simp
qed

end
