(* ===== verification/Spec2Isabelle.thy ===== *)
theory Spec2Isabelle
  imports Merch_Info Merch_Owners Auth_Concurrency Store_Progress Store_Pool Merch_Lifecycle Migrations
begin

text \<open>
  The merch store: employees hold coins, buy merchandise with them and send them to each other.

  The program. Three Go services (\<open>cmd/gateway\<close>, \<open>cmd/auth\<close>, \<open>cmd/store\<close>). The gateway
  (\<open>internal/gateway\<close>) answers HTTP: \<open>POST /api/auth\<close> asks the auth service for a token;
  \<open>GET /api/info\<close>, \<open>POST /api/sendCoin\<close> and \<open>GET /api/buy/:item\<close> need a bearer token, which the
  gateway only passes on. The auth service (\<open>internal/auth\<close>) keeps users with argon2id hashes in
  PostgreSQL, registers a name at its first login, signs tokens, and resolves names to ids and
  back. The store (\<open>internal/store\<close>) checks the token in an interceptor, opens the caller's account
  with 1000 coins in a second one, and runs a use case in one transaction of its own PostgreSQL
  database; it asks the auth service for the id of a receiver and for the names in a history.

  Common ground.
  \<^item> \<open>Prelude\<close>: Go's \<open>int\<close>, \<open>int32\<close> and \<open>uint32\<close> as words with their conversions, Go maps as
    association lists with distinct keys, the order of a \<open>range\<close> over a map as a parameter.
  \<^item> \<open>Go_Errors\<close>, \<open>Go_Context\<close>: every error value of the program with \<open>errors.Is\<close>; contexts,
    metadata, loggers. A function that returns \<open>(T, error)\<close> is a sum, with the world threaded.
  \<^item> \<open>Database\<close> (\<open>internal/pkg/database\<close>): the interfaces to PostgreSQL, \<open>WithinTransaction\<close>, the
    connection URL, and locales for what a provider promises. \<open>Pg_Driver\<close> is the provider: a
    connection whose every request takes the next entry of a schedule of outcomes (done, lost
    before, failed after, result cut off), so that a theorem for all worlds is one for all
    schedules; \<open>calm\<close> is the schedule with no fault. \<open>Node\<close> adds a remote peer.
  \<^item> \<open>Go_Group\<close>: goroutines of an \<open>errgroup\<close>, interleaved as a list says. \<open>Migrations\<close>:
    \<open>MigrateDatabase\<close>. \<open>Jwt\<close> (\<open>internal/pkg/jwt\<close>): tokens over golang-jwt as a parameter, with the
    documented behaviour of signing and parsing as hypotheses (\<open>jwt_lib_ok\<close>); which tokens are
    accepted, the ones without dates included.

  The store.
  \<^item> \<open>Bank_Spec\<close>: the abstract bank, its three operations, and the audit (each balance is what its
    owner started with and received, less what was sent and spent).
  \<^item> \<open>Store_Sql\<close>, \<open>Store_Sql_Facts\<close>: the tables of \<open>migrations/store\<close> with their constraints as an
    invariant \<open>wf_db\<close>, each SQL statement of the repositories as a function on them, and its effect
    on the bank.
  \<^item> \<open>Store_Domain\<close>, \<open>Store_Postgres\<close>, \<open>Store_Postgres_Facts\<close>: data, interfaces and repositories.
    \<open>Store_Contracts\<close> states a locale per interface; the repositories are interpretations.
  \<^item> \<open>Store_App\<close>, \<open>Store_Service\<close>, \<open>Store_Outcomes\<close>: \<open>BuyItem\<close> and \<open>SendCoins\<close>, proved from the
    contracts: atomic and a refinement of the bank under all failures, exact when calm.
  \<^item> \<open>Store_UserInfo\<close>, \<open>Store_UserInfo_Facts\<close>, \<open>Store_Info_Service\<close>, \<open>Merch_Info\<close>: \<open>GetUserInfo\<close>
    with its three goroutines; right whatever the schedule, up to purchases that a broken
    connection cuts off. The schedule is any list of goroutine numbers followed
    by five more calls, which are enough since the goroutines make two, one and two calls. The
    contracts relate an answer to a set of states; \<open>Store_Info_Commits\<close> interprets them a second
    time, on a connection where every request finds the next of a list of committed databases
    (\<open>busy_pool\<close>), the lists that the interleavings of \<open>Store_Concurrency\<close> produce (\<open>snapshots\<close>).
  \<^item> \<open>Store_Auth_Adapter\<close>, \<open>Store_Grpc\<close>, \<open>Store_Grpc_Facts\<close>: adapter, interceptors, handlers and
    \<open>createGRPCServer\<close>; status codes and effects of every call. \<open>Store_Books\<close>: the states that the
    running service can reach under any calls and failures; in all of them the books balance.
  \<^item> \<open>Store_Concurrency\<close>, \<open>Store_Concurrency_Facts\<close>, \<open>Store_Progress\<close>: transactions as programs of
    statements, proved equal to the code, and any number of them interleaved statement by statement
    with row locks, aborts and new requests: strictly serializable, with a serial run of the bank that
    carries out exactly the requests reported as done, each commit the abstract operation.
    Opposite transfers can deadlock; overlapping requests can all finish, over a pool of any size,
    exactly when the transfers that have locked their sender form no cycle. The bound is five
    steps for a purchase (the lookup of the good, three statements, the commit) and six for a
    transfer (the receiver's account, four statements, the commit).
  \<^item> \<open>Store_Pool\<close>: the code run on a connection that notes what it takes from the pool and returns
    (rows return theirs where pgx closes them, \<open>RowsClose\<close>), and any number of such calls sharing
    \<open>k\<close> connections: who can block whom.

  The auth service. \<open>Auth_Sql\<close> (table and statements), \<open>Auth_Domain\<close> (hasher, repository, use case),
  \<open>Auth_Service\<close> (handlers, wiring, contract of the repository), \<open>Auth_Login\<close> (login under failures
  and when calm, codes, names against ids; the service as the directory the store relies on),
  \<open>Auth_Concurrency\<close> (logins interleaved at their database calls, proved equal to the code when alone:
  safe in every order, and the race of two first logins).

  The gateway and the system. \<open>Merch_Api\<close> (messages and clients), \<open>Gateway_Adapters\<close> (adapters and
  token interceptor over a parameter for the transport), \<open>Gateway_Http\<close> (middleware, handlers, routes
  over a parameter for gin). \<open>Merch_Http\<close>, \<open>Merch_System\<close>, \<open>Merch_Login\<close> put the services together
  and state what each HTTP request does, from the header to the two databases.
  \<open>Merch_Config\<close>: the environment and the configurations of the three \<open>main\<close>s. \<open>Merch_Main\<close>: the app
  structs, what each \<open>Run\<close> assembles, and the system that one environment gives, with a login and a
  transfer by its token. \<open>Merch_Lifecycle\<close>:
  \<open>main\<close>, \<open>Run\<close> and \<open>Shutdown\<close> as a step relation of goroutines beside calls that may hang, with its
  invariant, the order in which its resources are opened and closed, a measure of the steps left
  once the server is stopped, and the states in which a shutdown can rest.
  \<open>Merch_Types\<close>: a typing judgement for the replies of the gateway, type soundness, and how the type
  of the page differs from the one in the README.
  \<open>Merch_Owners\<close>: every state that any HTTP requests can bring the started system to, under any
  failures; coins only move by their owner's token.

  What modelling showed. A purchase list that breaks off is returned as complete
  (\<open>FetchUserPurchases_truncated\<close>); a page read while a purchase commits fits no state
  (\<open>GetUserInfo_torn\<close>); overlapping info requests can block the whole pool (\<open>pool_starves\<close>);
  any failure of the auth service tells a sender that the receiver does not exist
  (\<open>store_SendCoins_reply\<close>); transfers can deadlock (\<open>transfers_can_deadlock\<close>); a graceful stop
  closes the client connections under the calls it waits for (\<open>connections_closed_under_calls\<close>);
  a failed login shows the text of the failure (\<open>failure_replies\<close>); one of two overlapping first
  logins fails (\<open>first_logins_race\<close>); a call that hangs keeps a stopped auth service or store from
  ever exiting (\<open>shutdown_completes\<close>); the page of \<open>/api/info\<close> has other keys than the README shows
  (\<open>replies_typed\<close>); the connection URL is not escaped (\<open>GetURL_ambiguous\<close>).

  Not modelled. Generated code (\<open>gen/\<close>: protobuf encoding, gRPC stubs, mocks) and the libraries
  (pgx, gRPC, gin, golang-jwt, argon2id, goose, slog), which are parameters or, for PostgreSQL, the
  provider above; time, but for the times at which a token is issued and parsed; sockets and
  signals, which are steps of the environment in \<open>Merch_Lifecycle\<close>; failures of the transport
  between the services, except where a theorem holds for every client (the store's over any auth
  client, \<open>failure_replies\<close> over any servers), and metadata that gRPC refuses to send, such as a token
  with unprintable characters; gin's choice of a route pattern for a URL, its redirects included;
  the indexes and the down
  migrations of the schema, which change no result; tests and deployment files. In the
  interleavings of \<open>Store_Concurrency\<close> a statement takes effect at once when its row locks are
  free, and an error in the middle of a transaction is an abort. A lookup and the \<open>BeginTx\<close> after
  it are one step there, since nothing is held between them.
\<close>

end
